theory Spec2Isabelle
  imports Main "HOL-Library.Word" "HOL-Library.Monad_Syntax"
begin

unbundle bit_operations_syntax

section \<open>The reclamation table entry (niel\_reclamation\_table.h)\<close>

text \<open>
  \<^verbatim>\<open>class TableEntry\<close>: one slot of the reclamation table. The fields are the private
  members of the class, with their C++ widths (the trailing underscore of the C++ names
  is dropped).
\<close>

record TableEntry =
  bit_flags :: "8 word"
  app_lock_counter :: "8 word"
  num_pages :: "16 word"
  object_address :: "32 word"
  stub_back_pointer :: "32 word"

definition OCCUPIED_BIT_OFFSET :: nat where
  "OCCUPIED_BIT_OFFSET = 0"

definition KERNEL_LOCK_BIT_OFFSET :: nat where
  "KERNEL_LOCK_BIT_OFFSET = 1"

definition RESIDENT_BIT_OFFSET :: nat where
  "RESIDENT_BIT_OFFSET = 2"

text \<open>
  \<^verbatim>\<open>return ((bit_flags_.load() >> offset) & 0x1);\<close>
  \<^verbatim>\<open>bit_flags_.fetch_or(1 << offset);\<close>
  \<^verbatim>\<open>bit_flags_.fetch_and(~(1 << offset));\<close>
  The operand of the fetch is converted to \<^verbatim>\<open>uint8_t\<close>, so the shift is taken in 8 bits.
\<close>

definition GetBit :: "nat \<Rightarrow> TableEntry \<Rightarrow> bool" where
  "GetBit offset e = ((drop_bit offset (bit_flags e)) AND 1 \<noteq> 0)"

definition SetBit :: "nat \<Rightarrow> TableEntry \<Rightarrow> TableEntry" where
  "SetBit offset e = e\<lparr>bit_flags := bit_flags e OR push_bit offset 1\<rparr>"

definition ClearBit :: "nat \<Rightarrow> TableEntry \<Rightarrow> TableEntry" where
  "ClearBit offset e = e\<lparr>bit_flags := bit_flags e AND NOT (push_bit offset 1)\<rparr>"

definition GetOccupiedBit :: "TableEntry \<Rightarrow> bool" where
  "GetOccupiedBit e = GetBit OCCUPIED_BIT_OFFSET e"

definition SetOccupiedBit :: "TableEntry \<Rightarrow> TableEntry" where
  "SetOccupiedBit e = SetBit OCCUPIED_BIT_OFFSET e"

definition ClearOccupiedBit :: "TableEntry \<Rightarrow> TableEntry" where
  "ClearOccupiedBit e = ClearBit OCCUPIED_BIT_OFFSET e"

definition GetKernelLockBit :: "TableEntry \<Rightarrow> bool" where
  "GetKernelLockBit e = GetBit KERNEL_LOCK_BIT_OFFSET e"

definition SetKernelLockBit :: "TableEntry \<Rightarrow> TableEntry" where
  "SetKernelLockBit e = SetBit KERNEL_LOCK_BIT_OFFSET e"

definition ClearKernelLockBit :: "TableEntry \<Rightarrow> TableEntry" where
  "ClearKernelLockBit e = ClearBit KERNEL_LOCK_BIT_OFFSET e"

definition GetResidentBit :: "TableEntry \<Rightarrow> bool" where
  "GetResidentBit e = GetBit RESIDENT_BIT_OFFSET e"

definition SetResidentBit :: "TableEntry \<Rightarrow> TableEntry" where
  "SetResidentBit e = SetBit RESIDENT_BIT_OFFSET e"

definition ClearResidentBit :: "TableEntry \<Rightarrow> TableEntry" where
  "ClearResidentBit e = ClearBit RESIDENT_BIT_OFFSET e"

text \<open>The counter is a \<^verbatim>\<open>std::atomic<uint8_t>\<close>: \<^verbatim>\<open>++\<close> and \<^verbatim>\<open>--\<close> wrap modulo 256.\<close>

definition GetAppLockCounter :: "TableEntry \<Rightarrow> 8 word" where
  "GetAppLockCounter e = app_lock_counter e"

definition IncrAppLockCounter :: "TableEntry \<Rightarrow> TableEntry" where
  "IncrAppLockCounter e = e\<lparr>app_lock_counter := app_lock_counter e + 1\<rparr>"

definition DecrAppLockCounter :: "TableEntry \<Rightarrow> TableEntry" where
  "DecrAppLockCounter e = e\<lparr>app_lock_counter := app_lock_counter e - 1\<rparr>"

definition ZeroAppLockCounter :: "TableEntry \<Rightarrow> TableEntry" where
  "ZeroAppLockCounter e = e\<lparr>app_lock_counter := 0\<rparr>"

definition GetNumPages :: "TableEntry \<Rightarrow> 16 word" where
  "GetNumPages e = num_pages e"

definition SetNumPages :: "16 word \<Rightarrow> TableEntry \<Rightarrow> TableEntry" where
  "SetNumPages num e = e\<lparr>num_pages := num\<rparr>"

definition GetObjectAddress :: "TableEntry \<Rightarrow> 32 word" where
  "GetObjectAddress e = object_address e"

definition SetObjectAddress :: "32 word \<Rightarrow> TableEntry \<Rightarrow> TableEntry" where
  "SetObjectAddress obj e = e\<lparr>object_address := obj\<rparr>"

subsection \<open>The entry as shared memory\<close>

text \<open>
  An entry is shared between the application thread, whose code is modelled here, and
  the kernel-side swap-in path, whose code is not part of the runtime. The kernel side
  is a schedule: the operations it performs on the entry between two consecutive atomic
  accesses of the application thread. \<open>clock\<close> counts the atomic accesses made so far.
\<close>

datatype kernel_op =
    KSetKernelLock
  | KClearKernelLock
  | KSetResident
  | KClearResident
  | KSetObjectAddress "32 word"

fun kernel_step :: "kernel_op \<Rightarrow> TableEntry \<Rightarrow> TableEntry" where
  "kernel_step KSetKernelLock e = SetKernelLockBit e"
| "kernel_step KClearKernelLock e = ClearKernelLockBit e"
| "kernel_step KSetResident e = SetResidentBit e"
| "kernel_step KClearResident e = ClearResidentBit e"
| "kernel_step (KSetObjectAddress a) e = SetObjectAddress a e"

record SharedEntry =
  entry :: TableEntry
  kernel :: "nat \<Rightarrow> kernel_op list"
  clock :: nat

definition tick :: "SharedEntry \<Rightarrow> SharedEntry" where
  "tick s = s\<lparr>entry := fold kernel_step (kernel s (clock s)) (entry s), clock := Suc (clock s)\<rparr>"

text \<open>An atomic read-modify-write of the application thread: the kernel's pending
  operations take effect first, then the thread's own.\<close>

definition atomic_rmw :: "(TableEntry \<Rightarrow> TableEntry) \<Rightarrow> SharedEntry \<Rightarrow> SharedEntry" where
  "atomic_rmw f s = (let s' = tick s in s'\<lparr>entry := f (entry s')\<rparr>)"

text \<open>
  \<^verbatim>\<open>while (GetKernelLockBit()) { continue; }\<close>
  Each iteration is one atomic load. The loop has no exit but the bit being observed
  clear, so the model is a partial function: \<open>None\<close> is the loop that spins forever.
\<close>

partial_function (option) SpinWhileKernelLock :: "SharedEntry \<Rightarrow> SharedEntry option" where
  "SpinWhileKernelLock s =
     (let s' = tick s in
      if GetKernelLockBit (entry s') then SpinWhileKernelLock s' else Some s')"

definition LockFromAppThread :: "SharedEntry \<Rightarrow> SharedEntry option" where
  "LockFromAppThread s =
     do {
       s1 \<leftarrow> SpinWhileKernelLock s;
       let s2 = atomic_rmw IncrAppLockCounter s1;
       s3 \<leftarrow> SpinWhileKernelLock s2;
       Some (atomic_rmw IncrAppLockCounter s3)
     }"

definition UnlockFromAppThread :: "SharedEntry \<Rightarrow> SharedEntry" where
  "UnlockFromAppThread s = atomic_rmw DecrAppLockCounter s"

text \<open>\<open>n\<close> Lock/Unlock pairs in sequence on the same entry.\<close>

fun LockUnlockPairs :: "nat \<Rightarrow> SharedEntry \<Rightarrow> SharedEntry option" where
  "LockUnlockPairs 0 s = Some s"
| "LockUnlockPairs (Suc n) s =
     do {
       s1 \<leftarrow> LockFromAppThread s;
       LockUnlockPairs n (UnlockFromAppThread s1)
     }"


subsection \<open>Assumptions on the kernel side\<close>

text \<open>The kernel never sets (never clears) the kernel-lock bit from now on.\<close>

definition kernel_never_locks :: "SharedEntry \<Rightarrow> bool" where
  "kernel_never_locks s = (\<forall>t\<ge>clock s. KSetKernelLock \<notin> set (kernel s t))"

definition kernel_never_unlocks :: "SharedEntry \<Rightarrow> bool" where
  "kernel_never_unlocks s = (\<forall>t\<ge>clock s. KClearKernelLock \<notin> set (kernel s t))"

text \<open>Two concrete entries with an idle kernel: occupied and unlocked; occupied and
  kernel-locked.\<close>

definition idle_entry :: SharedEntry where
  "idle_entry =
     \<lparr>entry = \<lparr>bit_flags = 1, app_lock_counter = 0, num_pages = 3,
               object_address = 4096, stub_back_pointer = 0\<rparr>,
      kernel = (\<lambda>t. []), clock = 0\<rparr>"

definition stuck_entry :: SharedEntry where
  "stuck_entry =
     \<lparr>entry = \<lparr>bit_flags = 3, app_lock_counter = 0, num_pages = 3,
               object_address = 4096, stub_back_pointer = 0\<rparr>,
      kernel = (\<lambda>t. []), clock = 0\<rparr>"

section \<open>Objects, stubs and the heap\<close>

text \<open>
  An object address is a 32-bit value (\<^verbatim>\<open>object_address_\<close> is a \<^verbatim>\<open>uint32_t\<close>, heap
  references are compressed to 32 bits); a \<^verbatim>\<open>MemberOffset\<close> is read with
  \<^verbatim>\<open>Uint32Value()\<close>. The memory of an object is one cell per offset and access width:
  accesses of different widths are not related by the model. References are stored as
  32-bit cells, which is the memory the compare-and-swap operations address as
  \<^verbatim>\<open>Atomic<uint32_t>\<close>.
\<close>

text \<open>
  Modelled from the spec: the header flags of \<^verbatim>\<open>mirror::Object\<close> and the layout of
  \<^verbatim>\<open>niel::swap::Stub\<close> are declared in object.h and niel\_stub.h, which are not in the
  sources. "A field access on a heap object first consults a single header bit" (the stub
  flag); "a sticky no-swap flag"; the ignore-read flag and the read, write and dirty bits
  are the ones the accessors of object-inl.h test and set by name. A stub occupies "the
  original address of a swapped-out object" and holds "an association (back-pointer) to
  its TableEntry": the field \<open>table_entry\<close>, an index into the reclamation table.
\<close>

record Object =
  stub_flag :: bool
  no_swap_flag :: bool
  ignore_read_flag :: bool
  read_bit :: bool
  write_bit :: bool
  dirty_bit :: bool
  table_entry :: nat
  field8 :: "32 word \<Rightarrow> 8 word"
  field16 :: "32 word \<Rightarrow> 16 word"
  field32 :: "32 word \<Rightarrow> 32 word"
  field64 :: "32 word \<Rightarrow> 64 word"

text \<open>Calls to collaborators outside the accessors, in the order they are made.\<close>

datatype event =
    LockTableEntryCall "32 word"
  | SwapInOnDemandCall "32 word"
  | PopulateFromCall "32 word" "32 word"
  | UnlockTableEntryCall "32 word"
  | AssignReference "32 word" "32 word" "32 word"
  | RecordWriteFieldBoolean "32 word" "32 word" "8 word" bool
  | RecordWriteFieldByte "32 word" "32 word" "8 word" bool
  | RecordWriteFieldChar "32 word" "32 word" "16 word" bool
  | RecordWriteField32 "32 word" "32 word" "32 word" bool
  | RecordWriteField64 "32 word" "32 word" "64 word" bool
  | RecordWriteFieldReference "32 word" "32 word" "32 word" bool
  | WriteBarrierForFieldWrite "32 word" "32 word" "32 word"

text \<open>
  The heap: the objects by address, the reclamation table (each entry with the schedule
  of the kernel side for it), the secondary storage (for each table entry, the address at
  which its payload is mapped back and the evicted payload), what a stub carries of its
  payload (\<open>stub_image old payload\<close> is the contents that a stub with the contents
  \<open>old\<close> takes when it is refreshed from \<open>payload\<close>), and the calls made so far.
\<close>

record Heap =
  objects :: "32 word \<Rightarrow> Object"
  table :: "nat \<Rightarrow> SharedEntry"
  swap_file :: "nat \<Rightarrow> 32 word \<times> Object"
  stub_image :: "Object \<Rightarrow> Object \<Rightarrow> Object"
  trace :: "event list"

definition log :: "event \<Rightarrow> Heap \<Rightarrow> Heap" where
  "log ev h = h\<lparr>trace := trace h @ [ev]\<rparr>"

definition update_object :: "32 word \<Rightarrow> (Object \<Rightarrow> Object) \<Rightarrow> Heap \<Rightarrow> Heap" where
  "update_object a f h = h\<lparr>objects := (objects h)(a := f (objects h a))\<rparr>"

subsection \<open>Header flags (object.h)\<close>

text \<open>
  Modelled from the spec: \<^verbatim>\<open>GetStubFlag\<close>, \<^verbatim>\<open>GetIgnoreReadFlag\<close>, \<^verbatim>\<open>SetReadBit\<close>,
  \<^verbatim>\<open>SetWriteBit\<close>, \<^verbatim>\<open>SetDirtyBit\<close> and \<^verbatim>\<open>SetNoSwapFlag\<close> are methods of
  \<^verbatim>\<open>mirror::Object\<close> declared in object.h, which is not in the sources: each reads or
  sets the header flag it names. The no-swap flag is "sticky": nothing clears it.
\<close>

definition GetStubFlag :: "32 word \<Rightarrow> Heap \<Rightarrow> bool" where
  "GetStubFlag this h = stub_flag (objects h this)"

definition GetIgnoreReadFlag :: "32 word \<Rightarrow> Heap \<Rightarrow> bool" where
  "GetIgnoreReadFlag this h = ignore_read_flag (objects h this)"

definition SetReadBit :: "32 word \<Rightarrow> Heap \<Rightarrow> Heap" where
  "SetReadBit this h = update_object this (\<lambda>ob. ob\<lparr>read_bit := True\<rparr>) h"

definition SetWriteBit :: "32 word \<Rightarrow> Heap \<Rightarrow> Heap" where
  "SetWriteBit this h = update_object this (\<lambda>ob. ob\<lparr>write_bit := True\<rparr>) h"

definition SetDirtyBit :: "32 word \<Rightarrow> Heap \<Rightarrow> Heap" where
  "SetDirtyBit this h = update_object this (\<lambda>ob. ob\<lparr>dirty_bit := True\<rparr>) h"

definition SetNoSwapFlag :: "32 word \<Rightarrow> Heap \<Rightarrow> Heap" where
  "SetNoSwapFlag this h = update_object this (\<lambda>ob. ob\<lparr>no_swap_flag := True\<rparr>) h"

subsection \<open>The stub and the swap-in (niel\_swap.h, niel\_stub.h)\<close>

text \<open>
  Modelled from the spec: the methods of \<^verbatim>\<open>niel::swap::Stub\<close> and the function
  \<^verbatim>\<open>niel::swap::SwapInOnDemand\<close> are not in the sources; object-inl.h calls them by
  name. From section 4.3 of the spec:
  "1. Resolve the TableEntry associated with the stub. 2. Acquire the entry via the
  locking handshake. 3. If resident is false, perform the swap-in: repopulate the payload
  from secondary storage and set resident=true. 4. Forward the original field operation
  to the now-resident payload at object\_address. 5. Refresh the stub's own cached state
  from the resident payload. 6. Release the handshake."
  Which part of the payload's state a stub carries is decided by niel\_stub.h; the spec
  names only "header-adjacent data". The refresh is therefore the function \<open>stub_image\<close>
  of the heap, about which nothing is assumed; the stub stays a stub of the same entry.
  The accesses to the entry's flags are atomic accesses of the application thread.
\<close>

definition Stub_GetTableEntry :: "32 word \<Rightarrow> Heap \<Rightarrow> nat" where
  "Stub_GetTableEntry stub h = table_entry (objects h stub)"

definition Stub_LockTableEntry :: "32 word \<Rightarrow> Heap \<Rightarrow> Heap option" where
  "Stub_LockTableEntry stub h =
     (let k = Stub_GetTableEntry stub h in
      do {
        e \<leftarrow> LockFromAppThread (table h k);
        Some (log (LockTableEntryCall stub) (h\<lparr>table := (table h)(k := e)\<rparr>))
      })"

definition Stub_UnlockTableEntry :: "32 word \<Rightarrow> Heap \<Rightarrow> Heap" where
  "Stub_UnlockTableEntry stub h =
     (let k = Stub_GetTableEntry stub h in
      log (UnlockTableEntryCall stub)
        (h\<lparr>table := (table h)(k := UnlockFromAppThread (table h k))\<rparr>))"

definition Stub_GetObjectAddress :: "32 word \<Rightarrow> Heap \<Rightarrow> 32 word" where
  "Stub_GetObjectAddress stub h = GetObjectAddress (entry (table h (Stub_GetTableEntry stub h)))"

definition Stub_PopulateFrom :: "32 word \<Rightarrow> 32 word \<Rightarrow> Heap \<Rightarrow> Heap" where
  "Stub_PopulateFrom stub obj h =
     (let k = Stub_GetTableEntry stub h in
      log (PopulateFromCall stub obj)
        (h\<lparr>objects := (objects h)
             (stub := (stub_image h (objects h stub) (objects h obj))
                        \<lparr>stub_flag := True, table_entry := k\<rparr>)\<rparr>))"

definition SwapInOnDemand :: "32 word \<Rightarrow> Heap \<Rightarrow> Heap" where
  "SwapInOnDemand stub h =
     (let k = Stub_GetTableEntry stub h;
          (a, payload) = swap_file h k
      in log (SwapInOnDemandCall stub)
           (h\<lparr>objects := (objects h)(a := payload),
              table := (table h)(k := atomic_rmw (SetResidentBit \<circ> SetObjectAddress a) (table h k))\<rparr>))"

text \<open>
  \<^verbatim>\<open>stub->GetTableEntry()->GetResidentBit()\<close>: an atomic load of the flags byte.
\<close>

definition Stub_LoadResidentBit :: "32 word \<Rightarrow> Heap \<Rightarrow> bool \<times> Heap" where
  "Stub_LoadResidentBit stub h =
     (let k = Stub_GetTableEntry stub h;
          e = tick (table h k)
      in (GetResidentBit (entry e), h\<lparr>table := (table h)(k := e)\<rparr>))"

text \<open>
  Modelled from the spec: the macros \<^verbatim>\<open>SWAP_PREAMBLE_TEMPLATE\<close> and
  \<^verbatim>\<open>SWAP_PREAMBLE_TEMPLATE_VOID\<close> are defined in niel\_swap.h. Their expansion is
  the sequence that SetFieldObjectWithoutWriteBarrier has written out in object-inl.h,
  with the forwarded call being the function named by the macro's first argument:
  \<^verbatim>\<open>if (UNLIKELY(GetStubFlag())) { stub->LockTableEntry(); if (!resident) SwapInOnDemand(stub);\<close>
  \<^verbatim>\<open>r = ((Object *)(stub->GetObjectAddress()))->f(args); stub->PopulateFrom(stub->GetObjectAddress());\<close>
  \<^verbatim>\<open>stub->UnlockTableEntry(); return r; }\<close>
  \<open>SwapPreambleEnter\<close> is the part before the forwarded call, \<open>SwapPreambleExit\<close> the
  part after it.
\<close>

definition SwapPreambleEnter :: "32 word \<Rightarrow> Heap \<Rightarrow> Heap option" where
  "SwapPreambleEnter stub h =
     do {
       h1 \<leftarrow> Stub_LockTableEntry stub h;
       let (resident, h2) = Stub_LoadResidentBit stub h1;
       Some (if \<not> resident then SwapInOnDemand stub h2 else h2)
     }"

definition SwapPreambleExit :: "32 word \<Rightarrow> Heap \<Rightarrow> Heap" where
  "SwapPreambleExit stub h =
     Stub_UnlockTableEntry stub (Stub_PopulateFrom stub (Stub_GetObjectAddress stub h) h)"


subsection \<open>Raw field access (object.h)\<close>

text \<open>
  Modelled from the spec: \<^verbatim>\<open>GetFieldPrimitive<T, kIsVolatile>\<close> and
  \<^verbatim>\<open>SetFieldPrimitive<T, kIsVolatile>\<close> are declared in object.h, which is not in the
  sources. They are the "primitive field get/set (all widths, plain and volatile)" on the
  direct path: the load and the store at \<^verbatim>\<open>this + field_offset\<close>, as GetFieldAcquire
  of object-inl.h does them, for each width.
\<close>

definition GetFieldPrimitive8 :: "32 word \<Rightarrow> 32 word \<Rightarrow> Heap \<Rightarrow> 8 word" where
  "GetFieldPrimitive8 this field_offset h = field8 (objects h this) field_offset"

definition SetFieldPrimitive8 :: "32 word \<Rightarrow> 32 word \<Rightarrow> 8 word \<Rightarrow> Heap \<Rightarrow> Heap" where
  "SetFieldPrimitive8 this field_offset new_value h =
     update_object this (\<lambda>ob. ob\<lparr>field8 := (field8 ob)(field_offset := new_value)\<rparr>) h"

definition GetFieldPrimitive16 :: "32 word \<Rightarrow> 32 word \<Rightarrow> Heap \<Rightarrow> 16 word" where
  "GetFieldPrimitive16 this field_offset h = field16 (objects h this) field_offset"

definition SetFieldPrimitive16 :: "32 word \<Rightarrow> 32 word \<Rightarrow> 16 word \<Rightarrow> Heap \<Rightarrow> Heap" where
  "SetFieldPrimitive16 this field_offset new_value h =
     update_object this (\<lambda>ob. ob\<lparr>field16 := (field16 ob)(field_offset := new_value)\<rparr>) h"

definition GetFieldPrimitive32 :: "32 word \<Rightarrow> 32 word \<Rightarrow> Heap \<Rightarrow> 32 word" where
  "GetFieldPrimitive32 this field_offset h = field32 (objects h this) field_offset"

definition SetFieldPrimitive32 :: "32 word \<Rightarrow> 32 word \<Rightarrow> 32 word \<Rightarrow> Heap \<Rightarrow> Heap" where
  "SetFieldPrimitive32 this field_offset new_value h =
     update_object this (\<lambda>ob. ob\<lparr>field32 := (field32 ob)(field_offset := new_value)\<rparr>) h"

definition GetFieldPrimitive64 :: "32 word \<Rightarrow> 32 word \<Rightarrow> Heap \<Rightarrow> 64 word" where
  "GetFieldPrimitive64 this field_offset h = field64 (objects h this) field_offset"

definition SetFieldPrimitive64 :: "32 word \<Rightarrow> 32 word \<Rightarrow> 64 word \<Rightarrow> Heap \<Rightarrow> Heap" where
  "SetFieldPrimitive64 this field_offset new_value h =
     update_object this (\<lambda>ob. ob\<lparr>field64 := (field64 ob)(field_offset := new_value)\<rparr>) h"

subsection \<open>Field accessors (object-inl.h)\<close>

text \<open>
  Each accessor takes \<open>sizeof_Object\<close>, the value of \<^verbatim>\<open>sizeof(Object)\<close> (object.h), as
  its first argument after the template arguments, then \<open>this\<close>, the arguments of the
  C++ method, and the heap. The template arguments \<open>kTransactionActive\<close> and
  \<open>kIsVolatile\<close> are arguments; \<^verbatim>\<open>Verify\<close>, \<^verbatim>\<open>VerifyTransaction\<close>,
  \<^verbatim>\<open>VerifyRead\<close>, \<^verbatim>\<open>VerifyWrite\<close> and \<^verbatim>\<open>VerifyCAS\<close> are debug checks without
  effect on the heap and have no counterpart. An accessor returns \<open>None\<close> when the
  handshake it enters never returns. The getters of object.h that the transaction branch
  of a setter calls (\<^verbatim>\<open>GetFieldBoolean\<close>, \<^verbatim>\<open>GetField32\<close>, \<^verbatim>\<open>GetField64\<close>) are
  arguments of that setter.
\<close>

partial_function (option) GetFieldByte ::
  "nat \<Rightarrow> 32 word \<Rightarrow> 32 word \<Rightarrow> Heap \<Rightarrow> (8 word \<times> Heap) option" where
  "GetFieldByte sizeof_Object this field_offset h =
     (if sizeof_Object \<le> unat field_offset \<and> GetStubFlag this h then
        do {
          h1 \<leftarrow> SwapPreambleEnter this h;
          (result, h2) \<leftarrow> GetFieldByte sizeof_Object (Stub_GetObjectAddress this h1) field_offset h1;
          Some (result, SwapPreambleExit this h2)
        }
      else Some (GetFieldPrimitive8 this field_offset h, h))"

partial_function (option) SetFieldBoolean ::
  "(32 word \<Rightarrow> 32 word \<Rightarrow> Heap \<Rightarrow> (8 word \<times> Heap) option) \<Rightarrow> bool \<Rightarrow> bool \<Rightarrow> nat \<Rightarrow> 32 word \<Rightarrow> 32 word \<Rightarrow> 8 word \<Rightarrow> Heap \<Rightarrow> Heap option" where
  "SetFieldBoolean GetFieldBoolean kTransactionActive kIsVolatile sizeof_Object this field_offset new_value h =
     (if sizeof_Object \<le> unat field_offset \<and> GetStubFlag this h then
        do {
          h1 \<leftarrow> SwapPreambleEnter this h;
          h2 \<leftarrow> SetFieldBoolean GetFieldBoolean kTransactionActive kIsVolatile sizeof_Object
                  (Stub_GetObjectAddress this h1) field_offset new_value h1;
          Some (SwapPreambleExit this h2)
        }
      else
        do {
          h1 \<leftarrow> (if kTransactionActive then
                   do {
                     (old_value, h') \<leftarrow> GetFieldBoolean this field_offset h;
                     Some (log (RecordWriteFieldBoolean this field_offset old_value kIsVolatile) h')
                   }
                 else Some h);
          Some (SetFieldPrimitive8 this field_offset new_value h1)
        })"

partial_function (option) SetFieldByte ::
  "bool \<Rightarrow> bool \<Rightarrow> nat \<Rightarrow> 32 word \<Rightarrow> 32 word \<Rightarrow> 8 word \<Rightarrow> Heap \<Rightarrow> Heap option" where
  "SetFieldByte kTransactionActive kIsVolatile sizeof_Object this field_offset new_value h =
     (if sizeof_Object \<le> unat field_offset \<and> GetStubFlag this h then
        do {
          h1 \<leftarrow> SwapPreambleEnter this h;
          h2 \<leftarrow> SetFieldByte kTransactionActive kIsVolatile sizeof_Object
                  (Stub_GetObjectAddress this h1) field_offset new_value h1;
          Some (SwapPreambleExit this h2)
        }
      else
        do {
          h1 \<leftarrow> (if kTransactionActive then
                   do {
                     (old_value, h') \<leftarrow> GetFieldByte sizeof_Object this field_offset h;
                     Some (log (RecordWriteFieldByte this field_offset old_value kIsVolatile) h')
                   }
                 else Some h);
          Some (SetFieldPrimitive8 this field_offset new_value h1)
        })"

partial_function (option) GetFieldChar ::
  "nat \<Rightarrow> 32 word \<Rightarrow> 32 word \<Rightarrow> Heap \<Rightarrow> (16 word \<times> Heap) option" where
  "GetFieldChar sizeof_Object this field_offset h =
     (if sizeof_Object \<le> unat field_offset \<and> GetStubFlag this h then
        do {
          h1 \<leftarrow> SwapPreambleEnter this h;
          (result, h2) \<leftarrow> GetFieldChar sizeof_Object (Stub_GetObjectAddress this h1) field_offset h1;
          Some (result, SwapPreambleExit this h2)
        }
      else Some (GetFieldPrimitive16 this field_offset h, h))"

partial_function (option) GetFieldShort ::
  "nat \<Rightarrow> 32 word \<Rightarrow> 32 word \<Rightarrow> Heap \<Rightarrow> (16 word \<times> Heap) option" where
  "GetFieldShort sizeof_Object this field_offset h =
     (if sizeof_Object \<le> unat field_offset \<and> GetStubFlag this h then
        do {
          h1 \<leftarrow> SwapPreambleEnter this h;
          (result, h2) \<leftarrow> GetFieldShort sizeof_Object (Stub_GetObjectAddress this h1) field_offset h1;
          Some (result, SwapPreambleExit this h2)
        }
      else Some (GetFieldPrimitive16 this field_offset h, h))"

partial_function (option) SetFieldChar ::
  "bool \<Rightarrow> bool \<Rightarrow> nat \<Rightarrow> 32 word \<Rightarrow> 32 word \<Rightarrow> 16 word \<Rightarrow> Heap \<Rightarrow> Heap option" where
  "SetFieldChar kTransactionActive kIsVolatile sizeof_Object this field_offset new_value h =
     (if sizeof_Object \<le> unat field_offset \<and> GetStubFlag this h then
        do {
          h1 \<leftarrow> SwapPreambleEnter this h;
          h2 \<leftarrow> SetFieldChar kTransactionActive kIsVolatile sizeof_Object
                  (Stub_GetObjectAddress this h1) field_offset new_value h1;
          Some (SwapPreambleExit this h2)
        }
      else
        do {
          h1 \<leftarrow> (if kTransactionActive then
                   do {
                     (old_value, h') \<leftarrow> GetFieldChar sizeof_Object this field_offset h;
                     Some (log (RecordWriteFieldChar this field_offset old_value kIsVolatile) h')
                   }
                 else Some h);
          Some (SetFieldPrimitive16 this field_offset new_value h1)
        })"

text \<open>SetFieldShort records the old value with \<^verbatim>\<open>RecordWriteFieldChar\<close>, as the source does.\<close>

partial_function (option) SetFieldShort ::
  "bool \<Rightarrow> bool \<Rightarrow> nat \<Rightarrow> 32 word \<Rightarrow> 32 word \<Rightarrow> 16 word \<Rightarrow> Heap \<Rightarrow> Heap option" where
  "SetFieldShort kTransactionActive kIsVolatile sizeof_Object this field_offset new_value h =
     (if sizeof_Object \<le> unat field_offset \<and> GetStubFlag this h then
        do {
          h1 \<leftarrow> SwapPreambleEnter this h;
          h2 \<leftarrow> SetFieldShort kTransactionActive kIsVolatile sizeof_Object
                  (Stub_GetObjectAddress this h1) field_offset new_value h1;
          Some (SwapPreambleExit this h2)
        }
      else
        do {
          h1 \<leftarrow> (if kTransactionActive then
                   do {
                     (old_value, h') \<leftarrow> GetFieldShort sizeof_Object this field_offset h;
                     Some (log (RecordWriteFieldChar this field_offset old_value kIsVolatile) h')
                   }
                 else Some h);
          Some (SetFieldPrimitive16 this field_offset new_value h1)
        })"

partial_function (option) SetField32 ::
  "(32 word \<Rightarrow> 32 word \<Rightarrow> Heap \<Rightarrow> (32 word \<times> Heap) option) \<Rightarrow> bool \<Rightarrow> bool \<Rightarrow> nat \<Rightarrow> 32 word \<Rightarrow> 32 word \<Rightarrow> 32 word \<Rightarrow> Heap \<Rightarrow> Heap option" where
  "SetField32 GetField32 kTransactionActive kIsVolatile sizeof_Object this field_offset new_value h =
     (if sizeof_Object \<le> unat field_offset \<and> GetStubFlag this h then
        do {
          h1 \<leftarrow> SwapPreambleEnter this h;
          h2 \<leftarrow> SetField32 GetField32 kTransactionActive kIsVolatile sizeof_Object
                  (Stub_GetObjectAddress this h1) field_offset new_value h1;
          Some (SwapPreambleExit this h2)
        }
      else
        do {
          h1 \<leftarrow> (if kTransactionActive then
                   do {
                     (old_value, h') \<leftarrow> GetField32 this field_offset h;
                     Some (log (RecordWriteField32 this field_offset old_value kIsVolatile) h')
                   }
                 else Some h);
          Some (SetFieldPrimitive32 this field_offset new_value h1)
        })"

partial_function (option) SetField64 ::
  "(32 word \<Rightarrow> 32 word \<Rightarrow> Heap \<Rightarrow> (64 word \<times> Heap) option) \<Rightarrow> bool \<Rightarrow> bool \<Rightarrow> nat \<Rightarrow> 32 word \<Rightarrow> 32 word \<Rightarrow> 64 word \<Rightarrow> Heap \<Rightarrow> Heap option" where
  "SetField64 GetField64 kTransactionActive kIsVolatile sizeof_Object this field_offset new_value h =
     (if sizeof_Object \<le> unat field_offset \<and> GetStubFlag this h then
        do {
          h1 \<leftarrow> SwapPreambleEnter this h;
          h2 \<leftarrow> SetField64 GetField64 kTransactionActive kIsVolatile sizeof_Object
                  (Stub_GetObjectAddress this h1) field_offset new_value h1;
          Some (SwapPreambleExit this h2)
        }
      else
        do {
          h1 \<leftarrow> (if kTransactionActive then
                   do {
                     (old_value, h') \<leftarrow> GetField64 this field_offset h;
                     Some (log (RecordWriteField64 this field_offset old_value kIsVolatile) h')
                   }
                 else Some h);
          Some (SetFieldPrimitive64 this field_offset new_value h1)
        })"

text \<open>
  SetField64Volatile carries the preamble itself and then calls
  \<^verbatim>\<open>SetField64<kTransactionActive, kCheckTransaction, kVerifyFlags, true>\<close>.
\<close>

partial_function (option) SetField64Volatile ::
  "(32 word \<Rightarrow> 32 word \<Rightarrow> Heap \<Rightarrow> (64 word \<times> Heap) option) \<Rightarrow> bool \<Rightarrow> nat \<Rightarrow> 32 word \<Rightarrow> 32 word \<Rightarrow> 64 word \<Rightarrow> Heap \<Rightarrow> Heap option" where
  "SetField64Volatile GetField64 kTransactionActive sizeof_Object this field_offset new_value h =
     (if sizeof_Object \<le> unat field_offset \<and> GetStubFlag this h then
        do {
          h1 \<leftarrow> SwapPreambleEnter this h;
          h2 \<leftarrow> SetField64Volatile GetField64 kTransactionActive sizeof_Object
                  (Stub_GetObjectAddress this h1) field_offset new_value h1;
          Some (SwapPreambleExit this h2)
        }
      else SetField64 GetField64 kTransactionActive True sizeof_Object this field_offset new_value h)"

text \<open>
  The 64-bit compare-and-set. \<^verbatim>\<open>CompareAndSetWeakSequentiallyConsistent\<close> may fail
  spuriously: \<open>spurious\<close> says whether this attempt does.
\<close>

definition CompareAndSet64 ::
  "bool \<Rightarrow> 32 word \<Rightarrow> 32 word \<Rightarrow> 64 word \<Rightarrow> 64 word \<Rightarrow> Heap \<Rightarrow> bool \<times> Heap" where
  "CompareAndSet64 spurious this field_offset old_value new_value h =
     (if GetFieldPrimitive64 this field_offset h = old_value \<and> \<not> spurious
      then (True, SetFieldPrimitive64 this field_offset new_value h)
      else (False, h))"

partial_function (option) CasFieldWeakSequentiallyConsistent64 ::
  "bool \<Rightarrow> bool \<Rightarrow> nat \<Rightarrow> 32 word \<Rightarrow> 32 word \<Rightarrow> 64 word \<Rightarrow> 64 word \<Rightarrow> Heap \<Rightarrow> (bool \<times> Heap) option" where
  "CasFieldWeakSequentiallyConsistent64 spurious kTransactionActive sizeof_Object this field_offset
       old_value new_value h =
     (if sizeof_Object \<le> unat field_offset \<and> GetStubFlag this h then
        do {
          h1 \<leftarrow> SwapPreambleEnter this h;
          (result, h2) \<leftarrow> CasFieldWeakSequentiallyConsistent64 spurious kTransactionActive
                  sizeof_Object (Stub_GetObjectAddress this h1) field_offset old_value new_value h1;
          Some (result, SwapPreambleExit this h2)
        }
      else
        (let h1 = (if kTransactionActive
                   then log (RecordWriteField64 this field_offset old_value True) h else h)
         in Some (CompareAndSet64 spurious this field_offset old_value new_value h1)))"

partial_function (option) CasFieldStrongSequentiallyConsistent64 ::
  "bool \<Rightarrow> nat \<Rightarrow> 32 word \<Rightarrow> 32 word \<Rightarrow> 64 word \<Rightarrow> 64 word \<Rightarrow> Heap \<Rightarrow> (bool \<times> Heap) option" where
  "CasFieldStrongSequentiallyConsistent64 kTransactionActive sizeof_Object this field_offset
       old_value new_value h =
     (if sizeof_Object \<le> unat field_offset \<and> GetStubFlag this h then
        do {
          h1 \<leftarrow> SwapPreambleEnter this h;
          (result, h2) \<leftarrow> CasFieldStrongSequentiallyConsistent64 kTransactionActive
                  sizeof_Object (Stub_GetObjectAddress this h1) field_offset old_value new_value h1;
          Some (result, SwapPreambleExit this h2)
        }
      else
        (let h1 = (if kTransactionActive
                   then log (RecordWriteField64 this field_offset old_value True) h else h)
         in Some (CompareAndSet64 False this field_offset old_value new_value h1)))"

subsection \<open>Reference fields\<close>

text \<open>
  GetFieldObject. After the preamble: \<^verbatim>\<open>if (!GetIgnoreReadFlag()) { SetReadBit(); }\<close>, then
  the load through \<^verbatim>\<open>ReadBarrier::Barrier\<close>, which is the load of the reference (the
  collector's barrier is outside the accessor). The result is the compressed reference.
\<close>

partial_function (option) GetFieldObject ::
  "nat \<Rightarrow> 32 word \<Rightarrow> 32 word \<Rightarrow> Heap \<Rightarrow> (32 word \<times> Heap) option" where
  "GetFieldObject sizeof_Object this field_offset h =
     (if sizeof_Object \<le> unat field_offset \<and> GetStubFlag this h then
        do {
          h1 \<leftarrow> SwapPreambleEnter this h;
          (result, h2) \<leftarrow> GetFieldObject sizeof_Object (Stub_GetObjectAddress this h1) field_offset h1;
          Some (result, SwapPreambleExit this h2)
        }
      else
        (let h1 = (if \<not> GetIgnoreReadFlag this h then SetReadBit this h else h)
         in Some (GetFieldPrimitive32 this field_offset h1, h1)))"

definition GetFieldObjectVolatile ::
  "nat \<Rightarrow> 32 word \<Rightarrow> 32 word \<Rightarrow> Heap \<Rightarrow> (32 word \<times> Heap) option" where
  "GetFieldObjectVolatile sizeof_Object this field_offset h =
     GetFieldObject sizeof_Object this field_offset h"

text \<open>
  SetFieldObjectWithoutWriteBarrier has the protocol written out, without a test of the
  offset:
  \<^verbatim>\<open>if (UNLIKELY(GetStubFlag())) {\<close>
  \<^verbatim>\<open>  stub->LockTableEntry();\<close>
  \<^verbatim>\<open>  if (UNLIKELY(!stub->GetTableEntry()->GetResidentBit())) { niel::swap::SwapInOnDemand(stub); }\<close>
  \<^verbatim>\<open>  ((Object *)(stub->GetObjectAddress()))->SetFieldObjectWithoutWriteBarrier<...>(field_offset, new_value);\<close>
  \<^verbatim>\<open>  stub->PopulateFrom(stub->GetObjectAddress());\<close>
  \<^verbatim>\<open>  stub->UnlockTableEntry();\<close>
  \<^verbatim>\<open>  return; }\<close>
\<close>

partial_function (option) SetFieldObjectWithoutWriteBarrier ::
  "bool \<Rightarrow> bool \<Rightarrow> nat \<Rightarrow> 32 word \<Rightarrow> 32 word \<Rightarrow> 32 word \<Rightarrow> Heap \<Rightarrow> Heap option" where
  "SetFieldObjectWithoutWriteBarrier kTransactionActive kIsVolatile sizeof_Object this field_offset
       new_value h =
     (if GetStubFlag this h then
        do {
          h1 \<leftarrow> Stub_LockTableEntry this h;
          let (resident, h2) = Stub_LoadResidentBit this h1;
          let h3 = (if \<not> resident then SwapInOnDemand this h2 else h2);
          h4 \<leftarrow> SetFieldObjectWithoutWriteBarrier kTransactionActive kIsVolatile sizeof_Object
                  (Stub_GetObjectAddress this h3) field_offset new_value h3;
          let h5 = Stub_PopulateFrom this (Stub_GetObjectAddress this h4) h4;
          Some (Stub_UnlockTableEntry this h5)
        }
      else
        do {
          h1 \<leftarrow> (if kTransactionActive then
                   do {
                     (obj, h') \<leftarrow> (if kIsVolatile
                                  then GetFieldObjectVolatile sizeof_Object this field_offset h
                                  else GetFieldObject sizeof_Object this field_offset h);
                     Some (log (RecordWriteFieldReference this field_offset obj True) h')
                   }
                 else Some h);
          let h2 = log (AssignReference this field_offset new_value)
                     (SetFieldPrimitive32 this field_offset new_value h1);
          Some (SetDirtyBit this (SetWriteBit this h2))
        })"

text \<open>
  GetFieldObjectReferenceAddr returns the address of the field: the object and the
  offset.
\<close>

partial_function (option) GetFieldObjectReferenceAddr ::
  "nat \<Rightarrow> 32 word \<Rightarrow> 32 word \<Rightarrow> Heap \<Rightarrow> ((32 word \<times> 32 word) \<times> Heap) option" where
  "GetFieldObjectReferenceAddr sizeof_Object this field_offset h =
     (if sizeof_Object \<le> unat field_offset \<and> GetStubFlag this h then
        do {
          h1 \<leftarrow> SwapPreambleEnter this h;
          (result, h2) \<leftarrow> GetFieldObjectReferenceAddr sizeof_Object
                  (Stub_GetObjectAddress this h1) field_offset h1;
          Some (result, SwapPreambleExit this h2)
        }
      else Some ((this, field_offset), h))"

text \<open>
  The compare-and-swap and exchange operations on reference fields. They address the
  field of \<open>this\<close> as an \<^verbatim>\<open>Atomic<uint32_t>\<close>; the source has no preamble in them.
  \<^verbatim>\<open>PtrCompression<kPoisonHeapReferences, Object>::Compress\<close> is the identity on the
  32-bit reference (heap poisoning off). \<open>spurious\<close> is the spurious failure that
  \<^verbatim>\<open>CASMode::kWeak\<close> allows.
\<close>

datatype CASMode = kStrong | kWeak

definition CasFieldObjectWithoutWriteBarrier ::
  "bool \<Rightarrow> bool \<Rightarrow> 32 word \<Rightarrow> 32 word \<Rightarrow> 32 word \<Rightarrow> 32 word \<Rightarrow> CASMode \<Rightarrow> Heap \<Rightarrow> bool \<times> Heap" where
  "CasFieldObjectWithoutWriteBarrier spurious kTransactionActive this field_offset old_value
       new_value mode h =
     (let h1 = (if kTransactionActive
                then log (RecordWriteFieldReference this field_offset old_value True) h else h)
      in if GetFieldPrimitive32 this field_offset h1 = old_value \<and> \<not> (mode = kWeak \<and> spurious)
         then (True, SetFieldPrimitive32 this field_offset new_value h1)
         else (False, h1))"

definition CasFieldObject ::
  "bool \<Rightarrow> bool \<Rightarrow> 32 word \<Rightarrow> 32 word \<Rightarrow> 32 word \<Rightarrow> 32 word \<Rightarrow> CASMode \<Rightarrow> Heap \<Rightarrow> bool \<times> Heap" where
  "CasFieldObject spurious kTransactionActive this field_offset old_value new_value mode h =
     (let (success, h1) = CasFieldObjectWithoutWriteBarrier spurious kTransactionActive this
                            field_offset old_value new_value mode h
      in if success then (success, log (WriteBarrierForFieldWrite this field_offset new_value) h1)
         else (success, h1))"

definition CompareAndExchangeFieldObject ::
  "bool \<Rightarrow> 32 word \<Rightarrow> 32 word \<Rightarrow> 32 word \<Rightarrow> 32 word \<Rightarrow> Heap \<Rightarrow> 32 word \<times> Heap" where
  "CompareAndExchangeFieldObject kTransactionActive this field_offset old_value new_value h =
     (let witness_value = GetFieldPrimitive32 this field_offset h;
          success = (witness_value = old_value);
          h1 = (if success then SetFieldPrimitive32 this field_offset new_value h else h);
          h2 = (if success then
                  log (WriteBarrierForFieldWrite this field_offset new_value)
                    (if kTransactionActive
                     then log (RecordWriteFieldReference this field_offset witness_value True) h1
                     else h1)
                else h1)
      in (witness_value, h2))"

definition ExchangeFieldObject ::
  "bool \<Rightarrow> 32 word \<Rightarrow> 32 word \<Rightarrow> 32 word \<Rightarrow> Heap \<Rightarrow> 32 word \<times> Heap" where
  "ExchangeFieldObject kTransactionActive this field_offset new_value h =
     (let old_value = GetFieldPrimitive32 this field_offset h;
          h1 = SetFieldPrimitive32 this field_offset new_value h;
          h2 = (if kTransactionActive
                then log (RecordWriteFieldReference this field_offset old_value True) h1 else h1)
      in (old_value, log (WriteBarrierForFieldWrite this field_offset new_value) h2))"

subsection \<open>The payload of a stub and the kernel side\<close>

text \<open>
  The object that a forwarded access reaches, for the entry \<open>e\<close> as the accessor finds
  it when it loads the resident bit after the handshake: with the bit set, the object at
  the entry's object address; with the bit clear, the evicted payload, which the swap-in
  maps back at the address that it stores as the entry's object address.
\<close>

definition payload_address_at :: "TableEntry \<Rightarrow> nat \<Rightarrow> Heap \<Rightarrow> 32 word" where
  "payload_address_at e k h =
     (if GetResidentBit e then GetObjectAddress e else fst (swap_file h k))"

definition payload_object_at :: "TableEntry \<Rightarrow> nat \<Rightarrow> Heap \<Rightarrow> Object" where
  "payload_object_at e k h =
     (if GetResidentBit e then objects h (GetObjectAddress e) else snd (swap_file h k))"

text \<open>
  The entry with which the accessor goes on after that load: as loaded, or as the swap-in
  leaves it.
\<close>

definition entry_after_load :: "SharedEntry \<Rightarrow> nat \<Rightarrow> Heap \<Rightarrow> SharedEntry" where
  "entry_after_load s k h =
     (if GetResidentBit (entry s) then s
      else atomic_rmw (SetResidentBit \<circ> SetObjectAddress (fst (swap_file h k))) s)"

text \<open>
  Two descriptions of the kernel side of an entry, from now on. It only contends for the
  lock: it sets and clears the kernel-lock bit, and neither evicts nor moves the payload.
  It releases the lock: whenever the application thread looks, there is a later look that
  finds the kernel-lock bit clear (\<open>kernel_lock_at s n\<close> is the bit as the \<open>n\<close>-th
  atomic access from now finds it; the application thread does not write the bit).
\<close>

definition kernel_only_contends :: "SharedEntry \<Rightarrow> bool" where
  "kernel_only_contends s =
     (\<forall>t\<ge>clock s. set (kernel s t) \<subseteq> {KSetKernelLock, KClearKernelLock})"

definition kernel_lock_at :: "SharedEntry \<Rightarrow> nat \<Rightarrow> bool" where
  "kernel_lock_at s n = GetKernelLockBit (entry ((tick ^^ n) s))"

definition kernel_releases :: "SharedEntry \<Rightarrow> bool" where
  "kernel_releases s = (\<forall>n. \<exists>m\<ge>n. \<not> kernel_lock_at s (Suc m))"

text \<open>The object that a plain (non-stub) object becomes by the write.\<close>

definition written_object :: "bool \<Rightarrow> 32 word \<Rightarrow> 32 word \<Rightarrow> Object \<Rightarrow> Object" where
  "written_object kTransactionActive field_offset new_value ob =
     (if kTransactionActive \<and> \<not> ignore_read_flag ob then ob\<lparr>read_bit := True\<rparr> else ob)
       \<lparr>field32 := (field32 ob)(field_offset := new_value), write_bit := True, dirty_bit := True\<rparr>"

text \<open>The object that a plain object becomes by the read of a reference.\<close>

definition read_object :: "Object \<Rightarrow> Object" where
  "read_object ob = (if ignore_read_flag ob then ob else ob\<lparr>read_bit := True\<rparr>)"

subsection \<open>Example heaps\<close>

definition blank_object :: Object where
  "blank_object =
     \<lparr>stub_flag = False, no_swap_flag = False, ignore_read_flag = False, read_bit = False,
      write_bit = False, dirty_bit = False, table_entry = 0,
      field8 = (\<lambda>off. 0), field16 = (\<lambda>off. 0), field32 = (\<lambda>off. 0), field64 = (\<lambda>off. 0)\<rparr>"

text \<open>A stub that carries the flags and the first eight bytes of its payload, and keeps
  what it holds beyond them.\<close>

definition header_image :: "Object \<Rightarrow> Object \<Rightarrow> Object" where
  "header_image old payload =
     payload\<lparr>field8 := (\<lambda>off. if off < 8 then field8 payload off else field8 old off),
             field16 := (\<lambda>off. if off < 8 then field16 payload off else field16 old off),
             field32 := (\<lambda>off. if off < 8 then field32 payload off else field32 old off),
             field64 := (\<lambda>off. if off < 8 then field64 payload off else field64 old off)\<rparr>"

text \<open>A stub at 0x5000 for table entry 7, whose payload is evicted and is mapped back at
  0x6000, with a kernel side that does nothing.\<close>

definition example_heap :: Heap where
  "example_heap =
     \<lparr>objects = (\<lambda>a. blank_object)(0x5000 := blank_object\<lparr>stub_flag := True, table_entry := 7\<rparr>),
      table = (\<lambda>k. idle_entry),
      swap_file = (\<lambda>k. (0x6000, blank_object\<lparr>field32 := (\<lambda>off. 0)(12 := 0xAAAA)\<rparr>)),
      stub_image = header_image,
      trace = []\<rparr>"

text \<open>
  The same stub while the kernel side swaps its payload in: the entry is kernel-locked
  and not resident when the call starts; during the handshake the kernel side stores the
  address 0x6000 of the payload, sets the resident bit and clears the lock. The storage
  would map the payload at 0x7000.
\<close>

definition contended_entry :: SharedEntry where
  "contended_entry =
     \<lparr>entry = \<lparr>bit_flags = 3, app_lock_counter = 0, num_pages = 3,
               object_address = 0, stub_back_pointer = 0\<rparr>,
      kernel = (\<lambda>t. if t = 1 then [KSetObjectAddress 0x6000, KSetResident, KClearKernelLock]
                     else []),
      clock = 0\<rparr>"

text \<open>The entry as the handshake on it returns it: two waits, the second of which sees
  the lock cleared, and two increments.\<close>

definition contended_entry_locked :: SharedEntry where
  "contended_entry_locked =
     contended_entry
       \<lparr>entry := \<lparr>bit_flags = 5, app_lock_counter = 2, num_pages = 3,
                  object_address = 0x6000, stub_back_pointer = 0\<rparr>,
        clock := 5\<rparr>"

definition contended_heap :: Heap where
  "contended_heap =
     example_heap
       \<lparr>objects := (objects example_heap)(0x6000 := blank_object\<lparr>field32 := (\<lambda>off. 0)(12 := 0xAAAA)\<rparr>),
        table := (\<lambda>k. contended_entry),
        swap_file := (\<lambda>k. (0x7000, blank_object))\<rparr>"

text \<open>The same stub with the entry kernel-locked for good.\<close>

definition stuck_heap :: Heap where
  "stuck_heap = example_heap\<lparr>table := (\<lambda>k. stuck_entry)\<rparr>"

text \<open>
  The same stub, payload evicted, with a kernel side that holds the lock when the first
  call starts, releases it, and takes it again for a while later.
\<close>

definition busy_entry :: SharedEntry where
  "busy_entry =
     \<lparr>entry = \<lparr>bit_flags = 3, app_lock_counter = 0, num_pages = 3,
               object_address = 0, stub_back_pointer = 0\<rparr>,
      kernel = (\<lambda>t. if t = 1 \<or> t = 10 then [KClearKernelLock]
                     else if t = 8 then [KSetKernelLock] else []),
      clock = 0\<rparr>"

definition busy_heap :: Heap where
  "busy_heap = example_heap\<lparr>table := (\<lambda>k. busy_entry)\<rparr>"

section \<open>Large object spaces (large\_object\_space.cc)\<close>

text \<open>
  Addresses and sizes (\<^verbatim>\<open>uintptr_t\<close>, \<^verbatim>\<open>size_t\<close>) are natural numbers, a thread is
  its identifier, the allocation counters are \<^verbatim>\<open>uint64_t\<close>. The events are the calls
  that leave the space and the points at which it gives memory up, in program order:
  \<^verbatim>\<open>niel::swap::GcRecordFree(self, ptr)\<close>; the unmapping of a large object's
  \<^verbatim>\<open>MemMap\<close> when \<^verbatim>\<open>large_objects_.erase(it)\<close> destroys it;
  \<^verbatim>\<open>madvise(obj, allocation_size, MADV_DONTNEED)\<close>; the marking of a block as free by
  \<^verbatim>\<open>info->SetByteSize(allocation_size, true)\<close>;
  \<^verbatim>\<open>NIEL_INST_RECORD_FREE(self, this, allocation_size, 1)\<close>; \<^verbatim>\<open>DumpSpaces\<close> before a
  fatal log; \<^verbatim>\<open>bitmap->Clear(ptr)\<close> in the sweep callback.
\<close>

datatype space_event =
    GcRecordFreeCall nat nat
  | Munmap nat nat
  | Madvise nat nat
  | MarkedFree nat nat
  | NielInstRecordFree nat nat nat
  | DumpSpaces
  | BitmapClear nat

text \<open>\<^verbatim>\<open>LOG(FATAL)\<close> and a failed \<^verbatim>\<open>CHECK\<close> abort the process.\<close>

datatype fatal = NotLive | CheckFailed

record LargeObjectSpace =
  num_bytes_allocated :: "64 word"
  num_objects_allocated :: "64 word"
  space_begin :: nat
  space_end :: nat
  live_bitmap :: "nat set"
  mark_bitmap :: "nat set"
  events :: "space_event list"

definition emit :: "space_event \<Rightarrow> 'a LargeObjectSpace_scheme \<Rightarrow> 'a LargeObjectSpace_scheme" where
  "emit ev s = s\<lparr>events := events s @ [ev]\<rparr>"

subsection \<open>LargeObjectMapSpace\<close>

text \<open>\<^verbatim>\<open>struct LargeObject { MemMap mem_map; bool is_zygote; }\<close>: of the map, its
  \<^verbatim>\<open>BaseSize()\<close>.\<close>

record LargeObject =
  mem_map_BaseSize :: nat
  is_zygote :: bool

record LargeObjectMapSpace = LargeObjectSpace +
  large_objects :: "nat \<rightharpoonup> LargeObject"

definition LargeObjectMapSpace_Free ::
  "nat \<Rightarrow> nat \<Rightarrow> LargeObjectMapSpace \<Rightarrow> (fatal + nat) \<times> LargeObjectMapSpace" where
  "LargeObjectMapSpace_Free self ptr s =
     (let s1 = emit (GcRecordFreeCall self ptr) s
      in case large_objects s1 ptr of
           None \<Rightarrow> (Inl NotLive, emit DumpSpaces s1)
         | Some it \<Rightarrow>
             (let map_size = mem_map_BaseSize it;
                  allocation_size = map_size;
                  s2 = s1\<lparr>num_bytes_allocated := num_bytes_allocated s1 - of_nat allocation_size\<rparr>;
                  s3 = s2\<lparr>num_objects_allocated := num_objects_allocated s2 - 1\<rparr>;
                  s4 = emit (Munmap ptr map_size) (s3\<lparr>large_objects := (large_objects s3)(ptr := None)\<rparr>);
                  s5 = emit (NielInstRecordFree self allocation_size 1) s4
              in (Inr allocation_size, s5)))"

text \<open>
  MemoryToolLargeObjectMapSpace is the map space under a memory tool
  (\<^verbatim>\<open>LargeObjectMapSpace::Create\<close> returns it when
  \<^verbatim>\<open>Runtime::Current()->IsRunningOnMemoryTool()\<close>): an object lies between two red
  zones of \<^verbatim>\<open>kMemoryToolRedZoneBytes = kPageSize\<close> bytes, and its Alloc returns the
  address of the mapping plus \<^verbatim>\<open>kMemoryToolRedZoneBytes\<close>.
  \<^verbatim>\<open>ObjectWithRedzone(obj)\<close> is
  \<^verbatim>\<open>reinterpret_cast<uintptr_t>(obj) - kMemoryToolRedZoneBytes\<close>: a subtraction of
  \<^verbatim>\<open>uintptr_t\<close>, which wraps. The width \<open>kBitsPerIntPtrT\<close> of \<^verbatim>\<open>uintptr_t\<close>
  (globals.h) is an argument. Free:
  \<^verbatim>\<open>mirror::Object* object_with_rdz = ObjectWithRedzone(obj);\<close>
  \<^verbatim>\<open>MEMORY_TOOL_MAKE_UNDEFINED(object_with_rdz, AllocationSize(obj, nullptr));\<close>
  \<^verbatim>\<open>return LargeObjectMapSpace::Free(self, object_with_rdz);\<close>
  where AllocationSize has the \<^verbatim>\<open>CHECK\<close> that the object with its red zone is live.
\<close>

definition ObjectWithRedzone :: "nat \<Rightarrow> nat \<Rightarrow> nat \<Rightarrow> nat" where
  "ObjectWithRedzone kBitsPerIntPtrT kPageSize obj =
     (obj + 2 ^ kBitsPerIntPtrT - kPageSize mod 2 ^ kBitsPerIntPtrT) mod 2 ^ kBitsPerIntPtrT"

definition MemoryToolLargeObjectMapSpace_Free ::
  "nat \<Rightarrow> nat \<Rightarrow> nat \<Rightarrow> nat \<Rightarrow> LargeObjectMapSpace \<Rightarrow> (fatal + nat) \<times> LargeObjectMapSpace" where
  "MemoryToolLargeObjectMapSpace_Free kBitsPerIntPtrT kPageSize self obj s =
     (let object_with_rdz = ObjectWithRedzone kBitsPerIntPtrT kPageSize obj
      in case large_objects s object_with_rdz of
           None \<Rightarrow> (Inl CheckFailed, s)
         | Some it \<Rightarrow> LargeObjectMapSpace_Free self object_with_rdz s)"

subsection \<open>FreeListSpace\<close>

text \<open>
  \<^verbatim>\<open>class AllocationInfo\<close>: two \<^verbatim>\<open>uint32_t\<close>. \<open>kAlignment\<close> is
  \<^verbatim>\<open>FreeListSpace::kAlignment = kPageSize\<close>, whose value is defined in globals.h: it is
  an argument. A pointer to an \<^verbatim>\<open>AllocationInfo\<close> is its index in the side table
  \<^verbatim>\<open>allocation_info_\<close>; the pointer arithmetic of \<^verbatim>\<open>GetNextInfo\<close> and
  \<^verbatim>\<open>GetPrevFreeInfo\<close> is arithmetic on the index (below index 0, and for an address
  below \<^verbatim>\<open>Begin()\<close>, the C++ is undefined and the index of the model is 0).
\<close>

record AllocationInfo =
  prev_free :: "32 word"
  alloc_size :: "32 word"

definition kFlagFree :: "32 word" where
  "kFlagFree = 0x80000000"

definition kFlagZygote :: "32 word" where
  "kFlagZygote = 0x40000000"

definition kFlagsMask :: "32 word" where
  "kFlagsMask = NOT (kFlagFree OR kFlagZygote)"

definition AlignSize :: "AllocationInfo \<Rightarrow> nat" where
  "AlignSize info = unat (alloc_size info AND kFlagsMask)"

definition ByteSize :: "nat \<Rightarrow> AllocationInfo \<Rightarrow> nat" where
  "ByteSize kAlignment info = AlignSize info * kAlignment"

definition SetByteSize :: "nat \<Rightarrow> nat \<Rightarrow> bool \<Rightarrow> AllocationInfo \<Rightarrow> AllocationInfo" where
  "SetByteSize kAlignment size_in_bytes free info =
     info\<lparr>alloc_size := of_nat (size_in_bytes div kAlignment) OR (if free then kFlagFree else 0)\<rparr>"

definition IsFree :: "AllocationInfo \<Rightarrow> bool" where
  "IsFree info = (alloc_size info AND kFlagFree \<noteq> 0)"

definition GetPrevFree :: "AllocationInfo \<Rightarrow> nat" where
  "GetPrevFree info = unat (prev_free info)"

definition GetPrevFreeBytes :: "nat \<Rightarrow> AllocationInfo \<Rightarrow> nat" where
  "GetPrevFreeBytes kAlignment info = GetPrevFree info * kAlignment"

definition SetPrevFreeBytes :: "nat \<Rightarrow> nat \<Rightarrow> AllocationInfo \<Rightarrow> AllocationInfo" where
  "SetPrevFreeBytes kAlignment bytes info = info\<lparr>prev_free := of_nat (bytes div kAlignment)\<rparr>"

record FreeListSpace = LargeObjectSpace +
  allocation_info :: "nat \<Rightarrow> AllocationInfo"
  free_end :: nat
  free_blocks :: "nat set"

definition GetSlotIndexForAddress :: "nat \<Rightarrow> FreeListSpace \<Rightarrow> nat \<Rightarrow> nat" where
  "GetSlotIndexForAddress kAlignment s address = (address - space_begin s) div kAlignment"

definition GetAllocationAddressForSlot :: "nat \<Rightarrow> FreeListSpace \<Rightarrow> nat \<Rightarrow> nat" where
  "GetAllocationAddressForSlot kAlignment s slot = space_begin s + slot * kAlignment"

text \<open>
  RemoveFreePrev: \<^verbatim>\<open>CHECK_GT(info->GetPrevFree(), 0U)\<close>, then the block is looked up
  in the ordered set with \<^verbatim>\<open>lower_bound\<close> and both \<^verbatim>\<open>CHECK(it != free_blocks_.end())\<close>
  and \<^verbatim>\<open>CHECK_EQ(*it, info)\<close> hold exactly when the block is in the set (the order
  \<^verbatim>\<open>SortByPrevFree\<close> is total: it ends on the addresses).
\<close>

definition RemoveFreePrev :: "nat \<Rightarrow> FreeListSpace \<Rightarrow> fatal + FreeListSpace" where
  "RemoveFreePrev info s =
     (if 0 < GetPrevFree (allocation_info s info) \<and> info \<in> free_blocks s
      then Inr (s\<lparr>free_blocks := free_blocks s - {info}\<rparr>)
      else Inl CheckFailed)"

definition set_info ::
  "nat \<Rightarrow> (AllocationInfo \<Rightarrow> AllocationInfo) \<Rightarrow> FreeListSpace \<Rightarrow> FreeListSpace" where
  "set_info info f s = s\<lparr>allocation_info := (allocation_info s)(info := f (allocation_info s info))\<rparr>"

text \<open>
  FreeListSpace::Free, in three parts. First: the hook, \<^verbatim>\<open>madvise\<close>, the block marked
  free, and the coalescing with the free block before it.
  \<^verbatim>\<open>if (prev_free_bytes != 0) { new_free_size += prev_free_bytes; RemoveFreePrev(info);\<close>
  \<^verbatim>\<open>  info = info->GetPrevFreeInfo(); }\<close>
  The result is the allocation size, \<open>new_free_size\<close>, \<open>info\<close>, \<open>next_info\<close>.
\<close>

definition Free_release ::
  "nat \<Rightarrow> nat \<Rightarrow> nat \<Rightarrow> FreeListSpace \<Rightarrow> (fatal + nat \<times> nat \<times> nat \<times> nat) \<times> FreeListSpace" where
  "Free_release kAlignment self obj s =
     (let s0 = emit (GcRecordFreeCall self obj) s;
          info = GetSlotIndexForAddress kAlignment s0 obj;
          allocation_size = ByteSize kAlignment (allocation_info s0 info);
          s1 = emit (Madvise obj allocation_size) s0;
          s2 = emit (MarkedFree obj allocation_size)
                 (set_info info (SetByteSize kAlignment allocation_size True) s1);
          next_info = info + AlignSize (allocation_info s2 info);
          prev_free_bytes = GetPrevFreeBytes kAlignment (allocation_info s2 info);
          new_free_size = allocation_size
      in if prev_free_bytes \<noteq> 0 then
           (case RemoveFreePrev info s2 of
              Inl e \<Rightarrow> (Inl e, s2)
            | Inr s3 \<Rightarrow>
                (Inr (allocation_size, new_free_size + prev_free_bytes,
                      info - GetPrevFree (allocation_info s3 info), next_info), s3))
         else (Inr (allocation_size, new_free_size, info, next_info), s2))"

text \<open>
  Second: the block after it.
  \<^verbatim>\<open>if (next_addr >= free_end_start) { CHECK_EQ(next_addr, free_end_start); free_end_ += new_free_size; }\<close>
  \<^verbatim>\<open>else { ... new_free_info->SetPrevFreeBytes(new_free_size); free_blocks_.insert(new_free_info);\<close>
  \<^verbatim>\<open>  info->SetByteSize(new_free_size, true); }\<close>
\<close>

definition Free_coalesce ::
  "nat \<Rightarrow> nat \<Rightarrow> nat \<Rightarrow> nat \<Rightarrow> FreeListSpace \<Rightarrow> fatal + FreeListSpace" where
  "Free_coalesce kAlignment new_free_size info next_info s =
     (let free_end_start = space_end s - free_end s;
          next_addr = GetAllocationAddressForSlot kAlignment s next_info
      in if next_addr \<ge> free_end_start then
           (if next_addr = free_end_start
            then Inr (s\<lparr>free_end := free_end s + new_free_size\<rparr>)
            else Inl CheckFailed)
         else
           (case (if IsFree (allocation_info s next_info) then
                    (let next_next_info = next_info + AlignSize (allocation_info s next_info)
                     in case RemoveFreePrev next_next_info s of
                          Inl e \<Rightarrow> Inl e
                        | Inr s' \<Rightarrow>
                            Inr (next_next_info,
                                 new_free_size +
                                   GetPrevFreeBytes kAlignment (allocation_info s next_next_info),
                                 s'))
                  else Inr (next_info, new_free_size, s)) of
              Inl e \<Rightarrow> Inl e
            | Inr (new_free_info, new_free_size', s1) \<Rightarrow>
                (let s2 = set_info new_free_info (SetPrevFreeBytes kAlignment new_free_size') s1;
                     s3 = s2\<lparr>free_blocks := insert new_free_info (free_blocks s2)\<rparr>
                 in Inr (set_info info (SetByteSize kAlignment new_free_size' True) s3))))"

text \<open>Third: the counters.\<close>

definition FreeListSpace_Free ::
  "nat \<Rightarrow> nat \<Rightarrow> nat \<Rightarrow> FreeListSpace \<Rightarrow> (fatal + nat) \<times> FreeListSpace" where
  "FreeListSpace_Free kAlignment self obj s =
     (case Free_release kAlignment self obj s of
        (Inl e, s1) \<Rightarrow> (Inl e, s1)
      | (Inr (allocation_size, new_free_size, info, next_info), s1) \<Rightarrow>
          (case Free_coalesce kAlignment new_free_size info next_info s1 of
             Inl e \<Rightarrow> (Inl e, s1)
           | Inr s2 \<Rightarrow>
               (let s3 = s2\<lparr>num_objects_allocated := num_objects_allocated s2 - 1\<rparr>;
                    s4 = s3\<lparr>num_bytes_allocated :=
                             num_bytes_allocated s3 - of_nat allocation_size\<rparr>
                in (Inr allocation_size, emit (NielInstRecordFree self allocation_size 1) s4))))"

subsection \<open>Freeing through the base class\<close>

text \<open>The dynamic type of a large object space, and the virtual \<^verbatim>\<open>Free\<close>. The page
  size is the alignment of the free-list space and the red zone of the memory-tool space;
  \<open>bits\<close> is \<open>kBitsPerIntPtrT\<close>.\<close>

datatype AnySpace =
    MapSpace LargeObjectMapSpace
  | MemoryToolSpace LargeObjectMapSpace
  | ListSpace FreeListSpace

fun space_events :: "AnySpace \<Rightarrow> space_event list" where
  "space_events (MapSpace s) = events s"
| "space_events (MemoryToolSpace s) = events s"
| "space_events (ListSpace s) = events s"

fun GetLiveBitmap :: "AnySpace \<Rightarrow> nat set" where
  "GetLiveBitmap (MapSpace s) = live_bitmap s"
| "GetLiveBitmap (MemoryToolSpace s) = live_bitmap s"
| "GetLiveBitmap (ListSpace s) = live_bitmap s"

fun GetMarkBitmap :: "AnySpace \<Rightarrow> nat set" where
  "GetMarkBitmap (MapSpace s) = mark_bitmap s"
| "GetMarkBitmap (MemoryToolSpace s) = mark_bitmap s"
| "GetMarkBitmap (ListSpace s) = mark_bitmap s"

fun Begin :: "AnySpace \<Rightarrow> nat" where
  "Begin (MapSpace s) = space_begin s"
| "Begin (MemoryToolSpace s) = space_begin s"
| "Begin (ListSpace s) = space_begin s"

fun End :: "AnySpace \<Rightarrow> nat" where
  "End (MapSpace s) = space_end s"
| "End (MemoryToolSpace s) = space_end s"
| "End (ListSpace s) = space_end s"

fun Free :: "nat \<Rightarrow> nat \<Rightarrow> nat \<Rightarrow> nat \<Rightarrow> AnySpace \<Rightarrow> (fatal + nat) \<times> AnySpace" where
  "Free bits kAlignment self ptr (MapSpace s) =
     (let (r, s') = LargeObjectMapSpace_Free self ptr s in (r, MapSpace s'))"
| "Free bits kAlignment self ptr (MemoryToolSpace s) =
     (let (r, s') = MemoryToolLargeObjectMapSpace_Free bits kAlignment self ptr s
      in (r, MemoryToolSpace s'))"
| "Free bits kAlignment self ptr (ListSpace s) =
     (let (r, s') = FreeListSpace_Free kAlignment self ptr s in (r, ListSpace s'))"

text \<open>
  LargeObjectSpace::FreeList:
  \<^verbatim>\<open>for (size_t i = 0; i < num_ptrs; ++i) { total += Free(self, ptrs[i]); } return total;\<close>
  (\<^verbatim>\<open>kDebugSpaces\<close> is a debug check). The loop, with the total so far.
\<close>

fun FreeList_loop ::
  "nat \<Rightarrow> nat \<Rightarrow> nat \<Rightarrow> nat \<Rightarrow> nat list \<Rightarrow> AnySpace \<Rightarrow> (fatal + nat) \<times> AnySpace" where
  "FreeList_loop bits kAlignment self total_freed [] sp = (Inr total_freed, sp)"
| "FreeList_loop bits kAlignment self total_freed (ptr # ptrs) sp =
     (case Free bits kAlignment self ptr sp of
        (Inl e, sp') \<Rightarrow> (Inl e, sp')
      | (Inr n, sp') \<Rightarrow> FreeList_loop bits kAlignment self (total_freed + n) ptrs sp')"

definition FreeList ::
  "nat \<Rightarrow> nat \<Rightarrow> nat \<Rightarrow> nat list \<Rightarrow> AnySpace \<Rightarrow> (fatal + nat) \<times> AnySpace" where
  "FreeList bits kAlignment self ptrs sp = FreeList_loop bits kAlignment self 0 ptrs sp"

text \<open>
  LargeObjectSpace::SweepCallback. The context holds \<^verbatim>\<open>swap_bitmaps\<close>, the thread and
  the freed counts; the space it points to is passed along.
\<close>

record SweepCallbackContext =
  swap_bitmaps :: bool
  context_self :: nat
  freed_objects :: "64 word"
  freed_bytes :: "64 word"

fun clear_live_bits :: "nat list \<Rightarrow> AnySpace \<Rightarrow> AnySpace" where
  "clear_live_bits [] sp = sp"
| "clear_live_bits (ptr # ptrs) (MapSpace s) =
     clear_live_bits ptrs (MapSpace (emit (BitmapClear ptr) (s\<lparr>live_bitmap := live_bitmap s - {ptr}\<rparr>)))"
| "clear_live_bits (ptr # ptrs) (MemoryToolSpace s) =
     clear_live_bits ptrs
       (MemoryToolSpace (emit (BitmapClear ptr) (s\<lparr>live_bitmap := live_bitmap s - {ptr}\<rparr>)))"
| "clear_live_bits (ptr # ptrs) (ListSpace s) =
     clear_live_bits ptrs (ListSpace (emit (BitmapClear ptr) (s\<lparr>live_bitmap := live_bitmap s - {ptr}\<rparr>)))"

definition SweepCallback ::
  "nat \<Rightarrow> nat \<Rightarrow> nat list \<Rightarrow> SweepCallbackContext \<times> AnySpace \<Rightarrow>
     (fatal + unit) \<times> SweepCallbackContext \<times> AnySpace" where
  "SweepCallback bits kAlignment ptrs arg =
     (let (context, space) = arg;
          self = context_self context;
          space1 = (if \<not> swap_bitmaps context then clear_live_bits ptrs space else space);
          context1 = context\<lparr>freed_objects := freed_objects context + of_nat (length ptrs)\<rparr>
      in case FreeList bits kAlignment self ptrs space1 of
           (Inl e, space2) \<Rightarrow> (Inl e, context1, space2)
         | (Inr n, space2) \<Rightarrow>
             (Inr (), context1\<lparr>freed_bytes := freed_bytes context1 + of_nat n\<rparr>, space2))"

text \<open>
  LargeObjectSpace::Sweep. \<^verbatim>\<open>LargeObjectBitmap::SweepWalk\<close> belongs to the collector's
  bitmap: \<open>SweepWalk\<close> gives, for the live and the mark bitmap and the range, the batches
  of pointers with which it calls the callback. The result is \<^verbatim>\<open>scc.freed\<close>.
\<close>

fun sweep_batches ::
  "nat \<Rightarrow> nat \<Rightarrow> nat list list \<Rightarrow> SweepCallbackContext \<times> AnySpace \<Rightarrow>
     (fatal + unit) \<times> SweepCallbackContext \<times> AnySpace" where
  "sweep_batches bits kAlignment [] arg = (Inr (), arg)"
| "sweep_batches bits kAlignment (ptrs # batches) arg =
     (case SweepCallback bits kAlignment ptrs arg of
        (Inl e, arg') \<Rightarrow> (Inl e, arg')
      | (Inr u, arg') \<Rightarrow> sweep_batches bits kAlignment batches arg')"

definition Sweep ::
  "(nat set \<Rightarrow> nat set \<Rightarrow> nat \<Rightarrow> nat \<Rightarrow> nat list list) \<Rightarrow> nat \<Rightarrow> nat \<Rightarrow> nat \<Rightarrow> bool \<Rightarrow>
     AnySpace \<Rightarrow> (fatal + 64 word \<times> 64 word) \<times> AnySpace" where
  "Sweep SweepWalk bits kAlignment self swap space =
     (if Begin space \<ge> End space then (Inr (0, 0), space)
      else
        (let live = (if swap then GetMarkBitmap space else GetLiveBitmap space);
             mark = (if swap then GetLiveBitmap space else GetMarkBitmap space);
             scc = \<lparr>swap_bitmaps = swap, context_self = self, freed_objects = 0, freed_bytes = 0\<rparr>
         in case sweep_batches bits kAlignment (SweepWalk live mark (Begin space) (End space))
                   (scc, space) of
              (Inl e, scc', space') \<Rightarrow> (Inl e, space')
            | (Inr u, scc', space') \<Rightarrow> (Inr (freed_objects scc', freed_bytes scc'), space')))"

text \<open>
  The order of hook and release, as a check of a sequence of events: every point at which
  memory is given up (\<open>Madvise\<close>, \<open>MarkedFree\<close>, \<open>Munmap\<close>) is for an address for which
  the hook has run, with the freeing thread, since that address was last given up.
  \<open>N\<close> is the set of addresses notified and not yet given up.
\<close>

fun hook_before_release :: "nat \<Rightarrow> nat set \<Rightarrow> space_event list \<Rightarrow> bool" where
  "hook_before_release self N [] = True"
| "hook_before_release self N (GcRecordFreeCall t a # evs) =
     (t = self \<and> hook_before_release self (insert a N) evs)"
| "hook_before_release self N (Madvise a n # evs) = (a \<in> N \<and> hook_before_release self N evs)"
| "hook_before_release self N (MarkedFree a n # evs) =
     (a \<in> N \<and> hook_before_release self (N - {a}) evs)"
| "hook_before_release self N (Munmap a n # evs) =
     (a \<in> N \<and> hook_before_release self (N - {a}) evs)"
| "hook_before_release self N (NielInstRecordFree t n c # evs) = hook_before_release self N evs"
| "hook_before_release self N (DumpSpaces # evs) = hook_before_release self N evs"
| "hook_before_release self N (BitmapClear a # evs) = hook_before_release self N evs"

text \<open>What one Free appends: the hook first, then the events of the release.\<close>

definition free_block :: "nat \<Rightarrow> nat \<Rightarrow> space_event list \<Rightarrow> bool" where
  "free_block self ptr evs =
     (\<exists>n. evs = [GcRecordFreeCall self ptr, DumpSpaces] \<or>
          evs = [GcRecordFreeCall self ptr, Munmap ptr n, NielInstRecordFree self n 1] \<or>
          evs = [GcRecordFreeCall self ptr, Madvise ptr n, MarkedFree ptr n] \<or>
          evs = [GcRecordFreeCall self ptr, Madvise ptr n, MarkedFree ptr n,
                 NielInstRecordFree self n 1])"

text \<open>A free-list space of four pages at 0x10000: a two-page object, a one-page object
  and one free page at the end. Freeing the first object.\<close>

definition example_list_space :: FreeListSpace where
  "example_list_space =
     \<lparr>num_bytes_allocated = 12288, num_objects_allocated = 2,
      space_begin = 0x10000, space_end = 0x14000, live_bitmap = {0x10000, 0x12000},
      mark_bitmap = {0x12000}, events = [],
      allocation_info = (\<lambda>i. \<lparr>prev_free = 0, alloc_size = 0\<rparr>)
         (0 := \<lparr>prev_free = 0, alloc_size = 2\<rparr>, 2 := \<lparr>prev_free = 0, alloc_size = 1\<rparr>),
      free_end = 4096, free_blocks = {}\<rparr>"

text \<open>
  A map space holding one large object of one page, and the same object in a map space
  under a memory tool with pages of 4096 bytes: the mapping of three pages is at 0x10000,
  the first and the last page are the red zones, and the object, as Alloc returned it, is
  at 0x11000.
\<close>

definition example_map_space :: LargeObjectMapSpace where
  "example_map_space =
     \<lparr>num_bytes_allocated = 4096, num_objects_allocated = 1,
      space_begin = 0x11000, space_end = 0x12000, live_bitmap = {0x11000},
      mark_bitmap = {}, events = [],
      large_objects = [0x11000 \<mapsto> \<lparr>mem_map_BaseSize = 4096, is_zygote = False\<rparr>]\<rparr>"

definition example_memory_tool_space :: LargeObjectMapSpace where
  "example_memory_tool_space =
     \<lparr>num_bytes_allocated = 12288, num_objects_allocated = 1,
      space_begin = 0x10000, space_end = 0x13000, live_bitmap = {0x11000},
      mark_bitmap = {}, events = [],
      large_objects = [0x10000 \<mapsto> \<lparr>mem_map_BaseSize = 12288, is_zygote = False\<rparr>]\<rparr>"

section \<open>The no-swap flag at allocation and at reference creation\<close>

subsection \<open>Heap::AllocObjectWithAllocator (heap-inl.h)\<close>

text \<open>
  Of the class, what \<^verbatim>\<open>ShouldAllocLargeObject\<close> reads. Of the collector's heap and of
  the runtime, what the large-object branch reads: the threshold,
  \<^verbatim>\<open>Runtime::Current()->IsZygote()\<close>, \<^verbatim>\<open>GetUpdatedAllocator\<close>, and the default of the
  template argument \<^verbatim>\<open>kCheckLargeObject\<close>, which heap.h declares. \<open>Allocate\<close> is the
  allocation proper, for the given allocator: thread-local buffers, RosAlloc,
  \<^verbatim>\<open>TryToAllocate\<close>, \<^verbatim>\<open>AllocateInternalWithGc\<close>, \<^verbatim>\<open>SetClass\<close>, the pre-fence
  visitor and the accounting after it. It is the allocator's strategy and an argument. It
  gives the object; or \<^verbatim>\<open>nullptr\<close> with an exception pending; or \<^verbatim>\<open>nullptr\<close> without
  one, when "the allocator or instrumentation changed" and the allocation starts again.
\<close>

datatype AllocatorType =
    kAllocatorTypeBumpPointer
  | kAllocatorTypeTLAB
  | kAllocatorTypeRosAlloc
  | kAllocatorTypeDlMalloc
  | kAllocatorTypeNonMoving
  | kAllocatorTypeLOS
  | kAllocatorTypeRegion
  | kAllocatorTypeRegionTLAB

datatype alloc_outcome = Allocated "32 word" | ExceptionPending | AllocatorChanged

record Class =
  IsPrimitiveArray :: bool
  IsStringClass :: bool

record GcHeap =
  large_object_threshold :: nat
  IsZygote :: bool
  GetUpdatedAllocator :: "AllocatorType \<Rightarrow> AllocatorType"
  default_kCheckLargeObject :: bool
  Allocate :: "AllocatorType \<Rightarrow> Class \<Rightarrow> nat \<Rightarrow> Heap \<Rightarrow> alloc_outcome \<times> Heap"

definition ShouldAllocLargeObject :: "GcHeap \<Rightarrow> Class \<Rightarrow> nat \<Rightarrow> bool" where
  "ShouldAllocLargeObject heap c byte_count =
     (byte_count \<ge> large_object_threshold heap \<and> (IsPrimitiveArray c \<or> IsStringClass c))"

text \<open>
  \<^verbatim>\<open>if (kCheckLargeObject && UNLIKELY(ShouldAllocLargeObject(klass, byte_count))) {\<close>
  \<^verbatim>\<open>  obj = AllocLargeObject<kInstrumented, PreFenceVisitor>(self, &klass, byte_count, pre_fence_visitor);\<close>
  \<^verbatim>\<open>  if (obj != nullptr) { if (Runtime::Current()->IsZygote()) { obj->SetNoSwapFlag(); } return obj.Ptr(); }\<close>
  \<^verbatim>\<open>  self->ClearException();\<close>
  \<^verbatim>\<open>  return AllocObjectWithAllocator<true, false>(self, klass, byte_count, GetUpdatedAllocator(allocator), pre_fence_visitor); }\<close>
  The call of AllocLargeObject is written as its body, the call of
  \<^verbatim>\<open>AllocObjectWithAllocator<kInstrumented, false>\<close> with \<^verbatim>\<open>kAllocatorTypeLOS\<close>.
  In the allocation proper, when the allocator changed:
  \<^verbatim>\<open>return AllocObjectWithAllocator</*kInstrumented=*/true>(self, klass, byte_count, GetUpdatedAllocator(allocator), pre_fence_visitor);\<close>
  Nothing bounds the number of restarts: the function is partial.
\<close>

partial_function (option) AllocObjectWithAllocator ::
  "GcHeap \<Rightarrow> bool \<Rightarrow> Class \<Rightarrow> nat \<Rightarrow> AllocatorType \<Rightarrow> Heap \<Rightarrow> (32 word option \<times> Heap) option" where
  "AllocObjectWithAllocator heap kCheckLargeObject klass byte_count allocator h =
     (if kCheckLargeObject \<and> ShouldAllocLargeObject heap klass byte_count then
        do {
          (obj, h1) \<leftarrow> AllocObjectWithAllocator heap False klass byte_count kAllocatorTypeLOS h;
          case obj of
            Some ob \<Rightarrow> Some (Some ob, if IsZygote heap then SetNoSwapFlag ob h1 else h1)
          | None \<Rightarrow>
              AllocObjectWithAllocator heap False klass byte_count
                (GetUpdatedAllocator heap allocator) h1
        }
      else
        (case Allocate heap allocator klass byte_count h of
           (Allocated ob, h1) \<Rightarrow> Some (Some ob, h1)
         | (ExceptionPending, h1) \<Rightarrow> Some (None, h1)
         | (AllocatorChanged, h1) \<Rightarrow>
             AllocObjectWithAllocator heap (default_kCheckLargeObject heap) klass byte_count
               (GetUpdatedAllocator heap allocator) h1))"

definition AllocLargeObject :: "GcHeap \<Rightarrow> Class \<Rightarrow> nat \<Rightarrow> Heap \<Rightarrow> (32 word option \<times> Heap) option" where
  "AllocLargeObject heap klass byte_count h =
     AllocObjectWithAllocator heap False klass byte_count kAllocatorTypeLOS h"

subsection \<open>JavaVMExt::AddGlobalRef and AddWeakGlobalRef (java\_vm\_ext.cc)\<close>

text \<open>
  The two reference tables are \<^verbatim>\<open>IndirectReferenceTable\<close>s, which belong to the
  native-interop boundary: the table is a type parameter and
  \<^verbatim>\<open>Add(kIRTFirstSegment, obj, &error_msg)\<close> an argument, which gives the reference, or
  nothing for \<^verbatim>\<open>nullptr\<close>, and the table it leaves. An object pointer is its address,
  0 for \<^verbatim>\<open>nullptr\<close>. \<^verbatim>\<open>LOG(FATAL)\<close> aborts. \<^verbatim>\<open>CheckGlobalRefAllocationTracking\<close>
  switches allocation tracking and touches neither the object nor the tables.
\<close>

record 'irt JavaVMExt =
  globals :: 'irt
  weak_globals :: 'irt

datatype jni_fatal = LogFatal

definition AddGlobalRef ::
  "('irt \<Rightarrow> 32 word \<Rightarrow> nat option \<times> 'irt) \<Rightarrow> 32 word \<Rightarrow> Heap \<times> 'irt JavaVMExt \<Rightarrow>
     (jni_fatal + nat option) \<times> Heap \<times> 'irt JavaVMExt" where
  "AddGlobalRef Add obj st =
     (let (h, vm) = st
      in if obj = 0 then (Inr None, h, vm)
         else
           (let h1 = SetNoSwapFlag obj h;
                (ref, g) = Add (globals vm) obj;
                vm1 = vm\<lparr>globals := g\<rparr>
            in if ref = None then (Inl LogFatal, h1, vm1) else (Inr ref, h1, vm1)))"

text \<open>
  AddWeakGlobalRef waits until weak globals may be accessed:
  \<^verbatim>\<open>while (!kUseReadBarrier && UNLIKELY(!MayAccessWeakGlobals(self))) { ...\<close>
  \<^verbatim>\<open>  weak_globals_add_condition_.WaitHoldingLocks(self); }\<close>
  \<open>MayAccessWeakGlobals n\<close> is what the \<open>n\<close>-th test finds; the collector decides it.
  The wait is a partial function: \<open>None\<close> when access is never given.
\<close>

partial_function (option) WaitForWeakGlobalsAccess :: "bool \<Rightarrow> (nat \<Rightarrow> bool) \<Rightarrow> nat \<Rightarrow> nat option" where
  "WaitForWeakGlobalsAccess kUseReadBarrier MayAccessWeakGlobals n =
     (if \<not> kUseReadBarrier \<and> \<not> MayAccessWeakGlobals n
      then WaitForWeakGlobalsAccess kUseReadBarrier MayAccessWeakGlobals (Suc n)
      else Some n)"

definition AddWeakGlobalRef ::
  "('irt \<Rightarrow> 32 word \<Rightarrow> nat option \<times> 'irt) \<Rightarrow> bool \<Rightarrow> (nat \<Rightarrow> bool) \<Rightarrow> 32 word \<Rightarrow>
     Heap \<times> 'irt JavaVMExt \<Rightarrow> ((jni_fatal + nat option) \<times> Heap \<times> 'irt JavaVMExt) option" where
  "AddWeakGlobalRef Add kUseReadBarrier MayAccessWeakGlobals obj st =
     (let (h, vm) = st
      in if obj = 0 then Some (Inr None, h, vm)
         else
           (let h1 = SetNoSwapFlag obj h
            in do {
                 n \<leftarrow> WaitForWeakGlobalsAccess kUseReadBarrier MayAccessWeakGlobals 0;
                 let (ref, g) = Add (weak_globals vm) obj;
                 let vm1 = vm\<lparr>weak_globals := g\<rparr>;
                 Some (if ref = None then (Inl LogFatal, h1, vm1) else (Inr ref, h1, vm1))
               }))"

text \<open>A reference table for the examples: a list of objects with room for four, the
  reference being the index.\<close>

definition list_table_Add :: "32 word list \<Rightarrow> 32 word \<Rightarrow> nat option \<times> 32 word list" where
  "list_table_Add t obj = (if length t < 4 then (Some (length t), t @ [obj]) else (None, t))"

text \<open>The zygote, with a large object space that gives 0x7000.\<close>

definition zygote_heap :: GcHeap where
  "zygote_heap =
     \<lparr>large_object_threshold = 12288, IsZygote = True, GetUpdatedAllocator = (\<lambda>a. a),
      default_kCheckLargeObject = True,
      Allocate = (\<lambda>a c n h. if a = kAllocatorTypeLOS then (Allocated 0x7000, h)
                            else (Allocated 0x8000, h))\<rparr>"


definition array_class :: Class where
  "array_class = \<lparr>IsPrimitiveArray = True, IsStringClass = False\<rparr>"

definition empty_vm :: "32 word list JavaVMExt" where
  "empty_vm = \<lparr>globals = [], weak_globals = []\<rparr>"

section \<open>Properties of the table entry\<close>

lemmas bit_defs = GetOccupiedBit_def SetOccupiedBit_def ClearOccupiedBit_def
  GetKernelLockBit_def SetKernelLockBit_def ClearKernelLockBit_def
  GetResidentBit_def SetResidentBit_def ClearResidentBit_def
  OCCUPIED_BIT_OFFSET_def KERNEL_LOCK_BIT_OFFSET_def RESIDENT_BIT_OFFSET_def

lemma GetBit_bit: "GetBit n e = bit (bit_flags e) n"
  unfolding GetBit_def
  by (simp add: bit_iff_and_drop_bit_eq_1 and_one_eq mod_2_eq_odd bit_iff_odd_drop_bit)

lemma GetBit_SetBit: "GetBit m (SetBit n e) = ((m = n \<and> n < 8) \<or> GetBit m e)"
  by (auto simp add: GetBit_bit SetBit_def bit_or_iff bit_exp_iff)

lemma GetBit_ClearBit: "GetBit m (ClearBit n e) = (m \<noteq> n \<and> GetBit m e)"
  by (auto simp add: GetBit_bit ClearBit_def bit_and_iff bit_not_iff bit_exp_iff
      dest: bit_imp_le_length)

lemma bit_SetBit: "bit (bit_flags (SetBit n e)) m = ((m = n \<and> n < 8) \<or> bit (bit_flags e) m)"
  using GetBit_SetBit by (simp add: GetBit_bit)

lemma bit_ClearBit: "bit (bit_flags (ClearBit n e)) m = (m \<noteq> n \<and> bit (bit_flags e) m)"
  using GetBit_ClearBit by (simp add: GetBit_bit)

lemma SetBit_frame: "SetBit n e = e\<lparr>bit_flags := bit_flags (SetBit n e)\<rparr>"
  by (simp add: SetBit_def)

lemma ClearBit_frame: "ClearBit n e = e\<lparr>bit_flags := bit_flags (ClearBit n e)\<rparr>"
  by (simp add: ClearBit_def)

text \<open>
  C7. Each of the six single-bit mutators changes the flags byte only, and in it exactly
  its own bit (bit 0 for occupied, bit 1 for kernel-lock, bit 2 for resident): every
  other bit of the byte, the lock counter, the page count and the object address keep
  their values. Each getter returns the current value of its bit. (Atomicity of the
  fetch-or/fetch-and is the meaning of one step of the model; the schedule of the kernel
  side interleaves only between such steps.)
\<close>

theorem bit_mutators_change_only_their_bit:
  "GetOccupiedBit e = bit (bit_flags e) 0 \<and>
   GetKernelLockBit e = bit (bit_flags e) 1 \<and>
   GetResidentBit e = bit (bit_flags e) 2 \<and>
   SetOccupiedBit e = e\<lparr>bit_flags := bit_flags (SetOccupiedBit e)\<rparr> \<and>
   (\<forall>n. bit (bit_flags (SetOccupiedBit e)) n = (if n = 0 then True else bit (bit_flags e) n)) \<and>
   ClearOccupiedBit e = e\<lparr>bit_flags := bit_flags (ClearOccupiedBit e)\<rparr> \<and>
   (\<forall>n. bit (bit_flags (ClearOccupiedBit e)) n = (if n = 0 then False else bit (bit_flags e) n)) \<and>
   SetKernelLockBit e = e\<lparr>bit_flags := bit_flags (SetKernelLockBit e)\<rparr> \<and>
   (\<forall>n. bit (bit_flags (SetKernelLockBit e)) n = (if n = 1 then True else bit (bit_flags e) n)) \<and>
   ClearKernelLockBit e = e\<lparr>bit_flags := bit_flags (ClearKernelLockBit e)\<rparr> \<and>
   (\<forall>n. bit (bit_flags (ClearKernelLockBit e)) n = (if n = 1 then False else bit (bit_flags e) n)) \<and>
   SetResidentBit e = e\<lparr>bit_flags := bit_flags (SetResidentBit e)\<rparr> \<and>
   (\<forall>n. bit (bit_flags (SetResidentBit e)) n = (if n = 2 then True else bit (bit_flags e) n)) \<and>
   ClearResidentBit e = e\<lparr>bit_flags := bit_flags (ClearResidentBit e)\<rparr> \<and>
   (\<forall>n. bit (bit_flags (ClearResidentBit e)) n = (if n = 2 then False else bit (bit_flags e) n))"
proof -
  have get: "GetOccupiedBit e = bit (bit_flags e) 0" "GetKernelLockBit e = bit (bit_flags e) 1"
    "GetResidentBit e = bit (bit_flags e) 2"
    by (simp_all add: bit_defs GetBit_bit)
  have frame: "SetOccupiedBit e = e\<lparr>bit_flags := bit_flags (SetOccupiedBit e)\<rparr>"
    "ClearOccupiedBit e = e\<lparr>bit_flags := bit_flags (ClearOccupiedBit e)\<rparr>"
    "SetKernelLockBit e = e\<lparr>bit_flags := bit_flags (SetKernelLockBit e)\<rparr>"
    "ClearKernelLockBit e = e\<lparr>bit_flags := bit_flags (ClearKernelLockBit e)\<rparr>"
    "SetResidentBit e = e\<lparr>bit_flags := bit_flags (SetResidentBit e)\<rparr>"
    "ClearResidentBit e = e\<lparr>bit_flags := bit_flags (ClearResidentBit e)\<rparr>"
    unfolding bit_defs by (rule SetBit_frame ClearBit_frame)+
  have bits: "\<forall>n. bit (bit_flags (SetOccupiedBit e)) n = (if n = 0 then True else bit (bit_flags e) n)"
    "\<forall>n. bit (bit_flags (ClearOccupiedBit e)) n = (if n = 0 then False else bit (bit_flags e) n)"
    "\<forall>n. bit (bit_flags (SetKernelLockBit e)) n = (if n = 1 then True else bit (bit_flags e) n)"
    "\<forall>n. bit (bit_flags (ClearKernelLockBit e)) n = (if n = 1 then False else bit (bit_flags e) n)"
    "\<forall>n. bit (bit_flags (SetResidentBit e)) n = (if n = 2 then True else bit (bit_flags e) n)"
    "\<forall>n. bit (bit_flags (ClearResidentBit e)) n = (if n = 2 then False else bit (bit_flags e) n)"
    by (simp_all add: bit_defs bit_SetBit bit_ClearBit)
  from get frame bits show ?thesis by blast
qed

subsection \<open>The handshake\<close>

lemma kernel_step_keeps_counter: "app_lock_counter (kernel_step k e) = app_lock_counter e"
  by (cases k) (simp_all add: bit_defs SetBit_def ClearBit_def SetObjectAddress_def)

lemma fold_kernel_step_keeps_counter:
  "app_lock_counter (fold kernel_step ops e) = app_lock_counter e"
  by (induction ops arbitrary: e) (simp_all add: kernel_step_keeps_counter)

lemma kernel_step_lock_bit:
  "GetKernelLockBit (kernel_step k e) =
     (k = KSetKernelLock \<or> (k \<noteq> KClearKernelLock \<and> GetKernelLockBit e))"
  by (cases k)
     (simp_all add: bit_defs GetBit_SetBit GetBit_ClearBit, simp_all add: GetBit_def SetObjectAddress_def)

lemma fold_kernel_step_stays_clear:
  "KSetKernelLock \<notin> set ops \<Longrightarrow> \<not> GetKernelLockBit e \<Longrightarrow>
     \<not> GetKernelLockBit (fold kernel_step ops e)"
  by (induction ops arbitrary: e) (auto simp add: kernel_step_lock_bit)

lemma fold_kernel_step_stays_set:
  "KClearKernelLock \<notin> set ops \<Longrightarrow> GetKernelLockBit e \<Longrightarrow>
     GetKernelLockBit (fold kernel_step ops e)"
  by (induction ops arbitrary: e) (auto simp add: kernel_step_lock_bit)

lemma tick_simps [simp]:
  "clock (tick s) = Suc (clock s)" "kernel (tick s) = kernel s"
  "app_lock_counter (entry (tick s)) = app_lock_counter (entry s)"
  by (simp_all add: tick_def fold_kernel_step_keeps_counter)

lemma atomic_rmw_simps [simp]:
  "clock (atomic_rmw f s) = Suc (clock s)" "kernel (atomic_rmw f s) = kernel s"
  "entry (atomic_rmw f s) = f (entry (tick s))"
  by (simp_all add: atomic_rmw_def Let_def)

lemma tick_stays_clear:
  "kernel_never_locks s \<Longrightarrow> \<not> GetKernelLockBit (entry s) \<Longrightarrow>
     \<not> GetKernelLockBit (entry (tick s))"
  by (simp add: tick_def kernel_never_locks_def fold_kernel_step_stays_clear)

lemma tick_stays_set:
  "kernel_never_unlocks s \<Longrightarrow> GetKernelLockBit (entry s) \<Longrightarrow> GetKernelLockBit (entry (tick s))"
  by (simp add: tick_def kernel_never_unlocks_def fold_kernel_step_stays_set)

lemma tick_never_locks: "kernel_never_locks s \<Longrightarrow> kernel_never_locks (tick s)"
  by (simp add: kernel_never_locks_def)

lemma tick_never_unlocks: "kernel_never_unlocks s \<Longrightarrow> kernel_never_unlocks (tick s)"
  by (simp add: kernel_never_unlocks_def)

lemma rmw_never_locks: "kernel_never_locks s \<Longrightarrow> kernel_never_locks (atomic_rmw f s)"
  by (simp add: kernel_never_locks_def)

lemma Incr_lock_bit [simp]: "GetKernelLockBit (IncrAppLockCounter e) = GetKernelLockBit e"
  by (simp add: IncrAppLockCounter_def bit_defs GetBit_def)

lemma Decr_lock_bit [simp]: "GetKernelLockBit (DecrAppLockCounter e) = GetKernelLockBit e"
  by (simp add: DecrAppLockCounter_def bit_defs GetBit_def)

lemma Spin_clear:
  assumes "kernel_never_locks s" "\<not> GetKernelLockBit (entry s)"
  shows "SpinWhileKernelLock s = Some (tick s)"
  using tick_stays_clear [OF assms]
  by (subst SpinWhileKernelLock.simps) (simp add: Let_def)

text \<open>A spin that returns was not started on a bit that stays set: by the induction
  principle of the partial function.\<close>

lemma Spin_Some_imp:
  assumes "SpinWhileKernelLock s = Some r"
  shows "\<not> (kernel_never_unlocks s \<and> GetKernelLockBit (entry s))"
proof (rule SpinWhileKernelLock.raw_induct
    [where P = "\<lambda>s r. \<not> (kernel_never_unlocks s \<and> GetKernelLockBit (entry s))", OF _ assms])
  fix spin :: "SharedEntry \<Rightarrow> SharedEntry option" and s r
  assume IH: "\<And>s r. spin s = Some r \<Longrightarrow> \<not> (kernel_never_unlocks s \<and> GetKernelLockBit (entry s))"
    and step: "(let s' = tick s in if GetKernelLockBit (entry s') then spin s' else Some s') = Some r"
  show "\<not> (kernel_never_unlocks s \<and> GetKernelLockBit (entry s))"
  proof
    assume h: "kernel_never_unlocks s \<and> GetKernelLockBit (entry s)"
    then have b: "GetKernelLockBit (entry (tick s))" and n: "kernel_never_unlocks (tick s)"
      by (simp_all add: tick_stays_set tick_never_unlocks)
    with step have "spin (tick s) = Some r" by (simp add: Let_def)
    from IH [OF this] b n show False by simp
  qed
qed

lemma Spin_stuck:
  "kernel_never_unlocks s \<Longrightarrow> GetKernelLockBit (entry s) \<Longrightarrow> SpinWhileKernelLock s = None"
  using Spin_Some_imp [of s] by (cases "SpinWhileKernelLock s") auto

lemma Lock_stuck:
  "kernel_never_unlocks s \<Longrightarrow> GetKernelLockBit (entry s) \<Longrightarrow> LockFromAppThread s = None"
  by (simp add: LockFromAppThread_def Spin_stuck)

lemma Lock_clear:
  assumes "kernel_never_locks s" "\<not> GetKernelLockBit (entry s)"
  shows "LockFromAppThread s =
           Some (atomic_rmw IncrAppLockCounter (tick (atomic_rmw IncrAppLockCounter (tick s))))"
proof -
  have 1: "SpinWhileKernelLock s = Some (tick s)" using assms by (rule Spin_clear)
  let ?s2 = "atomic_rmw IncrAppLockCounter (tick s)"
  have n2: "kernel_never_locks ?s2"
    using assms(1) by (simp add: rmw_never_locks tick_never_locks)
  have b2: "\<not> GetKernelLockBit (entry ?s2)"
    using assms by (simp add: tick_stays_clear tick_never_locks)
  have 2: "SpinWhileKernelLock ?s2 = Some (tick ?s2)" using n2 b2 by (rule Spin_clear)
  show ?thesis by (simp add: LockFromAppThread_def 1 2)
qed

lemma Lock_clear_props:
  assumes "kernel_never_locks s" "\<not> GetKernelLockBit (entry s)"
  shows "\<exists>s'. LockFromAppThread s = Some s' \<and> kernel_never_locks s' \<and>
     \<not> GetKernelLockBit (entry s') \<and>
     app_lock_counter (entry s') = app_lock_counter (entry s) + 2 \<and>
     kernel s' = kernel s \<and> clock s' = clock s + 4"
proof -
  let ?s1 = "tick s"
  let ?s2 = "atomic_rmw IncrAppLockCounter ?s1"
  let ?s3 = "tick ?s2"
  let ?s4 = "atomic_rmw IncrAppLockCounter ?s3"
  have n1: "kernel_never_locks ?s1" using assms(1) by (rule tick_never_locks)
  have b1: "\<not> GetKernelLockBit (entry ?s1)" using assms by (rule tick_stays_clear)
  have n2: "kernel_never_locks ?s2" using n1 by (rule rmw_never_locks)
  have b2: "\<not> GetKernelLockBit (entry ?s2)" using n1 b1 by (simp add: tick_stays_clear)
  have n3: "kernel_never_locks ?s3" using n2 by (rule tick_never_locks)
  have b3: "\<not> GetKernelLockBit (entry ?s3)" using n2 b2 by (rule tick_stays_clear)
  have n4: "kernel_never_locks ?s4" using n3 by (rule rmw_never_locks)
  have b4: "\<not> GetKernelLockBit (entry ?s4)" using n3 b3 by (simp add: tick_stays_clear)
  have c: "app_lock_counter (entry ?s4) = app_lock_counter (entry s) + 2"
    by (simp add: IncrAppLockCounter_def)
  show ?thesis
    using Lock_clear [OF assms] n4 b4 c by simp
qed

lemma Unlock_props:
  assumes "kernel_never_locks s" "\<not> GetKernelLockBit (entry s)"
  shows "kernel_never_locks (UnlockFromAppThread s) \<and>
     \<not> GetKernelLockBit (entry (UnlockFromAppThread s)) \<and>
     app_lock_counter (entry (UnlockFromAppThread s)) = app_lock_counter (entry s) - 1 \<and>
     kernel (UnlockFromAppThread s) = kernel s \<and> clock (UnlockFromAppThread s) = clock s + 1"
  using assms
  by (simp_all add: UnlockFromAppThread_def rmw_never_locks tick_stays_clear)
     (simp add: DecrAppLockCounter_def)

lemma Pairs_props:
  "kernel_never_locks s \<Longrightarrow> \<not> GetKernelLockBit (entry s) \<Longrightarrow>
   \<exists>s'. LockUnlockPairs n s = Some s' \<and>
        app_lock_counter (entry s') = app_lock_counter (entry s) + of_nat n"
proof (induction n arbitrary: s)
  case 0
  then show ?case by simp
next
  case (Suc n)
  from Lock_clear_props [OF Suc.prems] obtain s1 where
    l: "LockFromAppThread s = Some s1" and n1: "kernel_never_locks s1"
    and b1: "\<not> GetKernelLockBit (entry s1)"
    and c1: "app_lock_counter (entry s1) = app_lock_counter (entry s) + 2" by blast
  let ?s2 = "UnlockFromAppThread s1"
  from Unlock_props [OF n1 b1] have n2: "kernel_never_locks ?s2"
    and b2: "\<not> GetKernelLockBit (entry ?s2)"
    and c2: "app_lock_counter (entry ?s2) = app_lock_counter (entry s1) - 1" by simp_all
  from Suc.IH [OF n2 b2] obtain s' where
    r: "LockUnlockPairs n ?s2 = Some s'"
    and c: "app_lock_counter (entry s') = app_lock_counter (entry ?s2) + of_nat n" by blast
  show ?case using l r c c1 c2 by simp
qed

lemma word8_of_nat_0_iff: "(of_nat n :: 8 word) = 0 \<longleftrightarrow> n mod 256 = 0"
  by (simp add: word_of_nat_eq_0_iff mod_eq_0_iff_dvd)

lemma idle_entry_facts:
  "\<not> GetKernelLockBit (entry idle_entry)" "kernel_never_locks idle_entry"
  "app_lock_counter (entry idle_entry) = 0"
  by (simp_all add: idle_entry_def kernel_never_locks_def bit_defs GetBit_def)

lemma stuck_entry_facts:
  "GetKernelLockBit (entry stuck_entry)" "kernel_never_unlocks stuck_entry"
  by (simp_all add: stuck_entry_def kernel_never_unlocks_def bit_defs GetBit_def)

text \<open>
  C2. On an entry whose kernel-lock bit is clear and is not set by the kernel side,
  LockFromAppThread returns with the lock counter incremented twice, the following
  UnlockFromAppThread decrements it once, and the pair leaves the counter at its value
  before the call plus one (modulo 256), which is not the value before the call.
\<close>

theorem lock_unlock_leaves_counter_plus_one:
  assumes "\<not> GetKernelLockBit (entry s)" and "kernel_never_locks s"
  shows "\<exists>s1. LockFromAppThread s = Some s1 \<and>
           app_lock_counter (entry s1) = app_lock_counter (entry s) + 1 + 1 \<and>
           app_lock_counter (entry (UnlockFromAppThread s1)) = app_lock_counter (entry s1) - 1 \<and>
           app_lock_counter (entry (UnlockFromAppThread s1)) = app_lock_counter (entry s) + 1 \<and>
           app_lock_counter (entry (UnlockFromAppThread s1)) \<noteq> app_lock_counter (entry s)"
proof -
  from Lock_clear_props [OF assms(2) assms(1)] obtain s1 where
    l: "LockFromAppThread s = Some s1" and n1: "kernel_never_locks s1"
    and b1: "\<not> GetKernelLockBit (entry s1)"
    and c1: "app_lock_counter (entry s1) = app_lock_counter (entry s) + 2" by blast
  from Unlock_props [OF n1 b1]
  have c2: "app_lock_counter (entry (UnlockFromAppThread s1)) = app_lock_counter (entry s1) - 1"
    by simp
  show ?thesis using l c1 c2 by simp
qed

text \<open>The idle entry starts at 0: it holds 2 after the lock and 1 after the unlock.\<close>

theorem lock_unlock_leaves_counter_plus_one_witness:
  "\<not> GetKernelLockBit (entry idle_entry) \<and> kernel_never_locks idle_entry \<and>
   (\<exists>s1. LockFromAppThread idle_entry = Some s1 \<and>
      app_lock_counter (entry s1) = 2 \<and>
      app_lock_counter (entry (UnlockFromAppThread s1)) = 1)"
  using lock_unlock_leaves_counter_plus_one [of idle_entry] idle_entry_facts
  by auto

text \<open>
  C8. LockFromAppThread has no exit but the kernel-lock bit being observed clear. On an
  entry whose bit is set and is never cleared by the kernel side the first wait never
  returns, and so the lock never returns; on an entry whose bit is clear and is never set
  the lock returns.
\<close>

theorem lock_spins_forever_or_returns:
  "(GetKernelLockBit (entry s) \<and> kernel_never_unlocks s \<longrightarrow>
      SpinWhileKernelLock s = None \<and> LockFromAppThread s = None) \<and>
   (\<not> GetKernelLockBit (entry s) \<and> kernel_never_locks s \<longrightarrow>
      (\<exists>s'. LockFromAppThread s = Some s'))"
  using Spin_stuck [of s] Lock_stuck [of s] Lock_clear [of s] by blast

text \<open>The kernel-locked entry with an idle kernel hangs; the unlocked one returns.\<close>

theorem lock_spins_forever_or_returns_witness:
  "GetKernelLockBit (entry stuck_entry) \<and> kernel_never_unlocks stuck_entry \<and>
   SpinWhileKernelLock stuck_entry = None \<and> LockFromAppThread stuck_entry = None \<and>
   \<not> GetKernelLockBit (entry idle_entry) \<and> kernel_never_locks idle_entry \<and>
   (\<exists>s'. LockFromAppThread idle_entry = Some s')"
  using lock_spins_forever_or_returns [of stuck_entry]
    lock_spins_forever_or_returns [of idle_entry] idle_entry_facts stuck_entry_facts
  by blast

text \<open>
  C10. The lock counter is eight bits wide and wraps: decrementing 0 gives 255, in
  DecrAppLockCounter and so in UnlockFromAppThread; \<open>n\<close> uncontended Lock/Unlock pairs
  add \<open>n\<close> modulo 256, so the counter is back at its starting value exactly when \<open>n\<close>
  is a multiple of 256, for the first time after 256 pairs.
\<close>

theorem app_lock_counter_wraps_mod_256:
  "(app_lock_counter e = 0 \<longrightarrow> app_lock_counter (DecrAppLockCounter e) = 255) \<and>
   (app_lock_counter (entry u) = 0 \<longrightarrow> app_lock_counter (entry (UnlockFromAppThread u)) = 255) \<and>
   (\<not> GetKernelLockBit (entry s) \<and> kernel_never_locks s \<longrightarrow>
      (\<exists>s'. LockUnlockPairs n s = Some s' \<and>
         unat (app_lock_counter (entry s')) = (unat (app_lock_counter (entry s)) + n) mod 256 \<and>
         (app_lock_counter (entry s') = app_lock_counter (entry s) \<longleftrightarrow> n mod 256 = 0)))"
proof -
  have a: "app_lock_counter e = 0 \<longrightarrow> app_lock_counter (DecrAppLockCounter e) = 255"
    by (simp add: DecrAppLockCounter_def)
  have b: "app_lock_counter (entry u) = 0 \<longrightarrow>
      app_lock_counter (entry (UnlockFromAppThread u)) = 255"
    by (simp add: UnlockFromAppThread_def DecrAppLockCounter_def)
  have c: "\<exists>s'. LockUnlockPairs n s = Some s' \<and>
         unat (app_lock_counter (entry s')) = (unat (app_lock_counter (entry s)) + n) mod 256 \<and>
         (app_lock_counter (entry s') = app_lock_counter (entry s) \<longleftrightarrow> n mod 256 = 0)"
    if h: "\<not> GetKernelLockBit (entry s)" "kernel_never_locks s"
  proof -
    from Pairs_props [OF h(2) h(1), of n] obtain s' where
      r: "LockUnlockPairs n s = Some s'"
      and c: "app_lock_counter (entry s') = app_lock_counter (entry s) + of_nat n" by blast
    have 1: "unat (app_lock_counter (entry s')) = (unat (app_lock_counter (entry s)) + n) mod 256"
      unfolding c by (simp add: unat_word_ariths unat_of_nat mod_simps)
    have 2: "app_lock_counter (entry s') = app_lock_counter (entry s) \<longleftrightarrow> n mod 256 = 0"
      unfolding c by (simp add: word8_of_nat_0_iff)
    show ?thesis by (rule exI [of _ s']) (intro conjI r 1 2)
  qed
  from a b c show ?thesis by blast
qed

text \<open>On the idle entry: 0 after 256 pairs, not 0 after 255.\<close>

theorem app_lock_counter_wraps_mod_256_witness:
  "app_lock_counter (entry idle_entry) = 0 \<and>
   app_lock_counter (DecrAppLockCounter (entry idle_entry)) = 255 \<and>
   app_lock_counter (entry (UnlockFromAppThread idle_entry)) = 255 \<and>
   \<not> GetKernelLockBit (entry idle_entry) \<and> kernel_never_locks idle_entry \<and>
   (\<exists>s'. LockUnlockPairs 256 idle_entry = Some s' \<and> app_lock_counter (entry s') = 0) \<and>
   (\<exists>s'. LockUnlockPairs 255 idle_entry = Some s' \<and> app_lock_counter (entry s') \<noteq> 0)"
  using app_lock_counter_wraps_mod_256 [of "entry idle_entry" idle_entry idle_entry 256]
    app_lock_counter_wraps_mod_256 [of "entry idle_entry" idle_entry idle_entry 255]
    idle_entry_facts
  by auto

section \<open>Properties of the field accessors\<close>

subsection \<open>Offsets inside the header\<close>

lemma GetFieldByte_header:
  "unat field_offset < sizeof_Object \<Longrightarrow>
   GetFieldByte sizeof_Object this field_offset h = Some (GetFieldPrimitive8 this field_offset h, h)"
  by (subst GetFieldByte.simps) simp

lemma GetFieldChar_header:
  "unat field_offset < sizeof_Object \<Longrightarrow>
   GetFieldChar sizeof_Object this field_offset h = Some (GetFieldPrimitive16 this field_offset h, h)"
  by (subst GetFieldChar.simps) simp

lemma GetFieldShort_header:
  "unat field_offset < sizeof_Object \<Longrightarrow>
   GetFieldShort sizeof_Object this field_offset h = Some (GetFieldPrimitive16 this field_offset h, h)"
  by (subst GetFieldShort.simps) simp

lemma GetFieldObject_header:
  "unat field_offset < sizeof_Object \<Longrightarrow>
   GetFieldObject sizeof_Object this field_offset h =
     Some (GetFieldPrimitive32 this field_offset h,
           if GetIgnoreReadFlag this h then h else SetReadBit this h)"
  by (subst GetFieldObject.simps)
     (simp add: GetFieldPrimitive32_def SetReadBit_def update_object_def)

lemma GetFieldObjectReferenceAddr_header:
  "unat field_offset < sizeof_Object \<Longrightarrow>
   GetFieldObjectReferenceAddr sizeof_Object this field_offset h = Some ((this, field_offset), h)"
  by (subst GetFieldObjectReferenceAddr.simps) simp

lemma SetFieldBoolean_header:
  "unat field_offset < sizeof_Object \<Longrightarrow>
   SetFieldBoolean GetFieldBoolean kTransactionActive kIsVolatile sizeof_Object this field_offset
       new_value h =
     (if kTransactionActive then
        do {
          (old_value, h') \<leftarrow> GetFieldBoolean this field_offset h;
          Some (SetFieldPrimitive8 this field_offset new_value
                  (log (RecordWriteFieldBoolean this field_offset old_value kIsVolatile) h'))
        }
      else Some (SetFieldPrimitive8 this field_offset new_value h))"
  by (subst SetFieldBoolean.simps) (simp split: prod.splits bind_splits)

lemma SetFieldByte_header:
  "unat field_offset < sizeof_Object \<Longrightarrow>
   SetFieldByte kTransactionActive kIsVolatile sizeof_Object this field_offset new_value h =
     Some (SetFieldPrimitive8 this field_offset new_value
            (if kTransactionActive
             then log (RecordWriteFieldByte this field_offset
                         (GetFieldPrimitive8 this field_offset h) kIsVolatile) h
             else h))"
  by (subst SetFieldByte.simps) (simp add: GetFieldByte_header)

lemma SetFieldChar_header:
  "unat field_offset < sizeof_Object \<Longrightarrow>
   SetFieldChar kTransactionActive kIsVolatile sizeof_Object this field_offset new_value h =
     Some (SetFieldPrimitive16 this field_offset new_value
            (if kTransactionActive
             then log (RecordWriteFieldChar this field_offset
                         (GetFieldPrimitive16 this field_offset h) kIsVolatile) h
             else h))"
  by (subst SetFieldChar.simps) (simp add: GetFieldChar_header)

lemma SetFieldShort_header:
  "unat field_offset < sizeof_Object \<Longrightarrow>
   SetFieldShort kTransactionActive kIsVolatile sizeof_Object this field_offset new_value h =
     Some (SetFieldPrimitive16 this field_offset new_value
            (if kTransactionActive
             then log (RecordWriteFieldChar this field_offset
                         (GetFieldPrimitive16 this field_offset h) kIsVolatile) h
             else h))"
  by (subst SetFieldShort.simps) (simp add: GetFieldShort_header)

lemma SetField32_header:
  "unat field_offset < sizeof_Object \<Longrightarrow>
   SetField32 GetField32 kTransactionActive kIsVolatile sizeof_Object this field_offset
       new_value h =
     (if kTransactionActive then
        do {
          (old_value, h') \<leftarrow> GetField32 this field_offset h;
          Some (SetFieldPrimitive32 this field_offset new_value
                  (log (RecordWriteField32 this field_offset old_value kIsVolatile) h'))
        }
      else Some (SetFieldPrimitive32 this field_offset new_value h))"
  by (subst SetField32.simps) (simp split: prod.splits bind_splits)

lemma SetField64_header:
  "unat field_offset < sizeof_Object \<Longrightarrow>
   SetField64 GetField64 kTransactionActive kIsVolatile sizeof_Object this field_offset
       new_value h =
     (if kTransactionActive then
        do {
          (old_value, h') \<leftarrow> GetField64 this field_offset h;
          Some (SetFieldPrimitive64 this field_offset new_value
                  (log (RecordWriteField64 this field_offset old_value kIsVolatile) h'))
        }
      else Some (SetFieldPrimitive64 this field_offset new_value h))"
  by (subst SetField64.simps) (simp split: prod.splits bind_splits)

lemma SetField64Volatile_header:
  "unat field_offset < sizeof_Object \<Longrightarrow>
   SetField64Volatile GetField64 kTransactionActive sizeof_Object this field_offset new_value h =
     (if kTransactionActive then
        do {
          (old_value, h') \<leftarrow> GetField64 this field_offset h;
          Some (SetFieldPrimitive64 this field_offset new_value
                  (log (RecordWriteField64 this field_offset old_value True) h'))
        }
      else Some (SetFieldPrimitive64 this field_offset new_value h))"
  by (subst SetField64Volatile.simps) (simp add: SetField64_header)

lemma CasFieldWeakSequentiallyConsistent64_header:
  "unat field_offset < sizeof_Object \<Longrightarrow>
   CasFieldWeakSequentiallyConsistent64 spurious kTransactionActive sizeof_Object this
       field_offset old_value new_value h =
     Some (CompareAndSet64 spurious this field_offset old_value new_value
            (if kTransactionActive
             then log (RecordWriteField64 this field_offset old_value True) h else h))"
  by (subst CasFieldWeakSequentiallyConsistent64.simps) simp

lemma CasFieldStrongSequentiallyConsistent64_header:
  "unat field_offset < sizeof_Object \<Longrightarrow>
   CasFieldStrongSequentiallyConsistent64 kTransactionActive sizeof_Object this
       field_offset old_value new_value h =
     Some (CompareAndSet64 False this field_offset old_value new_value
            (if kTransactionActive
             then log (RecordWriteField64 this field_offset old_value True) h else h))"
  by (subst CasFieldStrongSequentiallyConsistent64.simps) simp

subsection \<open>The handshake under contention\<close>

lemma lock_bit_fold:
  "GetKernelLockBit e = GetKernelLockBit e' \<Longrightarrow>
   GetKernelLockBit (fold kernel_step ops e) = GetKernelLockBit (fold kernel_step ops e')"
  by (induction ops arbitrary: e e') (simp_all add: kernel_step_lock_bit)

lemma funpow_tick_simps [simp]:
  "kernel ((tick ^^ j) s) = kernel s" "clock ((tick ^^ j) s) = clock s + j"
  by (induction j) simp_all

lemma kernel_lock_at_Suc: "kernel_lock_at s (Suc n) = kernel_lock_at (tick s) n"
  by (simp add: kernel_lock_at_def funpow_swap1)

lemma kernel_lock_at_cong:
  "kernel s = kernel s' \<Longrightarrow> clock s = clock s' \<Longrightarrow>
   GetKernelLockBit (entry s) = GetKernelLockBit (entry s') \<Longrightarrow>
   kernel_lock_at s n = kernel_lock_at s' n"
proof (induction n arbitrary: s s')
  case 0
  then show ?case by (simp add: kernel_lock_at_def)
next
  case (Suc n)
  have "GetKernelLockBit (fold kernel_step (kernel s (clock s)) (entry s)) =
        GetKernelLockBit (fold kernel_step (kernel s (clock s)) (entry s'))"
    using Suc.prems(3) by (rule lock_bit_fold)
  then have "GetKernelLockBit (entry (tick s)) = GetKernelLockBit (entry (tick s'))"
    using Suc.prems(1,2) by (simp add: tick_def)
  with Suc.prems have "kernel_lock_at (tick s) n = kernel_lock_at (tick s') n"
    by (intro Suc.IH) simp_all
  then show ?case by (simp add: kernel_lock_at_Suc)
qed

lemma kernel_releases_cong:
  "kernel s = kernel s' \<Longrightarrow> clock s = clock s' \<Longrightarrow>
   GetKernelLockBit (entry s) = GetKernelLockBit (entry s') \<Longrightarrow>
   kernel_releases s = kernel_releases s'"
  by (simp add: kernel_releases_def kernel_lock_at_cong [of s s'])

lemma kernel_releases_tick:
  assumes "kernel_releases s"
  shows "kernel_releases (tick s)"
  unfolding kernel_releases_def
proof
  fix n
  from assms obtain m where m: "Suc n \<le> m" "\<not> kernel_lock_at s (Suc m)"
    unfolding kernel_releases_def by blast
  then obtain m' where m': "m = Suc m'" by (cases m) auto
  with m have "n \<le> m'" "\<not> kernel_lock_at (tick s) (Suc m')"
    by (simp_all add: kernel_lock_at_Suc)
  then show "\<exists>m\<ge>n. \<not> kernel_lock_at (tick s) (Suc m)" by blast
qed

lemma kernel_releases_back:
  assumes "kernel_releases (tick s)"
  shows "kernel_releases s"
  unfolding kernel_releases_def
proof
  fix n
  from assms obtain m where m: "n \<le> m" "\<not> kernel_lock_at (tick s) (Suc m)"
    unfolding kernel_releases_def by blast
  then have "n \<le> Suc m" "\<not> kernel_lock_at s (Suc (Suc m))"
    by (simp_all add: kernel_lock_at_Suc)
  then show "\<exists>m\<ge>n. \<not> kernel_lock_at s (Suc m)" by blast
qed

lemma kernel_releases_funpow_back:
  "kernel_releases ((tick ^^ j) s) \<Longrightarrow> kernel_releases s"
proof (induction j arbitrary: s)
  case 0
  then show ?case by simp
next
  case (Suc j)
  from Suc.prems have "kernel_releases ((tick ^^ j) (tick s))" by (simp add: funpow_swap1)
  then have "kernel_releases (tick s)" by (rule Suc.IH)
  then show ?case by (rule kernel_releases_back)
qed

lemma kernel_releases_rmw:
  assumes "\<And>e. GetKernelLockBit (f e) = GetKernelLockBit e" "kernel_releases s"
  shows "kernel_releases (atomic_rmw f s)"
proof -
  have "kernel_releases (atomic_rmw f s) = kernel_releases (tick s)"
    by (rule kernel_releases_cong) (simp_all add: assms(1))
  with kernel_releases_tick [OF assms(2)] show ?thesis by simp
qed

lemma never_locks_lock_at:
  "kernel_never_locks s \<Longrightarrow> \<not> GetKernelLockBit (entry s) \<Longrightarrow> \<not> kernel_lock_at s n"
proof (induction n arbitrary: s)
  case 0
  then show ?case by (simp add: kernel_lock_at_def)
next
  case (Suc n)
  from Suc.prems have "\<not> kernel_lock_at (tick s) n"
    by (intro Suc.IH tick_never_locks tick_stays_clear)
  then show ?case by (simp add: kernel_lock_at_Suc)
qed

lemma never_locks_releases:
  "kernel_never_locks s \<Longrightarrow> \<not> GetKernelLockBit (entry s) \<Longrightarrow> kernel_releases s"
  unfolding kernel_releases_def using never_locks_lock_at by blast

lemma Spin_returns:
  "\<not> kernel_lock_at s (Suc m) \<Longrightarrow> \<exists>j. SpinWhileKernelLock s = Some ((tick ^^ Suc j) s)"
proof (induction m arbitrary: s)
  case 0
  then have "\<not> GetKernelLockBit (entry (tick s))" by (simp add: kernel_lock_at_def)
  then have "SpinWhileKernelLock s = Some ((tick ^^ Suc 0) s)"
    by (subst SpinWhileKernelLock.simps) (simp add: Let_def)
  then show ?case by blast
next
  case (Suc m)
  show ?case
  proof (cases "GetKernelLockBit (entry (tick s))")
    case False
    then have "SpinWhileKernelLock s = Some ((tick ^^ Suc 0) s)"
      by (subst SpinWhileKernelLock.simps) (simp add: Let_def)
    then show ?thesis by blast
  next
    case True
    from Suc.prems have "\<not> kernel_lock_at (tick s) (Suc m)" by (simp add: kernel_lock_at_Suc)
    from Suc.IH [OF this] obtain j where
      j: "SpinWhileKernelLock (tick s) = Some ((tick ^^ Suc j) (tick s))" by blast
    have "SpinWhileKernelLock s = SpinWhileKernelLock (tick s)"
      using True by (subst SpinWhileKernelLock.simps) (simp add: Let_def)
    with j have "SpinWhileKernelLock s = Some ((tick ^^ Suc (Suc j)) s)"
      by (simp add: funpow_swap1)
    then show ?thesis by blast
  qed
qed

text \<open>A kernel side that only contends for the lock leaves the payload where it is.\<close>

lemma contends_fold:
  "set ops \<subseteq> {KSetKernelLock, KClearKernelLock} \<Longrightarrow>
   GetResidentBit (fold kernel_step ops e) = GetResidentBit e \<and>
   GetObjectAddress (fold kernel_step ops e) = GetObjectAddress e"
proof (induction ops arbitrary: e)
  case Nil
  show ?case by simp
next
  case (Cons k ops)
  from Cons.prems have k: "k = KSetKernelLock \<or> k = KClearKernelLock" by simp
  have r: "GetResidentBit (kernel_step k e) = GetResidentBit e"
    using k by (auto simp add: bit_defs GetBit_SetBit GetBit_ClearBit)
  have a: "GetObjectAddress (kernel_step k e) = GetObjectAddress e"
    using k by (auto simp add: bit_defs GetObjectAddress_def SetBit_def ClearBit_def)
  from Cons.prems have "set ops \<subseteq> {KSetKernelLock, KClearKernelLock}" by simp
  from Cons.IH [OF this, of "kernel_step k e"] r a show ?case by simp
qed

lemma tick_contended:
  assumes "kernel_releases s" "kernel_only_contends s"
  shows "kernel_releases (tick s) \<and> kernel_only_contends (tick s) \<and>
     GetResidentBit (entry (tick s)) = GetResidentBit (entry s) \<and>
     GetObjectAddress (entry (tick s)) = GetObjectAddress (entry s)"
proof -
  from assms(2) have "set (kernel s (clock s)) \<subseteq> {KSetKernelLock, KClearKernelLock}"
    by (simp add: kernel_only_contends_def)
  from contends_fold [OF this, of "entry s"]
  have "GetResidentBit (entry (tick s)) = GetResidentBit (entry s)"
    "GetObjectAddress (entry (tick s)) = GetObjectAddress (entry s)"
    by (simp_all add: tick_def)
  moreover have "kernel_only_contends (tick s)"
    using assms(2) by (simp add: kernel_only_contends_def)
  ultimately show ?thesis using kernel_releases_tick [OF assms(1)] by simp
qed

lemma funpow_tick_contended:
  "kernel_releases s \<Longrightarrow> kernel_only_contends s \<Longrightarrow>
   kernel_releases ((tick ^^ j) s) \<and> kernel_only_contends ((tick ^^ j) s) \<and>
   GetResidentBit (entry ((tick ^^ j) s)) = GetResidentBit (entry s) \<and>
   GetObjectAddress (entry ((tick ^^ j) s)) = GetObjectAddress (entry s)"
proof (induction j)
  case 0
  then show ?case by simp
next
  case (Suc j)
  from Suc have i: "kernel_releases ((tick ^^ j) s)" "kernel_only_contends ((tick ^^ j) s)"
    "GetResidentBit (entry ((tick ^^ j) s)) = GetResidentBit (entry s)"
    "GetObjectAddress (entry ((tick ^^ j) s)) = GetObjectAddress (entry s)" by simp_all
  from tick_contended [OF i(1) i(2)] i(3) i(4) show ?case by simp
qed

lemma rmw_contended:
  assumes "\<And>e. GetKernelLockBit (f e) = GetKernelLockBit e"
    and "kernel_releases s" "kernel_only_contends s"
  shows "kernel_releases (atomic_rmw f s) \<and> kernel_only_contends (atomic_rmw f s) \<and>
     entry (atomic_rmw f s) = f (entry (tick s)) \<and>
     GetResidentBit (entry (tick s)) = GetResidentBit (entry s) \<and>
     GetObjectAddress (entry (tick s)) = GetObjectAddress (entry s)"
proof -
  have "kernel_only_contends (atomic_rmw f s)"
    using assms(3) by (simp add: kernel_only_contends_def)
  with kernel_releases_rmw [of f s, OF assms(1) assms(2)] tick_contended [OF assms(2) assms(3)]
  show ?thesis by simp
qed

lemma flag_simps [simp]:
  "GetKernelLockBit (SetResidentBit e) = GetKernelLockBit e"
  "GetKernelLockBit (SetObjectAddress a e) = GetKernelLockBit e"
  "GetResidentBit (SetResidentBit e) = True"
  "GetResidentBit (SetObjectAddress a e) = GetResidentBit e"
  "GetResidentBit (IncrAppLockCounter e) = GetResidentBit e"
  "GetResidentBit (DecrAppLockCounter e) = GetResidentBit e"
  "GetObjectAddress (SetResidentBit e) = GetObjectAddress e"
  "GetObjectAddress (SetObjectAddress a e) = a"
  "GetObjectAddress (IncrAppLockCounter e) = GetObjectAddress e"
  "GetObjectAddress (DecrAppLockCounter e) = GetObjectAddress e"
  "app_lock_counter (SetResidentBit e) = app_lock_counter e"
  "app_lock_counter (SetObjectAddress a e) = app_lock_counter e"
  "app_lock_counter (IncrAppLockCounter e) = app_lock_counter e + 1"
  "app_lock_counter (DecrAppLockCounter e) = app_lock_counter e - 1"
  by (simp_all add: bit_defs GetBit_SetBit, simp_all add: GetBit_def SetBit_def SetObjectAddress_def
      GetObjectAddress_def IncrAppLockCounter_def DecrAppLockCounter_def)

lemma Spin_contended:
  assumes "kernel_releases s" "kernel_only_contends s"
  shows "\<exists>s'. SpinWhileKernelLock s = Some s' \<and> kernel_releases s' \<and>
     kernel_only_contends s' \<and>
     GetResidentBit (entry s') = GetResidentBit (entry s) \<and>
     GetObjectAddress (entry s') = GetObjectAddress (entry s)"
proof -
  from assms(1) obtain m where "\<not> kernel_lock_at s (Suc m)"
    unfolding kernel_releases_def by blast
  from Spin_returns [OF this] obtain j where
    "SpinWhileKernelLock s = Some ((tick ^^ Suc j) s)" by blast
  with funpow_tick_contended [OF assms, of "Suc j"] show ?thesis by blast
qed

text \<open>The handshake returns when the kernel side releases the lock, and a kernel side
  that only contends for it has left the payload where it was.\<close>

lemma Lock_contended:
  assumes "kernel_releases s" "kernel_only_contends s"
  shows "\<exists>s'. LockFromAppThread s = Some s' \<and> kernel_releases s' \<and>
     kernel_only_contends s' \<and>
     GetResidentBit (entry s') = GetResidentBit (entry s) \<and>
     GetObjectAddress (entry s') = GetObjectAddress (entry s)"
proof -
  from Spin_contended [OF assms] obtain s1 where
    1: "SpinWhileKernelLock s = Some s1" and r1: "kernel_releases s1"
    and c1: "kernel_only_contends s1"
    and p1: "GetResidentBit (entry s1) = GetResidentBit (entry s)"
      "GetObjectAddress (entry s1) = GetObjectAddress (entry s)" by blast
  let ?s2 = "atomic_rmw IncrAppLockCounter s1"
  from rmw_contended [of IncrAppLockCounter s1, OF _ r1 c1]
  have r2: "kernel_releases ?s2" and c2: "kernel_only_contends ?s2"
    and p2: "GetResidentBit (entry ?s2) = GetResidentBit (entry s1)"
      "GetObjectAddress (entry ?s2) = GetObjectAddress (entry s1)" by simp_all
  from Spin_contended [OF r2 c2] obtain s3 where
    3: "SpinWhileKernelLock ?s2 = Some s3" and r3: "kernel_releases s3"
    and c3: "kernel_only_contends s3"
    and p3: "GetResidentBit (entry s3) = GetResidentBit (entry ?s2)"
      "GetObjectAddress (entry s3) = GetObjectAddress (entry ?s2)" by blast
  let ?s4 = "atomic_rmw IncrAppLockCounter s3"
  from rmw_contended [of IncrAppLockCounter s3, OF _ r3 c3]
  have r4: "kernel_releases ?s4" and c4: "kernel_only_contends ?s4"
    and p4: "GetResidentBit (entry ?s4) = GetResidentBit (entry s3)"
      "GetObjectAddress (entry ?s4) = GetObjectAddress (entry s3)" by simp_all
  have "LockFromAppThread s = Some ?s4" by (simp add: LockFromAppThread_def 1 3)
  with r4 c4 p1 p2 p3 p4 show ?thesis by simp
qed

lemma Unlock_contended:
  assumes "kernel_releases s" "kernel_only_contends s"
  shows "kernel_releases (UnlockFromAppThread s) \<and>
     kernel_only_contends (UnlockFromAppThread s) \<and>
     GetResidentBit (entry (UnlockFromAppThread s)) = GetResidentBit (entry s) \<and>
     GetObjectAddress (entry (UnlockFromAppThread s)) = GetObjectAddress (entry s)"
  using rmw_contended [of DecrAppLockCounter s, OF _ assms]
  by (simp add: UnlockFromAppThread_def)

text \<open>Whatever the kernel side does, a handshake that returns has added two to the lock
  counter.\<close>

lemma Spin_keeps:
  assumes "SpinWhileKernelLock s = Some r"
  shows "app_lock_counter (entry r) = app_lock_counter (entry s) \<and> kernel r = kernel s"
proof (rule SpinWhileKernelLock.raw_induct
    [where P = "\<lambda>s r. app_lock_counter (entry r) = app_lock_counter (entry s) \<and>
                        kernel r = kernel s", OF _ assms])
  fix spin :: "SharedEntry \<Rightarrow> SharedEntry option" and s r
  assume IH: "\<And>s r. spin s = Some r \<Longrightarrow>
      app_lock_counter (entry r) = app_lock_counter (entry s) \<and> kernel r = kernel s"
    and step: "(let s' = tick s in if GetKernelLockBit (entry s') then spin s' else Some s') = Some r"
  show "app_lock_counter (entry r) = app_lock_counter (entry s) \<and> kernel r = kernel s"
  proof (cases "GetKernelLockBit (entry (tick s))")
    case True
    with step have "spin (tick s) = Some r" by (simp add: Let_def)
    from IH [OF this] show ?thesis by simp
  next
    case False
    with step have "r = tick s" by (simp add: Let_def)
    then show ?thesis by simp
  qed
qed

lemma Lock_counter:
  assumes "LockFromAppThread s = Some s1"
  shows "app_lock_counter (entry s1) = app_lock_counter (entry s) + 2"
proof -
  from assms obtain sa sc where
    a: "SpinWhileKernelLock s = Some sa"
    and c: "SpinWhileKernelLock (atomic_rmw IncrAppLockCounter sa) = Some sc"
    and r: "s1 = atomic_rmw IncrAppLockCounter sc"
    by (auto simp add: LockFromAppThread_def Let_def split: bind_splits)
  from Spin_keeps [OF a] Spin_keeps [OF c] show ?thesis unfolding r by simp
qed

subsection \<open>The protocol on a stub\<close>

lemma log_simps [simp]:
  "objects (log ev h) = objects h" "table (log ev h) = table h"
  "swap_file (log ev h) = swap_file h" "stub_image (log ev h) = stub_image h"
  "trace (log ev h) = trace h @ [ev]"
  by (simp_all add: log_def)

lemma update_object_simps [simp]:
  "objects (update_object a f h) = (objects h)(a := f (objects h a))"
  "table (update_object a f h) = table h"
  "swap_file (update_object a f h) = swap_file h"
  "stub_image (update_object a f h) = stub_image h"
  "trace (update_object a f h) = trace h"
  by (simp_all add: update_object_def)

lemma Stub_GetTableEntry_simps [simp]:
  "Stub_GetTableEntry this (log ev h) = Stub_GetTableEntry this h"
  "Stub_GetTableEntry this (h\<lparr>table := t\<rparr>) = Stub_GetTableEntry this h"
  "Stub_GetTableEntry this (h\<lparr>trace := tr\<rparr>) = Stub_GetTableEntry this h"
  "Stub_GetTableEntry this (h\<lparr>swap_file := sf\<rparr>) = Stub_GetTableEntry this h"
  by (simp_all add: Stub_GetTableEntry_def)

text \<open>
  The part of the protocol before the forwarded call, whatever the kernel side does:
  given the entry \<open>s1\<close> that the handshake returns, the resident bit is loaded from it,
  and the swap-in is made exactly when that load finds the bit clear.
\<close>

lemma enter_general:
  assumes k: "k = Stub_GetTableEntry this h"
    and L: "LockFromAppThread (table h k) = Some s1"
    and a: "a = payload_address_at (entry (tick s1)) k h"
    and p: "p = payload_object_at (entry (tick s1)) k h"
    and ne: "a \<noteq> this"
  shows "\<exists>h3. SwapPreambleEnter this h = Some h3 \<and>
     objects h3 = (objects h)(a := p) \<and>
     swap_file h3 = swap_file h \<and> stub_image h3 = stub_image h \<and>
     trace h3 = trace h @ LockTableEntryCall this #
        (if GetResidentBit (entry (tick s1)) then [] else [SwapInOnDemandCall this]) \<and>
     table h3 = (table h)(k := entry_after_load (tick s1) k h) \<and>
     Stub_GetTableEntry this h3 = k \<and> Stub_GetObjectAddress this h3 = a"
proof -
  let ?h1 = "log (LockTableEntryCall this) (h\<lparr>table := (table h)(k := s1)\<rparr>)"
  have L1: "Stub_LockTableEntry this h = Some ?h1"
    using L by (simp add: Stub_LockTableEntry_def Let_def k)
  let ?h2 = "?h1\<lparr>table := (table ?h1)(k := tick s1)\<rparr>"
  have R: "Stub_LoadResidentBit this ?h1 = (GetResidentBit (entry (tick s1)), ?h2)"
    by (simp add: Stub_LoadResidentBit_def Let_def k)
  show ?thesis
  proof (cases "GetResidentBit (entry (tick s1))")
    case True
    then have E: "SwapPreambleEnter this h = Some ?h2"
      by (simp add: SwapPreambleEnter_def L1 R)
    have ap: "a = GetObjectAddress (entry (tick s1))" "p = objects h a"
      using True by (simp_all add: a p payload_address_at_def payload_object_at_def)
    have ob: "(objects h)(a := p) = objects h"
      unfolding ap(2) by (rule fun_upd_triv)
    have ga: "GetObjectAddress (entry (tick s1)) = a" using ap(1) by simp
    show ?thesis
      unfolding E using True
      by (simp add: ob entry_after_load_def Stub_GetObjectAddress_def k [symmetric] ga)
  next
    case False
    let ?h3 = "SwapInOnDemand this ?h2"
    from False have E: "SwapPreambleEnter this h = Some ?h3"
      by (simp add: SwapPreambleEnter_def L1 R)
    have ap: "a = fst (swap_file h k)" "p = snd (swap_file h k)"
      using False by (simp_all add: a p payload_address_at_def payload_object_at_def)
    have sf: "swap_file h k = (a, p)" by (simp add: ap)
    have S: "?h3 = log (SwapInOnDemandCall this)
        (?h2\<lparr>objects := (objects ?h2)(a := p),
              table := (table ?h2)(k := atomic_rmw (SetResidentBit \<circ> SetObjectAddress a) (tick s1))\<rparr>)"
      by (simp add: SwapInOnDemand_def Let_def k [symmetric] sf)
    have f: "objects ?h3 = (objects h)(a := p)" "swap_file ?h3 = swap_file h"
      "stub_image ?h3 = stub_image h"
      "trace ?h3 = trace h @ [LockTableEntryCall this, SwapInOnDemandCall this]"
      "table ?h3 = (table h)(k := atomic_rmw (SetResidentBit \<circ> SetObjectAddress a) (tick s1))"
      unfolding S by simp_all
    have k3: "Stub_GetTableEntry this ?h3 = k"
      unfolding Stub_GetTableEntry_def f(1) using ne by (simp add: k Stub_GetTableEntry_def)
    have a3: "Stub_GetObjectAddress this ?h3 = a"
      unfolding Stub_GetObjectAddress_def k3 f(5) by simp
    have eal: "entry_after_load (tick s1) k h =
        atomic_rmw (SetResidentBit \<circ> SetObjectAddress a) (tick s1)"
      using False by (simp add: entry_after_load_def ap(1))
    have tr: "trace h @ LockTableEntryCall this #
        (if GetResidentBit (entry (tick s1)) then [] else [SwapInOnDemandCall this]) =
        trace h @ [LockTableEntryCall this, SwapInOnDemandCall this]"
      using False by simp
    show ?thesis
      unfolding E
      apply (rule exI [of _ ?h3])
      apply (intro conjI)
      apply (rule refl)
      apply (rule f)+
      apply (simp only: tr f)
      apply (simp only: eal f)
      apply (rule k3)
      apply (rule a3)
      done
  qed
qed

lemma exit_props:
  "objects (SwapPreambleExit this h) =
     (objects h)(this := (stub_image h (objects h this) (objects h (Stub_GetObjectAddress this h)))
        \<lparr>stub_flag := True, table_entry := Stub_GetTableEntry this h\<rparr>)"
  "table (SwapPreambleExit this h) =
     (table h)(Stub_GetTableEntry this h := UnlockFromAppThread (table h (Stub_GetTableEntry this h)))"
  "swap_file (SwapPreambleExit this h) = swap_file h"
  "stub_image (SwapPreambleExit this h) = stub_image h"
  "trace (SwapPreambleExit this h) =
     trace h @ [PopulateFromCall this (Stub_GetObjectAddress this h), UnlockTableEntryCall this]"
  by (simp_all add: SwapPreambleExit_def Stub_UnlockTableEntry_def Stub_PopulateFrom_def Let_def
      Stub_GetTableEntry_def)

text \<open>The written-out protocol of SetFieldObjectWithoutWriteBarrier is the preamble.\<close>

lemma SetFieldObjectWithoutWriteBarrier_stub:
  "GetStubFlag this h \<Longrightarrow>
   SetFieldObjectWithoutWriteBarrier kTransactionActive kIsVolatile sizeof_Object this field_offset
       new_value h =
     do {
       h3 \<leftarrow> SwapPreambleEnter this h;
       h4 \<leftarrow> SetFieldObjectWithoutWriteBarrier kTransactionActive kIsVolatile sizeof_Object
               (Stub_GetObjectAddress this h3) field_offset new_value h3;
       Some (SwapPreambleExit this h4)
     }"
  by (subst SetFieldObjectWithoutWriteBarrier.simps)
     (simp add: SwapPreambleEnter_def SwapPreambleExit_def Let_def split: prod.splits bind_splits)

lemma GetFieldObject_plain:
  "\<not> GetStubFlag this h \<Longrightarrow>
   GetFieldObject sizeof_Object this field_offset h =
     Some (field32 (objects h this) field_offset,
           if ignore_read_flag (objects h this) then h else SetReadBit this h)"
  by (subst GetFieldObject.simps)
     (simp add: GetFieldPrimitive32_def SetReadBit_def GetIgnoreReadFlag_def)

lemma SetFieldObjectWithoutWriteBarrier_plain:
  assumes "\<not> GetStubFlag this h"
  shows "\<exists>h'. SetFieldObjectWithoutWriteBarrier kTransactionActive kIsVolatile sizeof_Object this
       field_offset new_value h = Some h' \<and>
     objects h' = (objects h)(this := written_object kTransactionActive field_offset new_value
                                        (objects h this)) \<and>
     table h' = table h \<and> swap_file h' = swap_file h \<and> stub_image h' = stub_image h \<and>
     trace h' = trace h @
       (if kTransactionActive
        then [RecordWriteFieldReference this field_offset (field32 (objects h this) field_offset) True]
        else []) @ [AssignReference this field_offset new_value]"
  using assms
  by (subst SetFieldObjectWithoutWriteBarrier.simps)
     (simp add: GetFieldObjectVolatile_def GetFieldObject_plain written_object_def
        SetDirtyBit_def SetWriteBit_def SetFieldPrimitive32_def SetReadBit_def)

lemma GetFieldObject_stub:
  "sizeof_Object \<le> unat field_offset \<Longrightarrow> GetStubFlag this h \<Longrightarrow>
   GetFieldObject sizeof_Object this field_offset h =
     do {
       h1 \<leftarrow> SwapPreambleEnter this h;
       (result, h2) \<leftarrow> GetFieldObject sizeof_Object (Stub_GetObjectAddress this h1) field_offset h1;
       Some (result, SwapPreambleExit this h2)
     }"
  by (subst GetFieldObject.simps) simp

text \<open>
  The write on a stub whose handshake returns \<open>s1\<close> and whose payload, as found after
  the handshake, is an ordinary object at another address: the heap it returns.
\<close>

lemma SetFieldObjectWithoutWriteBarrier_general:
  assumes stub: "GetStubFlag this h"
    and k: "k = Stub_GetTableEntry this h"
    and L: "LockFromAppThread (table h k) = Some s1"
    and a: "a = payload_address_at (entry (tick s1)) k h"
    and p: "p = payload_object_at (entry (tick s1)) k h"
    and ne: "a \<noteq> this" and ord: "\<not> stub_flag p"
    and w: "w = written_object kTransactionActive field_offset new_value p"
  shows "\<exists>h'. SetFieldObjectWithoutWriteBarrier kTransactionActive kIsVolatile sizeof_Object this
       field_offset new_value h = Some h' \<and>
     objects h' = (objects h)
       (a := w, this := (stub_image h (objects h this) w)\<lparr>stub_flag := True, table_entry := k\<rparr>) \<and>
     swap_file h' = swap_file h \<and> stub_image h' = stub_image h \<and>
     trace h' = trace h @ LockTableEntryCall this #
        (if GetResidentBit (entry (tick s1)) then [] else [SwapInOnDemandCall this]) @
        (if kTransactionActive
         then [RecordWriteFieldReference a field_offset (field32 p field_offset) True]
         else []) @
        [AssignReference a field_offset new_value, PopulateFromCall this a,
         UnlockTableEntryCall this] \<and>
     table h' = (table h)(k := UnlockFromAppThread (entry_after_load (tick s1) k h))"
proof -
  from enter_general [OF k L a p ne] obtain h3 where
    E: "SwapPreambleEnter this h = Some h3"
    and ob3: "objects h3 = (objects h)(a := p)"
    and sf3: "swap_file h3 = swap_file h" and si3: "stub_image h3 = stub_image h"
    and tr3: "trace h3 = trace h @ LockTableEntryCall this #
        (if GetResidentBit (entry (tick s1)) then [] else [SwapInOnDemandCall this])"
    and tb3: "table h3 = (table h)(k := entry_after_load (tick s1) k h)"
    and k3: "Stub_GetTableEntry this h3 = k" and addr3: "Stub_GetObjectAddress this h3 = a"
    by blast
  have plain3: "\<not> GetStubFlag a h3"
    using ord by (simp add: GetStubFlag_def ob3)
  from SetFieldObjectWithoutWriteBarrier_plain [OF plain3, of kTransactionActive kIsVolatile
      sizeof_Object field_offset new_value]
  obtain h4 where
    W: "SetFieldObjectWithoutWriteBarrier kTransactionActive kIsVolatile sizeof_Object a
          field_offset new_value h3 = Some h4"
    and ob4: "objects h4 = (objects h3)(a := written_object kTransactionActive field_offset
                new_value (objects h3 a))"
    and tb4: "table h4 = table h3" and sf4: "swap_file h4 = swap_file h3"
    and si4: "stub_image h4 = stub_image h3"
    and tr4: "trace h4 = trace h3 @
       (if kTransactionActive
        then [RecordWriteFieldReference a field_offset (field32 (objects h3 a) field_offset) True]
        else []) @ [AssignReference a field_offset new_value]"
    by blast
  have k4: "Stub_GetTableEntry this h4 = k"
    using ne k by (simp add: Stub_GetTableEntry_def ob4 ob3)
  have addr4: "Stub_GetObjectAddress this h4 = a"
    using addr3 by (simp add: Stub_GetObjectAddress_def k4 k3 tb4)
  have R: "SetFieldObjectWithoutWriteBarrier kTransactionActive kIsVolatile sizeof_Object this
       field_offset new_value h = Some (SwapPreambleExit this h4)"
    using stub by (simp add: SetFieldObjectWithoutWriteBarrier_stub E addr3 W)
  show ?thesis
    unfolding R
    apply (rule exI [of _ "SwapPreambleExit this h4"])
    apply (simp add: exit_props k4 addr4 ob4 ob3 sf4 sf3 si4 si3 tr4 tr3 tb4 tb3 w ne ne [symmetric])
    done
qed

text \<open>The read of a reference on such a stub, at an offset beyond the header.\<close>

lemma GetFieldObject_general:
  assumes off: "sizeof_Object \<le> unat field_offset"
    and stub: "GetStubFlag this h"
    and k: "k = Stub_GetTableEntry this h"
    and L: "LockFromAppThread (table h k) = Some s1"
    and a: "a = payload_address_at (entry (tick s1)) k h"
    and p: "p = payload_object_at (entry (tick s1)) k h"
    and ne: "a \<noteq> this" and ord: "\<not> stub_flag p"
  shows "\<exists>h'. GetFieldObject sizeof_Object this field_offset h =
       Some (field32 p field_offset, h') \<and>
     objects h' = (objects h)
       (a := read_object p,
        this := (stub_image h (objects h this) (read_object p))
                  \<lparr>stub_flag := True, table_entry := k\<rparr>) \<and>
     swap_file h' = swap_file h \<and> stub_image h' = stub_image h \<and>
     trace h' = trace h @ LockTableEntryCall this #
        (if GetResidentBit (entry (tick s1)) then [] else [SwapInOnDemandCall this]) @
        [PopulateFromCall this a, UnlockTableEntryCall this] \<and>
     table h' = (table h)(k := UnlockFromAppThread (entry_after_load (tick s1) k h))"
proof -
  from enter_general [OF k L a p ne] obtain h3 where
    E: "SwapPreambleEnter this h = Some h3"
    and ob3: "objects h3 = (objects h)(a := p)"
    and sf3: "swap_file h3 = swap_file h" and si3: "stub_image h3 = stub_image h"
    and tr3: "trace h3 = trace h @ LockTableEntryCall this #
        (if GetResidentBit (entry (tick s1)) then [] else [SwapInOnDemandCall this])"
    and tb3: "table h3 = (table h)(k := entry_after_load (tick s1) k h)"
    and k3: "Stub_GetTableEntry this h3 = k" and addr3: "Stub_GetObjectAddress this h3 = a"
    by blast
  have plain3: "\<not> GetStubFlag a h3"
    using ord by (simp add: GetStubFlag_def ob3)
  let ?h4 = "if ignore_read_flag (objects h3 a) then h3 else SetReadBit a h3"
  have G: "GetFieldObject sizeof_Object a field_offset h3 = Some (field32 p field_offset, ?h4)"
    using GetFieldObject_plain [OF plain3, of sizeof_Object field_offset] by (simp add: ob3)
  have ob4: "objects ?h4 = (objects h)(a := read_object p)"
    by (simp add: SetReadBit_def ob3 read_object_def)
  have tb4: "table ?h4 = table h3" "swap_file ?h4 = swap_file h3" "stub_image ?h4 = stub_image h3"
    "trace ?h4 = trace h3"
    by (simp_all add: SetReadBit_def)
  have k4: "Stub_GetTableEntry this ?h4 = k"
    using ne k by (simp add: Stub_GetTableEntry_def SetReadBit_def ob3)
  have addr4: "Stub_GetObjectAddress this ?h4 = a"
    using addr3 unfolding Stub_GetObjectAddress_def k4 k3 tb4 .
  have R: "GetFieldObject sizeof_Object this field_offset h =
      Some (field32 p field_offset, SwapPreambleExit this ?h4)"
    using stub off
    by (simp add: GetFieldObject_stub E addr3 G del: if_split cong: if_cong)
  show ?thesis
    unfolding R
    apply (rule exI [of _ "SwapPreambleExit this ?h4"])
    apply (simp only: exit_props k4 addr4 ob4 tb4 sf3 si3 tr3 tb3)
    apply (simp add: ne ne [symmetric])
    done
qed

text \<open>The calls made so far stay: an accessor only appends to the trace.\<close>

lemma Enter_trace:
  assumes "SwapPreambleEnter this h = Some h1"
  shows "\<exists>s1. LockFromAppThread (table h (Stub_GetTableEntry this h)) = Some s1 \<and>
     trace h1 = trace h @ LockTableEntryCall this #
        (if GetResidentBit (entry (tick s1)) then [] else [SwapInOnDemandCall this]) \<and>
     objects h1 = (objects h)
        (payload_address_at (entry (tick s1)) (Stub_GetTableEntry this h) h :=
           payload_object_at (entry (tick s1)) (Stub_GetTableEntry this h) h) \<and>
     table h1 = (table h)
        (Stub_GetTableEntry this h := entry_after_load (tick s1) (Stub_GetTableEntry this h) h)"
proof -
  let ?k = "Stub_GetTableEntry this h"
  from assms obtain s1 where L: "LockFromAppThread (table h ?k) = Some s1"
    by (cases "LockFromAppThread (table h ?k)")
       (simp_all add: SwapPreambleEnter_def Stub_LockTableEntry_def Let_def)
  let ?h1 = "log (LockTableEntryCall this) (h\<lparr>table := (table h)(?k := s1)\<rparr>)"
  have L1: "Stub_LockTableEntry this h = Some ?h1"
    using L by (simp add: Stub_LockTableEntry_def Let_def)
  let ?h2 = "?h1\<lparr>table := (table ?h1)(?k := tick s1)\<rparr>"
  have R: "Stub_LoadResidentBit this ?h1 = (GetResidentBit (entry (tick s1)), ?h2)"
    by (simp add: Stub_LoadResidentBit_def Let_def)
  from assms have h1: "h1 = (if \<not> GetResidentBit (entry (tick s1)) then SwapInOnDemand this ?h2 else ?h2)"
    by (auto simp add: SwapPreambleEnter_def L1 R)
  have "trace h1 = trace h @ LockTableEntryCall this #
        (if GetResidentBit (entry (tick s1)) then [] else [SwapInOnDemandCall this]) \<and>
     objects h1 = (objects h)
        (payload_address_at (entry (tick s1)) ?k h := payload_object_at (entry (tick s1)) ?k h) \<and>
     table h1 = (table h)(?k := entry_after_load (tick s1) ?k h)"
  proof (cases "GetResidentBit (entry (tick s1))")
    case True
    then show ?thesis
      unfolding h1
      by (simp add: payload_address_at_def payload_object_at_def entry_after_load_def)
  next
    case False
    then show ?thesis
      unfolding h1
      by (simp add: payload_address_at_def payload_object_at_def entry_after_load_def
          SwapInOnDemand_def Let_def split_def)
  qed
  with L show ?thesis by blast
qed

lemma GetFieldObject_trace:
  assumes "GetFieldObject sizeof_Object this field_offset h = Some rh"
  shows "\<exists>mid. trace (snd rh) = trace h @ mid"
proof (rule GetFieldObject.raw_induct
    [where P = "\<lambda>sizeof_Object this field_offset h rh. \<exists>mid. trace (snd rh) = trace h @ mid",
     OF _ assms])
  fix get :: "nat \<Rightarrow> 32 word \<Rightarrow> 32 word \<Rightarrow> Heap \<Rightarrow> (32 word \<times> Heap) option"
    and sizeof_Object this field_offset h rh
  assume IH: "\<And>sizeof_Object this field_offset h rh.
      get sizeof_Object this field_offset h = Some rh \<Longrightarrow> \<exists>mid. trace (snd rh) = trace h @ mid"
    and step: "(if sizeof_Object \<le> unat field_offset \<and> GetStubFlag this h
      then SwapPreambleEnter this h \<bind>
           (\<lambda>h1. get sizeof_Object (Stub_GetObjectAddress this h1) field_offset h1 \<bind>
                 (\<lambda>(result, h2). Some (result, SwapPreambleExit this h2)))
      else let h1 = if \<not> GetIgnoreReadFlag this h then SetReadBit this h else h
           in Some (GetFieldPrimitive32 this field_offset h1, h1)) = Some rh"
  show "\<exists>mid. trace (snd rh) = trace h @ mid"
  proof (cases "sizeof_Object \<le> unat field_offset \<and> GetStubFlag this h")
    case True
    with step obtain h1 r h2 where
      E: "SwapPreambleEnter this h = Some h1"
      and G: "get sizeof_Object (Stub_GetObjectAddress this h1) field_offset h1 = Some (r, h2)"
      and rh: "rh = (r, SwapPreambleExit this h2)"
      by (auto split: bind_splits)
    from Enter_trace [OF E] obtain m1 where 1: "trace h1 = trace h @ m1" by blast
    from IH [OF G] obtain m2 where 2: "trace h2 = trace h1 @ m2" by auto
    show ?thesis unfolding rh by (simp add: exit_props 1 2)
  next
    case False
    with step have "trace (snd rh) = trace h"
      by (auto simp add: Let_def SetReadBit_def split: if_splits)
    then show ?thesis by simp
  qed
qed

lemma SetFieldObjectWithoutWriteBarrier_trace:
  assumes "SetFieldObjectWithoutWriteBarrier kTransactionActive kIsVolatile sizeof_Object this
       field_offset new_value h = Some h'"
  shows "\<exists>mid. trace h' = trace h @ mid"
proof (rule SetFieldObjectWithoutWriteBarrier.raw_induct
    [where P = "\<lambda>kTransactionActive kIsVolatile sizeof_Object this field_offset new_value h h'.
                  \<exists>mid. trace h' = trace h @ mid", OF _ assms])
  fix set_field :: "bool \<Rightarrow> bool \<Rightarrow> nat \<Rightarrow> 32 word \<Rightarrow> 32 word \<Rightarrow> 32 word \<Rightarrow> Heap \<Rightarrow> Heap option"
    and kTransactionActive kIsVolatile sizeof_Object this field_offset new_value h h'
  assume IH: "\<And>kTransactionActive kIsVolatile sizeof_Object this field_offset new_value h h'.
      set_field kTransactionActive kIsVolatile sizeof_Object this field_offset new_value h =
        Some h' \<Longrightarrow> \<exists>mid. trace h' = trace h @ mid"
    and step: "(if GetStubFlag this h
      then Stub_LockTableEntry this h \<bind>
           (\<lambda>h1. let (resident, h2) = Stub_LoadResidentBit this h1;
                     h3 = if \<not> resident then SwapInOnDemand this h2 else h2
                 in set_field kTransactionActive kIsVolatile sizeof_Object
                     (Stub_GetObjectAddress this h3) field_offset new_value h3 \<bind>
                    (\<lambda>h4. let h5 = Stub_PopulateFrom this (Stub_GetObjectAddress this h4) h4
                          in Some (Stub_UnlockTableEntry this h5)))
      else (if kTransactionActive
            then (if kIsVolatile
                  then GetFieldObjectVolatile sizeof_Object this field_offset h
                  else GetFieldObject sizeof_Object this field_offset h) \<bind>
                 (\<lambda>(obj, h'). Some (log (RecordWriteFieldReference this field_offset obj True) h'))
            else Some h) \<bind>
           (\<lambda>h1. let h2 = log (AssignReference this field_offset new_value)
                           (SetFieldPrimitive32 this field_offset new_value h1)
                 in Some (SetDirtyBit this (SetWriteBit this h2)))) = Some h'"
  show "\<exists>mid. trace h' = trace h @ mid"
  proof (cases "GetStubFlag this h")
    case True
    with step obtain h3 h4 where
      E: "SwapPreambleEnter this h = Some h3"
      and W: "set_field kTransactionActive kIsVolatile sizeof_Object
                (Stub_GetObjectAddress this h3) field_offset new_value h3 = Some h4"
      and r: "h' = SwapPreambleExit this h4"
      by (auto simp add: SwapPreambleEnter_def SwapPreambleExit_def Let_def
          split: bind_splits prod.splits if_splits)
    from Enter_trace [OF E] obtain m1 where 1: "trace h3 = trace h @ m1" by blast
    from IH [OF W] obtain m2 where 2: "trace h4 = trace h3 @ m2" by auto
    show ?thesis unfolding r by (simp add: exit_props 1 2)
  next
    case False
    show ?thesis
    proof (cases kTransactionActive)
      case True
      with step \<open>\<not> GetStubFlag this h\<close> obtain obj h1 where
        G: "GetFieldObject sizeof_Object this field_offset h = Some (obj, h1)"
        and r: "h' = SetDirtyBit this (SetWriteBit this (log (AssignReference this field_offset new_value)
                   (SetFieldPrimitive32 this field_offset new_value
                      (log (RecordWriteFieldReference this field_offset obj True) h1))))"
        by (auto simp add: GetFieldObjectVolatile_def Let_def split: bind_splits if_splits)
      from GetFieldObject_trace [OF G] obtain m where "trace h1 = trace h @ m" by auto
      then show ?thesis
        unfolding r by (simp add: SetDirtyBit_def SetWriteBit_def SetFieldPrimitive32_def)
    next
      case False
      with step \<open>\<not> GetStubFlag this h\<close> show ?thesis
        by (auto simp add: Let_def SetDirtyBit_def SetWriteBit_def SetFieldPrimitive32_def)
    qed
  qed
qed

text \<open>
  Every write on a stub that returns has made, in this order: the handshake; the swap-in
  exactly when the resident bit was found clear after the handshake; the same write on
  the object at the entry's object address, in the heap \<open>h3\<close> that the first two leave;
  PopulateFrom from the entry's object address, and the release.
\<close>

lemma SetFieldObjectWithoutWriteBarrier_sandwich:
  assumes stub: "GetStubFlag this h"
    and L: "LockFromAppThread (table h (Stub_GetTableEntry this h)) = Some s1"
    and W: "SetFieldObjectWithoutWriteBarrier kTransactionActive kIsVolatile sizeof_Object this
       field_offset new_value h = Some h'"
  shows "\<exists>h3 h4 mid.
     trace h3 = trace h @ LockTableEntryCall this #
        (if GetResidentBit (entry (tick s1)) then [] else [SwapInOnDemandCall this]) \<and>
     objects h3 = (objects h)
        (payload_address_at (entry (tick s1)) (Stub_GetTableEntry this h) h :=
           payload_object_at (entry (tick s1)) (Stub_GetTableEntry this h) h) \<and>
     table h3 = (table h)
        (Stub_GetTableEntry this h := entry_after_load (tick s1) (Stub_GetTableEntry this h) h) \<and>
     SetFieldObjectWithoutWriteBarrier kTransactionActive kIsVolatile sizeof_Object
        (Stub_GetObjectAddress this h3) field_offset new_value h3 = Some h4 \<and>
     trace h4 = trace h3 @ mid \<and>
     trace h' = trace h @ LockTableEntryCall this #
        (if GetResidentBit (entry (tick s1)) then [] else [SwapInOnDemandCall this]) @ mid @
        [PopulateFromCall this (Stub_GetObjectAddress this h4), UnlockTableEntryCall this]"
proof -
  from W obtain h3 h4 where
    E: "SwapPreambleEnter this h = Some h3"
    and F: "SetFieldObjectWithoutWriteBarrier kTransactionActive kIsVolatile sizeof_Object
              (Stub_GetObjectAddress this h3) field_offset new_value h3 = Some h4"
    and r: "h' = SwapPreambleExit this h4"
    unfolding SetFieldObjectWithoutWriteBarrier_stub [OF stub]
    by (auto split: bind_splits)
  from Enter_trace [OF E] L have 1: "trace h3 = trace h @ LockTableEntryCall this #
        (if GetResidentBit (entry (tick s1)) then [] else [SwapInOnDemandCall this])"
    and o: "objects h3 = (objects h)
        (payload_address_at (entry (tick s1)) (Stub_GetTableEntry this h) h :=
           payload_object_at (entry (tick s1)) (Stub_GetTableEntry this h) h)"
    and t: "table h3 = (table h)
        (Stub_GetTableEntry this h := entry_after_load (tick s1) (Stub_GetTableEntry this h) h)"
    by auto
  from SetFieldObjectWithoutWriteBarrier_trace [OF F] obtain mid where
    2: "trace h4 = trace h3 @ mid" by blast
  have 3: "trace h' = trace h @ LockTableEntryCall this #
        (if GetResidentBit (entry (tick s1)) then [] else [SwapInOnDemandCall this]) @ mid @
        [PopulateFromCall this (Stub_GetObjectAddress this h4), UnlockTableEntryCall this]"
    unfolding r by (simp add: exit_props 1 2)
  from 1 o t F 2 3 show ?thesis by blast
qed

lemma SetFieldObjectWithoutWriteBarrier_never_returns:
  assumes stub: "GetStubFlag this h"
    and L: "LockFromAppThread (table h (Stub_GetTableEntry this h)) = None"
  shows "SetFieldObjectWithoutWriteBarrier kTransactionActive kIsVolatile sizeof_Object this
       field_offset new_value h = None"
  using stub L
  by (subst SetFieldObjectWithoutWriteBarrier.simps) (simp add: Stub_LockTableEntry_def Let_def)

subsection \<open>The example heaps\<close>

lemma contended_lock:
  "LockFromAppThread contended_entry = Some contended_entry_locked"
proof -
  let ?s1 = "tick contended_entry"
  let ?s2 = "tick ?s1"
  have b1: "GetKernelLockBit (entry ?s1)"
    by (simp add: tick_def contended_entry_def bit_defs GetBit_def)
  have b2: "\<not> GetKernelLockBit (entry ?s2)"
    by (simp add: tick_def contended_entry_def bit_defs GetBit_def SetBit_def ClearBit_def
        SetObjectAddress_def)
  have 1: "SpinWhileKernelLock contended_entry = Some ?s2"
    apply (subst SpinWhileKernelLock.simps)
    apply (simp add: Let_def b1)
    apply (subst SpinWhileKernelLock.simps)
    apply (simp add: Let_def b2)
    done
  let ?s3 = "atomic_rmw IncrAppLockCounter ?s2"
  let ?s4 = "tick ?s3"
  have b4: "\<not> GetKernelLockBit (entry ?s4)"
    by (simp add: tick_def contended_entry_def bit_defs GetBit_def SetBit_def ClearBit_def
        SetObjectAddress_def IncrAppLockCounter_def)
  have 2: "SpinWhileKernelLock ?s3 = Some ?s4"
    apply (subst SpinWhileKernelLock.simps)
    apply (simp only: Let_def b4 if_False)
    done
  have 3: "atomic_rmw IncrAppLockCounter ?s4 = contended_entry_locked"
    by (simp add: atomic_rmw_def tick_def contended_entry_def contended_entry_locked_def
        bit_defs SetBit_def ClearBit_def SetObjectAddress_def IncrAppLockCounter_def Let_def)
  show ?thesis by (simp add: LockFromAppThread_def 1 2 3)
qed

lemma contended_heap_facts:
  "GetStubFlag 0x5000 contended_heap"
  "Stub_GetTableEntry 0x5000 contended_heap = 7"
  "table contended_heap 7 = contended_entry"
  "GetKernelLockBit (entry contended_entry)"
  "\<not> GetResidentBit (entry contended_entry)"
  "GetResidentBit (entry (tick contended_entry_locked))"
  "payload_address_at (entry (tick contended_entry_locked)) 7 contended_heap = 0x6000"
  "\<not> stub_flag (payload_object_at (entry (tick contended_entry_locked)) 7 contended_heap)"
  "trace contended_heap = []"
  by (simp_all add: contended_heap_def example_heap_def GetStubFlag_def Stub_GetTableEntry_def
      blank_object_def contended_entry_def contended_entry_locked_def tick_def bit_defs GetBit_def
      payload_address_at_def payload_object_at_def GetObjectAddress_def)

lemma idle_lock:
  "LockFromAppThread idle_entry =
     Some (idle_entry\<lparr>entry := (entry idle_entry)\<lparr>app_lock_counter := 2\<rparr>, clock := 4\<rparr>)"
  unfolding Lock_clear [OF idle_entry_facts(2) idle_entry_facts(1)]
  by (simp add: atomic_rmw_def tick_def idle_entry_def IncrAppLockCounter_def Let_def)

lemma example_heap_facts:
  "GetStubFlag 0x5000 example_heap"
  "Stub_GetTableEntry 0x5000 example_heap = 7"
  "table example_heap 7 = idle_entry"
  "\<not> GetResidentBit (entry idle_entry)"
  "\<not> GetResidentBit (entry (tick (idle_entry\<lparr>entry := (entry idle_entry)\<lparr>app_lock_counter := 2\<rparr>,
        clock := 4\<rparr>)))"
  "payload_address_at (entry (tick (idle_entry\<lparr>entry := (entry idle_entry)\<lparr>app_lock_counter := 2\<rparr>,
        clock := 4\<rparr>))) 7 example_heap = 0x6000"
  "\<not> stub_flag (payload_object_at (entry (tick (idle_entry\<lparr>entry :=
        (entry idle_entry)\<lparr>app_lock_counter := 2\<rparr>, clock := 4\<rparr>))) 7 example_heap)"
  "trace example_heap = []"
  by (simp_all add: example_heap_def GetStubFlag_def Stub_GetTableEntry_def
      blank_object_def idle_entry_def tick_def bit_defs GetBit_def
      payload_address_at_def payload_object_at_def GetObjectAddress_def)

lemma stuck_heap_facts:
  "GetStubFlag 0x5000 stuck_heap"
  "Stub_GetTableEntry 0x5000 stuck_heap = 7"
  "table stuck_heap 7 = stuck_entry"
  "LockFromAppThread stuck_entry = None"
  by (simp_all add: stuck_heap_def example_heap_def GetStubFlag_def Stub_GetTableEntry_def
      Lock_stuck stuck_entry_facts)

lemma busy_entry_releases: "kernel_releases busy_entry"
proof -
  have n: "kernel_never_locks ((tick ^^ 11) busy_entry)"
    by (simp add: kernel_never_locks_def busy_entry_def)
  have b: "\<not> GetKernelLockBit (entry ((tick ^^ 11) busy_entry))"
    by (simp add: eval_nat_numeral tick_def busy_entry_def bit_defs GetBit_def SetBit_def
        ClearBit_def)
  from never_locks_releases [OF n b] show ?thesis by (rule kernel_releases_funpow_back)
qed

lemma busy_heap_facts:
  "GetStubFlag 0x5000 busy_heap"
  "Stub_GetTableEntry 0x5000 busy_heap = 7"
  "table busy_heap 7 = busy_entry"
  "\<not> GetResidentBit (entry busy_entry)"
  "GetKernelLockBit (entry busy_entry)"
  "swap_file busy_heap 7 = (0x6000, blank_object\<lparr>field32 := (\<lambda>off. 0)(12 := 0xAAAA)\<rparr>)"
  "stub_image busy_heap = header_image"
  "field32 (objects busy_heap 0x5000) 12 = 0"
  by (simp_all add: busy_heap_def example_heap_def GetStubFlag_def Stub_GetTableEntry_def
      blank_object_def busy_entry_def bit_defs GetBit_def)

lemma busy_entry_contends: "kernel_only_contends busy_entry"
  by (auto simp add: kernel_only_contends_def busy_entry_def)

subsection \<open>The write and the round trip\<close>

text \<open>
  C3. A call of SetFieldObjectWithoutWriteBarrier on an object whose stub flag is set
  resolves the stub's table entry and enters the handshake on it. If the handshake never
  returns, the call never returns. If the handshake returns, the resident bit is loaded
  from the entry as the handshake left it, and every call that returns has made, in this
  order: the handshake; the swap-in, if and only if that load found the resident bit
  clear, which leaves the payload mapped and the entry resident; the same write on the
  object at the entry's object address; PopulateFrom on the stub from the entry's object
  address; the release of the handshake.
  Where the payload at the entry's object address (after the swap-in, if there was one) is
  an ordinary object at another address than the stub, the call returns, the forwarded
  write is the write of the new value to that payload (preceded by the transaction record
  when a transaction is active), PopulateFrom takes that payload, the stub holds the
  image of the written payload and is still a stub of the same entry, and the entry is
  the one that the release leaves, its lock counter two up and one down. The kernel side
  may do anything meanwhile.
\<close>

theorem stub_write_protocol_sequence:
  assumes "GetStubFlag this h"
  shows
   "case LockFromAppThread (table h (Stub_GetTableEntry this h)) of
      None \<Rightarrow>
        SetFieldObjectWithoutWriteBarrier kTransactionActive kIsVolatile sizeof_Object this
          field_offset new_value h = None
    | Some s1 \<Rightarrow>
        (let k = Stub_GetTableEntry this h;
             resident = GetResidentBit (entry (tick s1));
             a = payload_address_at (entry (tick s1)) k h;
             p = payload_object_at (entry (tick s1)) k h
         in (\<forall>h'. SetFieldObjectWithoutWriteBarrier kTransactionActive kIsVolatile sizeof_Object
                    this field_offset new_value h = Some h' \<longrightarrow>
               (\<exists>h3 h4 mid.
                  trace h3 = trace h @ LockTableEntryCall this #
                    (if resident then [] else [SwapInOnDemandCall this]) \<and>
                  objects h3 = (objects h)(a := p) \<and>
                  table h3 = (table h)(k := entry_after_load (tick s1) k h) \<and>
                  SetFieldObjectWithoutWriteBarrier kTransactionActive kIsVolatile sizeof_Object
                    (Stub_GetObjectAddress this h3) field_offset new_value h3 = Some h4 \<and>
                  trace h4 = trace h3 @ mid \<and>
                  trace h' = trace h @ LockTableEntryCall this #
                    (if resident then [] else [SwapInOnDemandCall this]) @ mid @
                    [PopulateFromCall this (Stub_GetObjectAddress this h4),
                     UnlockTableEntryCall this])) \<and>
            (a \<noteq> this \<and> \<not> stub_flag p \<longrightarrow>
               (\<exists>h'. SetFieldObjectWithoutWriteBarrier kTransactionActive kIsVolatile
                       sizeof_Object this field_offset new_value h = Some h' \<and>
                  trace h' = trace h @ LockTableEntryCall this #
                    (if resident then [] else [SwapInOnDemandCall this]) @
                    (if kTransactionActive
                     then [RecordWriteFieldReference a field_offset (field32 p field_offset) True]
                     else []) @
                    [AssignReference a field_offset new_value, PopulateFromCall this a,
                     UnlockTableEntryCall this] \<and>
                  field32 (objects h' a) field_offset = new_value \<and>
                  objects h' this = (stub_image h (objects h this) (objects h' a))
                     \<lparr>stub_flag := True, table_entry := k\<rparr> \<and>
                  table h' k = UnlockFromAppThread (entry_after_load (tick s1) k h) \<and>
                  app_lock_counter (entry (table h' k)) =
                    app_lock_counter (entry (table h k)) + 2 - 1)))"
proof (cases "LockFromAppThread (table h (Stub_GetTableEntry this h))")
  case None
  with SetFieldObjectWithoutWriteBarrier_never_returns [OF assms None] show ?thesis by simp
next
  case (Some s1)
  let ?k = "Stub_GetTableEntry this h"
  let ?a = "payload_address_at (entry (tick s1)) ?k h"
  let ?p = "payload_object_at (entry (tick s1)) ?k h"
  let ?w = "written_object kTransactionActive field_offset new_value ?p"
  have A: "\<forall>h'. SetFieldObjectWithoutWriteBarrier kTransactionActive kIsVolatile sizeof_Object
                    this field_offset new_value h = Some h' \<longrightarrow>
               (\<exists>h3 h4 mid.
                  trace h3 = trace h @ LockTableEntryCall this #
                    (if GetResidentBit (entry (tick s1)) then [] else [SwapInOnDemandCall this]) \<and>
                  objects h3 = (objects h)(?a := ?p) \<and>
                  table h3 = (table h)(?k := entry_after_load (tick s1) ?k h) \<and>
                  SetFieldObjectWithoutWriteBarrier kTransactionActive kIsVolatile sizeof_Object
                    (Stub_GetObjectAddress this h3) field_offset new_value h3 = Some h4 \<and>
                  trace h4 = trace h3 @ mid \<and>
                  trace h' = trace h @ LockTableEntryCall this #
                    (if GetResidentBit (entry (tick s1)) then [] else [SwapInOnDemandCall this]) @
                    mid @ [PopulateFromCall this (Stub_GetObjectAddress this h4),
                     UnlockTableEntryCall this])"
    using SetFieldObjectWithoutWriteBarrier_sandwich [OF assms Some] by blast
  have B: "\<exists>h'. SetFieldObjectWithoutWriteBarrier kTransactionActive kIsVolatile
                       sizeof_Object this field_offset new_value h = Some h' \<and>
                  trace h' = trace h @ LockTableEntryCall this #
                    (if GetResidentBit (entry (tick s1)) then [] else [SwapInOnDemandCall this]) @
                    (if kTransactionActive
                     then [RecordWriteFieldReference ?a field_offset (field32 ?p field_offset) True]
                     else []) @
                    [AssignReference ?a field_offset new_value, PopulateFromCall this ?a,
                     UnlockTableEntryCall this] \<and>
                  field32 (objects h' ?a) field_offset = new_value \<and>
                  objects h' this = (stub_image h (objects h this) (objects h' ?a))
                     \<lparr>stub_flag := True, table_entry := ?k\<rparr> \<and>
                  table h' ?k = UnlockFromAppThread (entry_after_load (tick s1) ?k h) \<and>
                  app_lock_counter (entry (table h' ?k)) =
                    app_lock_counter (entry (table h ?k)) + 2 - 1"
    if ne: "?a \<noteq> this" and ord: "\<not> stub_flag ?p"
  proof -
    from SetFieldObjectWithoutWriteBarrier_general [where kTransactionActive = kTransactionActive
        and field_offset = field_offset and new_value = new_value and kIsVolatile = kIsVolatile
        and sizeof_Object = sizeof_Object, OF assms refl Some refl refl ne ord refl]
    obtain h' where W: "SetFieldObjectWithoutWriteBarrier kTransactionActive kIsVolatile
          sizeof_Object this field_offset new_value h = Some h'"
      and ob: "objects h' = (objects h)
         (?a := ?w, this := (stub_image h (objects h this) ?w)\<lparr>stub_flag := True, table_entry := ?k\<rparr>)"
      and tr: "trace h' = trace h @ LockTableEntryCall this #
          (if GetResidentBit (entry (tick s1)) then [] else [SwapInOnDemandCall this]) @
          (if kTransactionActive
           then [RecordWriteFieldReference ?a field_offset (field32 ?p field_offset) True]
           else []) @
          [AssignReference ?a field_offset new_value, PopulateFromCall this ?a,
           UnlockTableEntryCall this]"
      and tb: "table h' = (table h)(?k := UnlockFromAppThread (entry_after_load (tick s1) ?k h))"
      by blast
    have oa: "objects h' ?a = ?w" using ne by (simp add: ob)
    have f: "field32 (objects h' ?a) field_offset = new_value"
      by (simp add: oa written_object_def)
    have s: "objects h' this = (stub_image h (objects h this) (objects h' ?a))
                     \<lparr>stub_flag := True, table_entry := ?k\<rparr>"
      unfolding oa by (simp add: ob)
    have t: "table h' ?k = UnlockFromAppThread (entry_after_load (tick s1) ?k h)"
      by (simp add: tb)
    have c: "app_lock_counter (entry (table h' ?k)) =
                    app_lock_counter (entry (table h ?k)) + 2 - 1"
      unfolding t using Lock_counter [OF Some]
      by (simp add: UnlockFromAppThread_def entry_after_load_def)
    from W tr f s t c show ?thesis by blast
  qed
  from A B show ?thesis unfolding Some by (simp add: Let_def)
qed

text \<open>
  On the stub whose payload the kernel side swaps in during the handshake, the entry is
  not resident when the call starts and resident when the call loads the bit: there is no
  swap-in, and the write goes to 0x6000, the address that the kernel side stored. With
  the payload evicted and a kernel side that does nothing, the swap-in is made. With the
  entry kernel-locked for good, the call never returns.
\<close>

theorem stub_write_protocol_sequence_witness:
  "GetStubFlag 0x5000 contended_heap \<and>
   GetKernelLockBit (entry (table contended_heap 7)) \<and>
   \<not> GetResidentBit (entry (table contended_heap 7)) \<and>
   (\<exists>h'. SetFieldObjectWithoutWriteBarrier False False 8 0x5000 12 0xBEEF contended_heap = Some h' \<and>
      trace h' = [LockTableEntryCall 0x5000,
                  AssignReference 0x6000 12 0xBEEF, PopulateFromCall 0x5000 0x6000,
                  UnlockTableEntryCall 0x5000] \<and>
      field32 (objects h' 0x6000) 12 = 0xBEEF) \<and>
   GetStubFlag 0x5000 example_heap \<and>
   \<not> GetResidentBit (entry (table example_heap 7)) \<and>
   (\<exists>h'. SetFieldObjectWithoutWriteBarrier False False 8 0x5000 12 0xBEEF example_heap = Some h' \<and>
      trace h' = [LockTableEntryCall 0x5000, SwapInOnDemandCall 0x5000,
                  AssignReference 0x6000 12 0xBEEF, PopulateFromCall 0x5000 0x6000,
                  UnlockTableEntryCall 0x5000] \<and>
      field32 (objects h' 0x6000) 12 = 0xBEEF) \<and>
   GetStubFlag 0x5000 stuck_heap \<and>
   SetFieldObjectWithoutWriteBarrier False False 8 0x5000 12 0xBEEF stuck_heap = None"
  using stub_write_protocol_sequence [where this = "0x5000" and h = contended_heap
      and kTransactionActive = False and kIsVolatile = False and sizeof_Object = 8
      and field_offset = 12 and new_value = "0xBEEF"]
    stub_write_protocol_sequence [where this = "0x5000" and h = example_heap
      and kTransactionActive = False and kIsVolatile = False and sizeof_Object = 8
      and field_offset = 12 and new_value = "0xBEEF"]
    stub_write_protocol_sequence [where this = "0x5000" and h = stuck_heap
      and kTransactionActive = False and kIsVolatile = False and sizeof_Object = 8
      and field_offset = 12 and new_value = "0xBEEF"]
    contended_heap_facts contended_lock example_heap_facts idle_lock stuck_heap_facts
  by (auto simp add: Let_def)

text \<open>
  C4. On a stub whose entry is not resident, SetFieldObjectWithoutWriteBarrier of \<open>x\<close>
  followed by GetFieldObject at the same offset returns \<open>x\<close>, and the entry is resident
  after the set and after the get. The kernel side may hold and release the kernel lock
  at any time, provided it releases it (otherwise the handshake spins) and neither evicts
  nor moves the payload meanwhile; the swap-in is the one of the model, which maps the
  evicted payload, an ordinary object, back at an address other than the stub's. At an
  offset beyond the header nothing is assumed on what the stub carries: the value comes
  from the payload, through the protocol. At an offset inside the header GetFieldObject
  reads the stub itself, and the value is \<open>x\<close> where the stub carries that word of its
  payload.
\<close>

theorem stub_round_trip:
  assumes stub: "GetStubFlag stub h"
    and nonres: "\<not> GetResidentBit (entry (table h (Stub_GetTableEntry stub h)))"
    and rel: "kernel_releases (table h (Stub_GetTableEntry stub h))"
    and con: "kernel_only_contends (table h (Stub_GetTableEntry stub h))"
    and ne: "fst (swap_file h (Stub_GetTableEntry stub h)) \<noteq> stub"
    and ord: "\<not> stub_flag (snd (swap_file h (Stub_GetTableEntry stub h)))"
    and img: "unat field_offset < sizeof_Object \<longrightarrow>
       (\<forall>old p. field32 (stub_image h old p) field_offset = field32 p field_offset)"
  shows "\<exists>h1 h2.
     SetFieldObjectWithoutWriteBarrier kTransactionActive kIsVolatile sizeof_Object stub
       field_offset x h = Some h1 \<and>
     GetFieldObject sizeof_Object stub field_offset h1 = Some (x, h2) \<and>
     GetResidentBit (entry (table h1 (Stub_GetTableEntry stub h))) \<and>
     GetResidentBit (entry (table h2 (Stub_GetTableEntry stub h))) \<and>
     field32 (objects h1 (fst (swap_file h (Stub_GetTableEntry stub h)))) field_offset = x \<and>
     objects h1 stub =
       (stub_image h (objects h stub) (objects h1 (fst (swap_file h (Stub_GetTableEntry stub h)))))
         \<lparr>stub_flag := True, table_entry := Stub_GetTableEntry stub h\<rparr>"
proof -
  let ?k = "Stub_GetTableEntry stub h"
  let ?a = "fst (swap_file h ?k)"
  let ?p = "snd (swap_file h ?k)"
  let ?w = "written_object kTransactionActive field_offset x ?p"
  let ?f = "SetResidentBit \<circ> SetObjectAddress ?a"
  have fl: "\<And>e. GetKernelLockBit (?f e) = GetKernelLockBit e" by simp
  \<comment> \<open>the handshake of the write\<close>
  from Lock_contended [OF rel con] obtain s1 where
    L1: "LockFromAppThread (table h ?k) = Some s1"
    and r1: "kernel_releases s1" and c1: "kernel_only_contends s1"
    and n1: "GetResidentBit (entry s1) = GetResidentBit (entry (table h ?k))" by blast
  from tick_contended [OF r1 c1] n1 nonres
  have r2: "kernel_releases (tick s1)" and c2: "kernel_only_contends (tick s1)"
    and n2: "\<not> GetResidentBit (entry (tick s1))" by simp_all
  have a1: "payload_address_at (entry (tick s1)) ?k h = ?a"
    and p1: "payload_object_at (entry (tick s1)) ?k h = ?p"
    using n2 by (simp_all add: payload_address_at_def payload_object_at_def)
  let ?s3 = "atomic_rmw ?f (tick s1)"
  have eal: "entry_after_load (tick s1) ?k h = ?s3"
    using n2 by (simp add: entry_after_load_def)
  from rmw_contended [of ?f "tick s1", OF fl r2 c2]
  have r3: "kernel_releases ?s3" and c3: "kernel_only_contends ?s3"
    and n3: "GetResidentBit (entry ?s3)" and g3: "GetObjectAddress (entry ?s3) = ?a"
    by simp_all
  let ?s4 = "UnlockFromAppThread ?s3"
  from Unlock_contended [OF r3 c3] n3 g3
  have r4: "kernel_releases ?s4" and c4: "kernel_only_contends ?s4"
    and n4: "GetResidentBit (entry ?s4)" and g4: "GetObjectAddress (entry ?s4) = ?a"
    by simp_all
  \<comment> \<open>the write\<close>
  from SetFieldObjectWithoutWriteBarrier_general [where kTransactionActive = kTransactionActive
      and field_offset = field_offset and new_value = x and kIsVolatile = kIsVolatile
      and sizeof_Object = sizeof_Object, OF stub refl L1 a1 [symmetric] p1 [symmetric] ne ord refl]
  obtain h1 where W: "SetFieldObjectWithoutWriteBarrier kTransactionActive kIsVolatile
          sizeof_Object stub field_offset x h = Some h1"
    and ob1: "objects h1 = (objects h)
         (?a := ?w, stub := (stub_image h (objects h stub) ?w)\<lparr>stub_flag := True, table_entry := ?k\<rparr>)"
    and si1: "stub_image h1 = stub_image h"
    and tb1: "table h1 = (table h)(?k := ?s4)"
    unfolding eal by blast
  have oa1: "objects h1 ?a = ?w" using ne by (simp add: ob1)
  have os1: "objects h1 stub = (stub_image h (objects h stub) ?w)\<lparr>stub_flag := True, table_entry := ?k\<rparr>"
    by (simp add: ob1)
  have stub1: "GetStubFlag stub h1" by (simp add: GetStubFlag_def os1)
  have k1: "Stub_GetTableEntry stub h1 = ?k" by (simp add: Stub_GetTableEntry_def os1)
  have t1: "table h1 ?k = ?s4" by (simp add: tb1)
  have res1: "GetResidentBit (entry (table h1 ?k))" unfolding t1 by (rule n4)
  have f1: "field32 (objects h1 ?a) field_offset = x" by (simp add: oa1 written_object_def)
  have s1': "objects h1 stub = (stub_image h (objects h stub) (objects h1 ?a))
         \<lparr>stub_flag := True, table_entry := ?k\<rparr>"
    unfolding oa1 by (rule os1)
  \<comment> \<open>the read\<close>
  have "\<exists>h2. GetFieldObject sizeof_Object stub field_offset h1 = Some (x, h2) \<and>
          GetResidentBit (entry (table h2 ?k))"
  proof (cases "sizeof_Object \<le> unat field_offset")
    case True
    from Lock_contended [OF r4 c4] obtain s5 where
      L5: "LockFromAppThread ?s4 = Some s5"
      and r5: "kernel_releases s5" and c5: "kernel_only_contends s5"
      and n5: "GetResidentBit (entry s5)" and g5: "GetObjectAddress (entry s5) = ?a"
      using n4 g4 by auto
    from tick_contended [OF r5 c5] n5 g5
    have r6: "kernel_releases (tick s5)" and c6: "kernel_only_contends (tick s5)"
      and n6: "GetResidentBit (entry (tick s5))"
      and g6: "GetObjectAddress (entry (tick s5)) = ?a" by simp_all
    have a6: "payload_address_at (entry (tick s5)) ?k h1 = ?a"
      and p6: "payload_object_at (entry (tick s5)) ?k h1 = ?w"
      using n6 g6 oa1 by (simp_all add: payload_address_at_def payload_object_at_def)
    have eal6: "entry_after_load (tick s5) ?k h1 = tick s5"
      using n6 by (simp add: entry_after_load_def)
    have ordw: "\<not> stub_flag ?w" using ord by (simp add: written_object_def)
    have L5': "LockFromAppThread (table h1 ?k) = Some s5" unfolding t1 by (rule L5)
    from GetFieldObject_general [where sizeof_Object = sizeof_Object and field_offset = field_offset,
        OF True stub1 k1 [symmetric] L5' a6 [symmetric] p6 [symmetric] ne ordw]
    obtain h2 where
      G: "GetFieldObject sizeof_Object stub field_offset h1 = Some (field32 ?w field_offset, h2)"
      and tb2: "table h2 = (table h1)(?k := UnlockFromAppThread (tick s5))"
      unfolding eal6 by blast
    have v: "field32 ?w field_offset = x" by (simp add: written_object_def)
    from Unlock_contended [OF r6 c6] n6
    have "GetResidentBit (entry (table h2 ?k))" by (simp add: tb2)
    with G v show ?thesis by auto
  next
    case False
    then have lt: "unat field_offset < sizeof_Object" by simp
    let ?h2 = "if GetIgnoreReadFlag stub h1 then h1 else SetReadBit stub h1"
    from img lt have "field32 (stub_image h (objects h stub) ?w) field_offset = field32 ?w field_offset"
      by blast
    then have v: "field32 (objects h1 stub) field_offset = x"
      by (simp add: os1 written_object_def)
    have G: "GetFieldObject sizeof_Object stub field_offset h1 = Some (x, ?h2)"
      using GetFieldObject_header [OF lt, of stub h1] by (simp add: GetFieldPrimitive32_def v)
    have "GetResidentBit (entry (table ?h2 ?k))"
      using res1 by (simp add: SetReadBit_def)
    with G show ?thesis by blast
  qed
  then obtain h2 where G: "GetFieldObject sizeof_Object stub field_offset h1 = Some (x, h2)"
    and res2: "GetResidentBit (entry (table h2 ?k))" by blast
  from W G res1 res2 f1 s1' show ?thesis by blast
qed

text \<open>
  The round trip on the stub whose kernel side holds the lock when the set starts and
  takes it again before the get. The stub of the example carries the first eight bytes of
  its payload: at offset 12 its own word is still 0 after the set, and the get returns the
  value from the payload; at offset 4 the get reads the word that the refresh copied.
\<close>

theorem stub_round_trip_witness:
  "GetStubFlag 0x5000 busy_heap \<and>
   \<not> GetResidentBit (entry (table busy_heap (Stub_GetTableEntry 0x5000 busy_heap))) \<and>
   GetKernelLockBit (entry (table busy_heap (Stub_GetTableEntry 0x5000 busy_heap))) \<and>
   kernel_releases (table busy_heap (Stub_GetTableEntry 0x5000 busy_heap)) \<and>
   kernel_only_contends (table busy_heap (Stub_GetTableEntry 0x5000 busy_heap)) \<and>
   (\<exists>h1 h2. SetFieldObjectWithoutWriteBarrier False False 8 0x5000 12 0xBEEF busy_heap = Some h1 \<and>
      GetFieldObject 8 0x5000 12 h1 = Some (0xBEEF, h2) \<and>
      GetResidentBit (entry (table h2 7)) \<and>
      field32 (objects h1 0x6000) 12 = 0xBEEF \<and>
      field32 (objects h1 0x5000) 12 = 0) \<and>
   (\<exists>h1 h2. SetFieldObjectWithoutWriteBarrier False False 8 0x5000 4 0xBEEF busy_heap = Some h1 \<and>
      GetFieldObject 8 0x5000 4 h1 = Some (0xBEEF, h2) \<and>
      GetResidentBit (entry (table h2 7)) \<and>
      field32 (objects h1 0x5000) 4 = 0xBEEF)"
  using stub_round_trip [where stub = "0x5000" and h = busy_heap
      and kTransactionActive = False and kIsVolatile = False and sizeof_Object = 8
      and field_offset = 12 and x = "0xBEEF"]
    stub_round_trip [where stub = "0x5000" and h = busy_heap
      and kTransactionActive = False and kIsVolatile = False and sizeof_Object = 8
      and field_offset = 4 and x = "0xBEEF"]
    busy_heap_facts busy_entry_releases busy_entry_contends
  by (auto simp add: header_image_def blank_object_def)

text \<open>
  SetFieldObjectWithoutWriteBarrier does not carry the macro and has no test of the
  offset: on the stub of the example heap a write at offset 4, inside an 8-byte header,
  goes through the protocol.
\<close>

lemma SetFieldObjectWithoutWriteBarrier_header_offset:
  "map_option trace (SetFieldObjectWithoutWriteBarrier False False 8 0x5000 4 0xBEEF example_heap) =
     Some [LockTableEntryCall 0x5000, SwapInOnDemandCall 0x5000, AssignReference 0x6000 4 0xBEEF,
           PopulateFromCall 0x5000 0x6000, UnlockTableEntryCall 0x5000]"
  using SetFieldObjectWithoutWriteBarrier_general [where this = "0x5000" and h = example_heap
      and kTransactionActive = False and kIsVolatile = False and sizeof_Object = 8
      and field_offset = 4 and new_value = "0xBEEF", OF _ refl _ refl refl _ _ refl]
    example_heap_facts idle_lock
  by auto

text \<open>
  C9. In every accessor that carries the \<^verbatim>\<open>SWAP_PREAMBLE\<close> macro and takes a field
  offset, the stub check is made only for \<^verbatim>\<open>field_offset.Uint32Value() >= sizeof(Object)\<close>.
  At an offset inside the header each of them takes the direct path, whatever the stub
  flag of the object: no handshake, no swap-in, the access is to the memory of \<open>this\<close>.
\<close>

theorem header_offsets_take_direct_path:
  assumes "unat field_offset < sizeof_Object"
  shows
   "GetFieldByte sizeof_Object this field_offset h =
      Some (GetFieldPrimitive8 this field_offset h, h) \<and>
    SetFieldBoolean GetFieldBoolean kTransactionActive kIsVolatile sizeof_Object this field_offset
        new_byte h =
      (if kTransactionActive then
         do {
           (old_value, h') \<leftarrow> GetFieldBoolean this field_offset h;
           Some (SetFieldPrimitive8 this field_offset new_byte
                   (log (RecordWriteFieldBoolean this field_offset old_value kIsVolatile) h'))
         }
       else Some (SetFieldPrimitive8 this field_offset new_byte h)) \<and>
    SetFieldByte kTransactionActive kIsVolatile sizeof_Object this field_offset new_byte h =
      Some (SetFieldPrimitive8 this field_offset new_byte
             (if kTransactionActive
              then log (RecordWriteFieldByte this field_offset
                          (GetFieldPrimitive8 this field_offset h) kIsVolatile) h
              else h)) \<and>
    GetFieldChar sizeof_Object this field_offset h =
      Some (GetFieldPrimitive16 this field_offset h, h) \<and>
    GetFieldShort sizeof_Object this field_offset h =
      Some (GetFieldPrimitive16 this field_offset h, h) \<and>
    SetFieldChar kTransactionActive kIsVolatile sizeof_Object this field_offset new_half h =
      Some (SetFieldPrimitive16 this field_offset new_half
             (if kTransactionActive
              then log (RecordWriteFieldChar this field_offset
                          (GetFieldPrimitive16 this field_offset h) kIsVolatile) h
              else h)) \<and>
    SetFieldShort kTransactionActive kIsVolatile sizeof_Object this field_offset new_half h =
      Some (SetFieldPrimitive16 this field_offset new_half
             (if kTransactionActive
              then log (RecordWriteFieldChar this field_offset
                          (GetFieldPrimitive16 this field_offset h) kIsVolatile) h
              else h)) \<and>
    SetField32 GetField32 kTransactionActive kIsVolatile sizeof_Object this field_offset
        new_word h =
      (if kTransactionActive then
         do {
           (old_value, h') \<leftarrow> GetField32 this field_offset h;
           Some (SetFieldPrimitive32 this field_offset new_word
                   (log (RecordWriteField32 this field_offset old_value kIsVolatile) h'))
         }
       else Some (SetFieldPrimitive32 this field_offset new_word h)) \<and>
    SetField64 GetField64 kTransactionActive kIsVolatile sizeof_Object this field_offset
        new_long h =
      (if kTransactionActive then
         do {
           (old_value, h') \<leftarrow> GetField64 this field_offset h;
           Some (SetFieldPrimitive64 this field_offset new_long
                   (log (RecordWriteField64 this field_offset old_value kIsVolatile) h'))
         }
       else Some (SetFieldPrimitive64 this field_offset new_long h)) \<and>
    SetField64Volatile GetField64 kTransactionActive sizeof_Object this field_offset new_long h =
      (if kTransactionActive then
         do {
           (old_value, h') \<leftarrow> GetField64 this field_offset h;
           Some (SetFieldPrimitive64 this field_offset new_long
                   (log (RecordWriteField64 this field_offset old_value True) h'))
         }
       else Some (SetFieldPrimitive64 this field_offset new_long h)) \<and>
    CasFieldWeakSequentiallyConsistent64 spurious kTransactionActive sizeof_Object this
        field_offset old_long new_long h =
      Some (CompareAndSet64 spurious this field_offset old_long new_long
             (if kTransactionActive
              then log (RecordWriteField64 this field_offset old_long True) h else h)) \<and>
    CasFieldStrongSequentiallyConsistent64 kTransactionActive sizeof_Object this
        field_offset old_long new_long h =
      Some (CompareAndSet64 False this field_offset old_long new_long
             (if kTransactionActive
              then log (RecordWriteField64 this field_offset old_long True) h else h)) \<and>
    GetFieldObject sizeof_Object this field_offset h =
      Some (GetFieldPrimitive32 this field_offset h,
            if GetIgnoreReadFlag this h then h else SetReadBit this h) \<and>
    GetFieldObjectReferenceAddr sizeof_Object this field_offset h = Some ((this, field_offset), h)"
  by (intro conjI)
     (rule GetFieldByte_header [OF assms] SetFieldBoolean_header [OF assms]
        SetFieldByte_header [OF assms] GetFieldChar_header [OF assms]
        GetFieldShort_header [OF assms] SetFieldChar_header [OF assms]
        SetFieldShort_header [OF assms] SetField32_header [OF assms]
        SetField64_header [OF assms] SetField64Volatile_header [OF assms]
        CasFieldWeakSequentiallyConsistent64_header [OF assms]
        CasFieldStrongSequentiallyConsistent64_header [OF assms]
        GetFieldObject_header [OF assms] GetFieldObjectReferenceAddr_header [OF assms])+

text \<open>On the stub of the example heap, at offset 4 with an 8-byte header.\<close>

theorem header_offsets_take_direct_path_witness:
  "unat (4 :: 32 word) < 8 \<and> GetStubFlag 0x5000 example_heap \<and>
   GetFieldByte 8 0x5000 4 example_heap = Some (0, example_heap) \<and>
   SetField32 (\<lambda>this field_offset h. None) False False 8 0x5000 4 0x1234 example_heap =
     Some (SetFieldPrimitive32 0x5000 4 0x1234 example_heap) \<and>
   trace (SetFieldPrimitive32 0x5000 4 0x1234 example_heap) = [] \<and>
   table (SetFieldPrimitive32 0x5000 4 0x1234 example_heap) = table example_heap \<and>
   GetFieldObject 8 0x5000 4 example_heap = Some (0, SetReadBit 0x5000 example_heap) \<and>
   trace (SetReadBit 0x5000 example_heap) = []"
  using header_offsets_take_direct_path [where field_offset = 4 and sizeof_Object = 8
      and this = "0x5000" and h = example_heap and kTransactionActive = False
      and kIsVolatile = False and ?GetField32.0 = "\<lambda>this field_offset h. None"
      and new_word = "0x1234"]
    example_heap_facts(1)
  by (simp add: GetFieldPrimitive8_def GetFieldPrimitive32_def SetFieldPrimitive32_def
      SetReadBit_def GetIgnoreReadFlag_def example_heap_def blank_object_def)

text \<open>
  C1. The compare-and-swap and exchange operations on a reference field have no stub
  check. On the stub of the example heap, whose payload is evicted, each of
  CasFieldObjectWithoutWriteBarrier, CompareAndExchangeFieldObject and ExchangeFieldObject
  operates on the memory of the stub itself: the handshake is not entered (the table is
  unchanged and the trace has no call of the protocol), the entry stays non-resident, and
  the payload address is not written.
\<close>

theorem reference_cas_and_exchange_bypass_the_stub:
  "GetStubFlag 0x5000 example_heap \<and>
   \<not> GetResidentBit (entry (table example_heap 7)) \<and>
   fst (CasFieldObjectWithoutWriteBarrier False False 0x5000 12 0 0xBEEF kStrong example_heap) \<and>
   trace (snd (CasFieldObjectWithoutWriteBarrier False False 0x5000 12 0 0xBEEF kStrong
                 example_heap)) = [] \<and>
   table (snd (CasFieldObjectWithoutWriteBarrier False False 0x5000 12 0 0xBEEF kStrong
                 example_heap)) = table example_heap \<and>
   field32 (objects (snd (CasFieldObjectWithoutWriteBarrier False False 0x5000 12 0 0xBEEF kStrong
                 example_heap)) 0x5000) 12 = 0xBEEF \<and>
   objects (snd (CasFieldObjectWithoutWriteBarrier False False 0x5000 12 0 0xBEEF kStrong
                 example_heap)) 0x6000 = objects example_heap 0x6000 \<and>
   fst (CompareAndExchangeFieldObject False 0x5000 12 0 0xBEEF example_heap) = 0 \<and>
   trace (snd (CompareAndExchangeFieldObject False 0x5000 12 0 0xBEEF example_heap)) =
     [WriteBarrierForFieldWrite 0x5000 12 0xBEEF] \<and>
   table (snd (CompareAndExchangeFieldObject False 0x5000 12 0 0xBEEF example_heap)) =
     table example_heap \<and>
   field32 (objects (snd (CompareAndExchangeFieldObject False 0x5000 12 0 0xBEEF example_heap))
     0x5000) 12 = 0xBEEF \<and>
   objects (snd (CompareAndExchangeFieldObject False 0x5000 12 0 0xBEEF example_heap)) 0x6000 =
     objects example_heap 0x6000 \<and>
   fst (ExchangeFieldObject False 0x5000 12 0xBEEF example_heap) = 0 \<and>
   trace (snd (ExchangeFieldObject False 0x5000 12 0xBEEF example_heap)) =
     [WriteBarrierForFieldWrite 0x5000 12 0xBEEF] \<and>
   table (snd (ExchangeFieldObject False 0x5000 12 0xBEEF example_heap)) = table example_heap \<and>
   field32 (objects (snd (ExchangeFieldObject False 0x5000 12 0xBEEF example_heap)) 0x5000) 12 =
     0xBEEF \<and>
   objects (snd (ExchangeFieldObject False 0x5000 12 0xBEEF example_heap)) 0x6000 =
     objects example_heap 0x6000"
  by (simp add: CasFieldObjectWithoutWriteBarrier_def CompareAndExchangeFieldObject_def
      ExchangeFieldObject_def GetFieldPrimitive32_def SetFieldPrimitive32_def Let_def
      GetStubFlag_def example_heap_def blank_object_def idle_entry_def bit_defs GetBit_def)

section \<open>Properties of the large object spaces\<close>

lemma emit_events [simp]: "events (emit ev s) = events s @ [ev]"
  by (simp add: emit_def)

lemma emit_other [simp]:
  "large_objects (emit ev m) = large_objects m"
  "allocation_info (emit ev f) = allocation_info f"
  "free_blocks (emit ev f) = free_blocks f"
  "free_end (emit ev f) = free_end f"
  "space_begin (emit ev s) = space_begin s"
  "space_end (emit ev s) = space_end s"
  by (simp_all add: emit_def)

lemma hook_before_release_mono:
  "hook_before_release self N evs \<Longrightarrow> N \<subseteq> M \<Longrightarrow> hook_before_release self M evs"
proof (induction evs arbitrary: N M)
  case Nil
  then show ?case by simp
next
  case (Cons ev evs)
  show ?case
  proof (cases ev)
    case (GcRecordFreeCall t a)
    with Cons.prems have "t = self" and "hook_before_release self (insert a N) evs" by simp_all
    moreover have "insert a N \<subseteq> insert a M" using Cons.prems(2) by blast
    ultimately show ?thesis using GcRecordFreeCall Cons.IH by simp
  next
    case (Munmap a n)
    with Cons.prems have "a \<in> N" and "hook_before_release self (N - {a}) evs" by simp_all
    moreover have "N - {a} \<subseteq> M - {a}" using Cons.prems(2) by blast
    ultimately show ?thesis using Munmap Cons.IH Cons.prems(2) by auto
  next
    case (Madvise a n)
    with Cons.prems have "a \<in> N" and "hook_before_release self N evs" by simp_all
    then show ?thesis using Madvise Cons.IH Cons.prems(2) by auto
  next
    case (MarkedFree a n)
    with Cons.prems have "a \<in> N" and "hook_before_release self (N - {a}) evs" by simp_all
    moreover have "N - {a} \<subseteq> M - {a}" using Cons.prems(2) by blast
    ultimately show ?thesis using MarkedFree Cons.IH Cons.prems(2) by auto
  next
    case (NielInstRecordFree t n c)
    then show ?thesis using Cons by simp
  next
    case DumpSpaces
    then show ?thesis using Cons by simp
  next
    case (BitmapClear a)
    then show ?thesis using Cons by simp
  qed
qed

lemma hook_before_release_from_empty:
  "hook_before_release self {} evs \<Longrightarrow> hook_before_release self N evs"
  by (erule hook_before_release_mono) simp

lemma hook_before_release_append:
  "hook_before_release self N evs1 \<Longrightarrow> hook_before_release self {} evs2 \<Longrightarrow>
     hook_before_release self N (evs1 @ evs2)"
proof (induction evs1 arbitrary: N)
  case Nil
  then show ?case by (simp add: hook_before_release_from_empty)
next
  case (Cons ev evs1)
  then show ?case by (cases ev) simp_all
qed

lemma free_block_then:
  assumes "free_block self ptr evs" "hook_before_release self {} rest"
  shows "hook_before_release self N (evs @ rest)"
proof -
  have r: "hook_before_release self M rest" for M
    using assms(2) by (rule hook_before_release_from_empty)
  from assms(1) show ?thesis
    unfolding free_block_def by (auto simp add: r)
qed

lemma free_block_hd: "free_block self ptr evs \<Longrightarrow> \<exists>rest. evs = GcRecordFreeCall self ptr # rest"
  unfolding free_block_def by auto

lemma LargeObjectMapSpace_Free_events:
  "\<exists>evs. events (snd (LargeObjectMapSpace_Free self ptr s)) = events s @ evs \<and>
         free_block self ptr evs"
  by (cases "large_objects s ptr")
     (auto simp add: LargeObjectMapSpace_Free_def Let_def free_block_def)

lemma RemoveFreePrev_events: "RemoveFreePrev info s = Inr s' \<Longrightarrow> events s' = events s"
  by (auto simp add: RemoveFreePrev_def split: if_splits)

lemma set_info_events [simp]: "events (set_info info f s) = events s"
  by (simp add: set_info_def)

lemma Free_release_events:
  "\<exists>n. events (snd (Free_release kAlignment self obj s)) =
     events s @ [GcRecordFreeCall self obj, Madvise obj n, MarkedFree obj n] \<and>
     (\<forall>r. fst (Free_release kAlignment self obj s) = Inr r \<longrightarrow> fst r = n)"
  by (auto simp add: Free_release_def Let_def split: sum.splits dest: RemoveFreePrev_events)

lemma Free_coalesce_events:
  "Free_coalesce kAlignment new_free_size info next_info s = Inr s' \<Longrightarrow> events s' = events s"
  by (auto simp add: Free_coalesce_def Let_def split: if_splits sum.splits
      dest: RemoveFreePrev_events)

lemma FreeListSpace_Free_events:
  "\<exists>evs. events (snd (FreeListSpace_Free kAlignment self obj s)) = events s @ evs \<and>
         free_block self obj evs"
proof -
  from Free_release_events [of kAlignment self obj s] obtain n where
    e: "events (snd (Free_release kAlignment self obj s)) =
          events s @ [GcRecordFreeCall self obj, Madvise obj n, MarkedFree obj n]"
    and r: "\<forall>r. fst (Free_release kAlignment self obj s) = Inr r \<longrightarrow> fst r = n" by blast
  obtain res s1 where R: "Free_release kAlignment self obj s = (res, s1)"
    by (cases "Free_release kAlignment self obj s")
  show ?thesis
  proof (cases res)
    case (Inl err)
    then show ?thesis using R e by (auto simp add: FreeListSpace_Free_def free_block_def)
  next
    case (Inr q)
    obtain allocation_size new_free_size info next_info where
      q: "q = (allocation_size, new_free_size, info, next_info)" by (cases q) auto
    have a: "allocation_size = n" using r R Inr q by simp
    show ?thesis
    proof (cases "Free_coalesce kAlignment new_free_size info next_info s1")
      case (Inl err)
      then show ?thesis
        using R e \<open>res = Inr q\<close> q a by (auto simp add: FreeListSpace_Free_def free_block_def)
    next
      case (Inr s2)
      from Free_coalesce_events [OF Inr] have "events s2 = events s1" .
      then show ?thesis
        using R e \<open>res = Inr q\<close> q a Inr
        by (auto simp add: FreeListSpace_Free_def free_block_def Let_def)
    qed
  qed
qed

lemma MemoryToolLargeObjectMapSpace_Free_events:
  "\<exists>evs. events (snd (MemoryToolLargeObjectMapSpace_Free bits kPageSize self obj s)) = events s @ evs \<and>
         (evs = [] \<or> free_block self (ObjectWithRedzone bits kPageSize obj) evs)"
proof (cases "large_objects s (ObjectWithRedzone bits kPageSize obj)")
  case None
  then show ?thesis by (simp add: MemoryToolLargeObjectMapSpace_Free_def)
next
  case (Some it)
  then show ?thesis
    using LargeObjectMapSpace_Free_events [of self "ObjectWithRedzone bits kPageSize obj" s]
    by (auto simp add: MemoryToolLargeObjectMapSpace_Free_def)
qed

lemma Free_events:
  "\<exists>evs. space_events (snd (Free bits kAlignment self ptr sp)) = space_events sp @ evs \<and>
         (evs = [] \<or> (\<exists>p. free_block self p evs))"
proof (cases sp)
  case (MapSpace s)
  then show ?thesis
    using LargeObjectMapSpace_Free_events [of self ptr s]
    by (auto simp add: split_def Let_def)
next
  case (MemoryToolSpace s)
  then show ?thesis
    using MemoryToolLargeObjectMapSpace_Free_events [of bits kAlignment self ptr s]
    by (auto simp add: split_def Let_def)
next
  case (ListSpace s)
  then show ?thesis
    using FreeListSpace_Free_events [of kAlignment self ptr s]
    by (auto simp add: split_def Let_def)
qed

lemma FreeList_loop_events:
  "\<exists>evs. space_events (snd (FreeList_loop bits kAlignment self total_freed ptrs sp)) =
           space_events sp @ evs \<and> hook_before_release self {} evs"
proof (induction ptrs arbitrary: sp total_freed)
  case Nil
  show ?case by simp
next
  case (Cons ptr ptrs)
  from Free_events [of bits kAlignment self ptr sp] obtain blk where
    b: "space_events (snd (Free bits kAlignment self ptr sp)) = space_events sp @ blk"
    and fb: "blk = [] \<or> (\<exists>p. free_block self p blk)" by blast
  have blk: "hook_before_release self {} (blk @ rest)"
    if "hook_before_release self {} rest" for rest
    using fb that by (auto intro: free_block_then)
  obtain r sp' where F: "Free bits kAlignment self ptr sp = (r, sp')"
    by (cases "Free bits kAlignment self ptr sp")
  show ?case
  proof (cases r)
    case (Inl e)
    have "hook_before_release self {} (blk @ [])" by (rule blk) simp
    then show ?thesis using F Inl b by simp
  next
    case (Inr n)
    from Cons.IH [of "total_freed + n" sp'] obtain evs where
      e: "space_events (snd (FreeList_loop bits kAlignment self (total_freed + n) ptrs sp')) =
            space_events sp' @ evs"
      and h: "hook_before_release self {} evs" by blast
    have "hook_before_release self {} (blk @ evs)" using h by (rule blk)
    then show ?thesis using F Inr b e by simp
  qed
qed

lemma hook_before_release_BitmapClear:
  "hook_before_release self N (map BitmapClear ptrs @ evs) = hook_before_release self N evs"
  by (induction ptrs) simp_all

lemma clear_live_bits_events:
  "space_events (clear_live_bits ptrs sp) = space_events sp @ map BitmapClear ptrs"
proof (induction ptrs arbitrary: sp)
  case Nil
  show ?case by simp
next
  case (Cons ptr ptrs)
  show ?case by (cases sp) (simp_all add: Cons.IH)
qed

lemma FreeList_events:
  "\<exists>evs. space_events (snd (FreeList bits kAlignment self ptrs sp)) = space_events sp @ evs \<and>
         hook_before_release self {} evs"
  unfolding FreeList_def by (rule FreeList_loop_events)

lemma SweepCallback_events:
  "\<exists>evs. space_events (snd (snd (SweepCallback bits kAlignment ptrs (ctx, sp)))) =
           space_events sp @ evs \<and>
         hook_before_release (context_self ctx) {} evs \<and>
         context_self (fst (snd (SweepCallback bits kAlignment ptrs (ctx, sp)))) =
           context_self ctx"
proof -
  let ?sp1 = "if \<not> swap_bitmaps ctx then clear_live_bits ptrs sp else sp"
  let ?pre = "if \<not> swap_bitmaps ctx then map BitmapClear ptrs else []"
  have p: "space_events ?sp1 = space_events sp @ ?pre"
    by (simp add: clear_live_bits_events)
  from FreeList_events [of bits kAlignment "context_self ctx" ptrs ?sp1] obtain evs where
    e: "space_events (snd (FreeList bits kAlignment (context_self ctx) ptrs ?sp1)) =
          space_events ?sp1 @ evs"
    and h: "hook_before_release (context_self ctx) {} evs" by blast
  have h': "hook_before_release (context_self ctx) {} (?pre @ evs)"
    using h by (simp add: hook_before_release_BitmapClear)
  obtain r sp2 where F: "FreeList bits kAlignment (context_self ctx) ptrs ?sp1 = (r, sp2)"
    by (cases "FreeList bits kAlignment (context_self ctx) ptrs ?sp1")
  have s: "space_events (snd (snd (SweepCallback bits kAlignment ptrs (ctx, sp)))) =
      space_events sp @ (?pre @ evs)"
    using F e p by (cases r) (simp_all add: SweepCallback_def Let_def del: if_split cong: if_cong)
  have c: "context_self (fst (snd (SweepCallback bits kAlignment ptrs (ctx, sp)))) =
           context_self ctx"
    using F by (cases r) (simp_all add: SweepCallback_def Let_def del: if_split cong: if_cong)
  from s h' c show ?thesis by blast
qed

lemma sweep_batches_events:
  "\<exists>evs. space_events (snd (snd (sweep_batches bits kAlignment batches (ctx, sp)))) =
           space_events sp @ evs \<and>
         hook_before_release (context_self ctx) {} evs"
proof (induction batches arbitrary: ctx sp)
  case Nil
  show ?case by simp
next
  case (Cons ptrs batches)
  from SweepCallback_events [of bits kAlignment ptrs ctx sp] obtain evs1 where
    e1: "space_events (snd (snd (SweepCallback bits kAlignment ptrs (ctx, sp)))) =
           space_events sp @ evs1"
    and h1: "hook_before_release (context_self ctx) {} evs1"
    and c1: "context_self (fst (snd (SweepCallback bits kAlignment ptrs (ctx, sp)))) =
           context_self ctx" by blast
  obtain r ctx' sp' where S: "SweepCallback bits kAlignment ptrs (ctx, sp) = (r, ctx', sp')"
    by (cases "SweepCallback bits kAlignment ptrs (ctx, sp)")
  show ?case
  proof (cases r)
    case (Inl e)
    then show ?thesis using S e1 h1 by auto
  next
    case (Inr u)
    from Cons.IH [of ctx' sp'] obtain evs2 where
      e2: "space_events (snd (snd (sweep_batches bits kAlignment batches (ctx', sp')))) =
             space_events sp' @ evs2"
      and h2: "hook_before_release (context_self ctx') {} evs2" by blast
    have cs: "context_self ctx' = context_self ctx" using c1 S by simp
    have "hook_before_release (context_self ctx) {} (evs1 @ evs2)"
      using h1 h2 cs hook_before_release_append by simp
    then show ?thesis using S Inr e1 e2 by auto
  qed
qed

lemma Sweep_events:
  "\<exists>evs. space_events (snd (Sweep SweepWalk bits kAlignment self swap sp)) = space_events sp @ evs \<and>
         hook_before_release self {} evs"
proof (cases "Begin sp \<ge> End sp")
  case True
  then show ?thesis by (simp add: Sweep_def)
next
  case False
  let ?live = "if swap then GetMarkBitmap sp else GetLiveBitmap sp"
  let ?mark = "if swap then GetLiveBitmap sp else GetMarkBitmap sp"
  let ?scc = "\<lparr>swap_bitmaps = swap, context_self = self, freed_objects = 0, freed_bytes = 0\<rparr>"
  let ?b = "SweepWalk ?live ?mark (Begin sp) (End sp)"
  from sweep_batches_events [of bits kAlignment ?b ?scc sp] obtain evs where
    e: "space_events (snd (snd (sweep_batches bits kAlignment ?b (?scc, sp)))) = space_events sp @ evs"
    and h: "hook_before_release self {} evs" by auto
  obtain r scc' sp' where S: "sweep_batches bits kAlignment ?b (?scc, sp) = (r, scc', sp')"
    by (cases "sweep_batches bits kAlignment ?b (?scc, sp)")
  have "space_events (snd (Sweep SweepWalk bits kAlignment self swap sp)) = space_events sp'"
    using False S by (cases r) (simp_all add: Sweep_def Let_def del: if_split cong: if_cong)
  with e S h show ?thesis by auto
qed

lemma free_block_check: "free_block self ptr evs \<Longrightarrow> hook_before_release self {} evs"
  using free_block_then [of self ptr evs "[]" "{}"] by simp

text \<open>The check is not satisfied by a release without the hook, nor by the hook of
  another thread or after the release.\<close>

lemma hook_before_release_rejects:
  "\<not> hook_before_release self {} [Munmap a n]"
  "\<not> hook_before_release self {} [Madvise a n, GcRecordFreeCall self a]"
  "\<not> hook_before_release 1 {} [GcRecordFreeCall 1 0x10000, Munmap 0x12000 4096]"
  "\<not> hook_before_release 1 {} [GcRecordFreeCall 2 0x10000, Munmap 0x10000 4096]"
  by simp_all

text \<open>A live large object is unmapped by Free, after the hook.\<close>

lemma LargeObjectMapSpace_Free_live:
  "large_objects s ptr = Some it \<Longrightarrow>
   fst (LargeObjectMapSpace_Free self ptr s) = Inr (mem_map_BaseSize it) \<and>
   large_objects (snd (LargeObjectMapSpace_Free self ptr s)) ptr = None \<and>
   events (snd (LargeObjectMapSpace_Free self ptr s)) =
     events s @ [GcRecordFreeCall self ptr, Munmap ptr (mem_map_BaseSize it),
                 NielInstRecordFree self (mem_map_BaseSize it) 1]"
  by (simp add: LargeObjectMapSpace_Free_def Let_def)

text \<open>
  The order of hook and release. LargeObjectMapSpace::Free and FreeListSpace::Free call
  the hook with the freeing thread and the pointer they are given before anything else,
  and on every path, through FreeList and Sweep and on every kind of space, a point at
  which memory is given up comes after the hook for the address given up, also when a
  fatal check ends the run.
\<close>

lemma hook_precedes_release:
  "(\<exists>rest. events (snd (LargeObjectMapSpace_Free self ptr m)) =
             events m @ GcRecordFreeCall self ptr # rest \<and>
           hook_before_release self {} (GcRecordFreeCall self ptr # rest)) \<and>
   (\<exists>rest. events (snd (FreeListSpace_Free kAlignment self ptr f)) =
             events f @ GcRecordFreeCall self ptr # rest \<and>
           hook_before_release self {} (GcRecordFreeCall self ptr # rest)) \<and>
   (\<exists>evs. space_events (snd (FreeList bits kAlignment self ptrs sp)) = space_events sp @ evs \<and>
          hook_before_release self {} evs) \<and>
   (\<exists>evs. space_events (snd (Sweep SweepWalk bits kAlignment self swap sp)) = space_events sp @ evs \<and>
          hook_before_release self {} evs)"
proof -
  from LargeObjectMapSpace_Free_events [of self ptr m] obtain evs1 where
    1: "events (snd (LargeObjectMapSpace_Free self ptr m)) = events m @ evs1"
    and b1: "free_block self ptr evs1" by blast
  from free_block_hd [OF b1] obtain rest1 where r1: "evs1 = GcRecordFreeCall self ptr # rest1" ..
  from FreeListSpace_Free_events [of kAlignment self ptr f] obtain evs2 where
    2: "events (snd (FreeListSpace_Free kAlignment self ptr f)) = events f @ evs2"
    and b2: "free_block self ptr evs2" by blast
  from free_block_hd [OF b2] obtain rest2 where r2: "evs2 = GcRecordFreeCall self ptr # rest2" ..
  have A: "\<exists>rest. events (snd (LargeObjectMapSpace_Free self ptr m)) =
             events m @ GcRecordFreeCall self ptr # rest \<and>
           hook_before_release self {} (GcRecordFreeCall self ptr # rest)"
    using 1 free_block_check [OF b1] unfolding r1 by blast
  have B: "\<exists>rest. events (snd (FreeListSpace_Free kAlignment self ptr f)) =
             events f @ GcRecordFreeCall self ptr # rest \<and>
           hook_before_release self {} (GcRecordFreeCall self ptr # rest)"
    using 2 free_block_check [OF b2] unfolding r2 by blast
  from A B FreeList_events [of bits kAlignment self ptrs sp]
    Sweep_events [of SweepWalk bits kAlignment self swap sp]
  show ?thesis by blast
qed

lemma example_list_space_Free:
  "fst (FreeListSpace_Free 4096 7 0x10000 example_list_space) = Inr 8192"
  "events (snd (FreeListSpace_Free 4096 7 0x10000 example_list_space)) =
     [GcRecordFreeCall 7 0x10000, Madvise 0x10000 8192, MarkedFree 0x10000 8192,
      NielInstRecordFree 7 8192 1]"
  "free_blocks (snd (FreeListSpace_Free 4096 7 0x10000 example_list_space)) = {2}"
  "IsFree (allocation_info (snd (FreeListSpace_Free 4096 7 0x10000 example_list_space)) 0)"
  "GetPrevFree (allocation_info (snd (FreeListSpace_Free 4096 7 0x10000 example_list_space)) 2) = 2"
  "num_bytes_allocated (snd (FreeListSpace_Free 4096 7 0x10000 example_list_space)) = 4096"
  by (simp_all add: FreeListSpace_Free_def Free_release_def Free_coalesce_def RemoveFreePrev_def
      example_list_space_def Let_def GetSlotIndexForAddress_def GetAllocationAddressForSlot_def
      ByteSize_def AlignSize_def SetByteSize_def IsFree_def GetPrevFree_def GetPrevFreeBytes_def
      SetPrevFreeBytes_def set_info_def kFlagsMask_def kFlagFree_def kFlagZygote_def emit_def)


text \<open>
  Under a memory tool the pointer that reaches LargeObjectMapSpace::Free, and with it the
  hook, is not the object's address: it is the start of the red zone before the object.
\<close>

lemma ObjectWithRedzone_differs:
  assumes "0 < kPageSize" "kPageSize < 2 ^ bits" "obj < 2 ^ bits"
  shows "ObjectWithRedzone bits kPageSize obj \<noteq> obj"
proof -
  define N :: nat where "N = 2 ^ bits"
  have k: "kPageSize < N" and o: "obj < N" using assms by (simp_all add: N_def)
  have km: "kPageSize mod N = kPageSize" using k by (rule mod_less)
  have r: "ObjectWithRedzone bits kPageSize obj = (obj + N - kPageSize) mod N"
    unfolding ObjectWithRedzone_def N_def [symmetric] km ..
  show ?thesis
  proof (cases "kPageSize \<le> obj")
    case True
    then have "obj + N - kPageSize = (obj - kPageSize) + N" by arith
    then have "(obj + N - kPageSize) mod N = (obj - kPageSize) mod N" by (simp only: mod_add_self2)
    also have "\<dots> = obj - kPageSize" using o by (intro mod_less) arith
    finally show ?thesis unfolding r using True assms(1) by arith
  next
    case False
    then have "obj + N - kPageSize < N" using assms(1) k by arith
    then have "(obj + N - kPageSize) mod N = obj + N - kPageSize" by (rule mod_less)
    then show ?thesis unfolding r using k by arith
  qed
qed

lemma MemoryToolLargeObjectMapSpace_Free_live:
  "large_objects s (ObjectWithRedzone bits kPageSize obj) = Some it \<Longrightarrow>
   fst (MemoryToolLargeObjectMapSpace_Free bits kPageSize self obj s) = Inr (mem_map_BaseSize it) \<and>
   events (snd (MemoryToolLargeObjectMapSpace_Free bits kPageSize self obj s)) =
     events s @ [GcRecordFreeCall self (ObjectWithRedzone bits kPageSize obj),
                 Munmap (ObjectWithRedzone bits kPageSize obj) (mem_map_BaseSize it),
                 NielInstRecordFree self (mem_map_BaseSize it) 1]"
  by (simp add: MemoryToolLargeObjectMapSpace_Free_def LargeObjectMapSpace_Free_live)

lemma example_memory_tool_space_Free:
  "ObjectWithRedzone 64 4096 0x11000 = 0x10000"
  "MemoryToolLargeObjectMapSpace_Free 64 4096 7 0x11000 example_memory_tool_space =
     (Inr 12288,
      example_memory_tool_space
        \<lparr>num_bytes_allocated := 0, num_objects_allocated := 0,
         events := [GcRecordFreeCall 7 0x10000, Munmap 0x10000 12288, NielInstRecordFree 7 12288 1],
         large_objects := Map.empty\<rparr>)"
  by (simp_all add: ObjectWithRedzone_def MemoryToolLargeObjectMapSpace_Free_def
      LargeObjectMapSpace_Free_def example_memory_tool_space_def Let_def emit_def)

text \<open>
  C5. On a map space under a memory tool the hook does not get the object's address. The
  space holds one large object: its mapping of three pages is at 0x10000 and the object,
  as Alloc returned it, is at 0x11000. Free of the object by thread 7, FreeList of it and
  Sweep (whose walk hands the object to the callback) call the hook with 0x10000, the
  start of the red zone, and never with 0x11000, and then give the mapping up. On a map
  space without a memory tool and on a free-list space, Free calls the hook with the
  address of the object it is given.
\<close>

theorem free_hook_gets_red_zone_address_under_memory_tool:
  "large_objects example_memory_tool_space 0x10000 =
     Some \<lparr>mem_map_BaseSize = 12288, is_zygote = False\<rparr> \<and>
   fst (Free 64 4096 7 0x11000 (MemoryToolSpace example_memory_tool_space)) = Inr 12288 \<and>
   space_events (snd (Free 64 4096 7 0x11000 (MemoryToolSpace example_memory_tool_space))) =
     [GcRecordFreeCall 7 0x10000, Munmap 0x10000 12288, NielInstRecordFree 7 12288 1] \<and>
   fst (FreeList 64 4096 7 [0x11000] (MemoryToolSpace example_memory_tool_space)) = Inr 12288 \<and>
   space_events (snd (FreeList 64 4096 7 [0x11000] (MemoryToolSpace example_memory_tool_space))) =
     [GcRecordFreeCall 7 0x10000, Munmap 0x10000 12288, NielInstRecordFree 7 12288 1] \<and>
   fst (Sweep (\<lambda>live mark sweep_begin sweep_end. [[0x11000]]) 64 4096 7 False
          (MemoryToolSpace example_memory_tool_space)) = Inr (1, 12288) \<and>
   space_events (snd (Sweep (\<lambda>live mark sweep_begin sweep_end. [[0x11000]]) 64 4096 7 False
          (MemoryToolSpace example_memory_tool_space))) =
     [BitmapClear 0x11000, GcRecordFreeCall 7 0x10000, Munmap 0x10000 12288,
      NielInstRecordFree 7 12288 1] \<and>
   GcRecordFreeCall 7 0x11000 \<notin>
     set (space_events (snd (FreeList 64 4096 7 [0x11000]
            (MemoryToolSpace example_memory_tool_space)))) \<and>
   space_events (snd (FreeList 64 4096 7 [0x11000] (MapSpace example_map_space))) =
     [GcRecordFreeCall 7 0x11000, Munmap 0x11000 4096, NielInstRecordFree 7 4096 1] \<and>
   space_events (snd (FreeList 64 4096 7 [0x10000] (ListSpace example_list_space))) =
     [GcRecordFreeCall 7 0x10000, Madvise 0x10000 8192, MarkedFree 0x10000 8192,
      NielInstRecordFree 7 8192 1]"
proof -
  have m: "Free 64 4096 7 0x11000 (MemoryToolSpace example_memory_tool_space) =
     (Inr 12288,
      MemoryToolSpace (example_memory_tool_space
        \<lparr>num_bytes_allocated := 0, num_objects_allocated := 0,
         events := [GcRecordFreeCall 7 0x10000, Munmap 0x10000 12288, NielInstRecordFree 7 12288 1],
         large_objects := Map.empty\<rparr>))"
    by (simp add: example_memory_tool_space_Free)
  have p: "Free 64 4096 7 0x11000 (MapSpace example_map_space) =
     (Inr 4096,
      MapSpace (example_map_space
        \<lparr>num_bytes_allocated := 0, num_objects_allocated := 0,
         events := [GcRecordFreeCall 7 0x11000, Munmap 0x11000 4096, NielInstRecordFree 7 4096 1],
         large_objects := Map.empty\<rparr>))"
    by (simp add: LargeObjectMapSpace_Free_def example_map_space_def Let_def emit_def)
  have l: "fst (Free 64 4096 7 0x10000 (ListSpace example_list_space)) = Inr 8192"
    "space_events (snd (Free 64 4096 7 0x10000 (ListSpace example_list_space))) =
       [GcRecordFreeCall 7 0x10000, Madvise 0x10000 8192, MarkedFree 0x10000 8192,
        NielInstRecordFree 7 8192 1]"
    using example_list_space_Free(1,2) by (simp_all add: split_def)
  have c: "clear_live_bits [0x11000] (MemoryToolSpace example_memory_tool_space) =
      MemoryToolSpace (example_memory_tool_space\<lparr>live_bitmap := {}, events := [BitmapClear 0x11000]\<rparr>)"
    by (simp add: example_memory_tool_space_def emit_def)
  have mc: "Free 64 4096 7 0x11000
        (MemoryToolSpace (example_memory_tool_space\<lparr>live_bitmap := {}, events := [BitmapClear 0x11000]\<rparr>)) =
     (Inr 12288,
      MemoryToolSpace (example_memory_tool_space
        \<lparr>num_bytes_allocated := 0, num_objects_allocated := 0, live_bitmap := {},
         events := [BitmapClear 0x11000, GcRecordFreeCall 7 0x10000, Munmap 0x10000 12288,
                    NielInstRecordFree 7 12288 1],
         large_objects := Map.empty\<rparr>))"
    by (simp add: ObjectWithRedzone_def MemoryToolLargeObjectMapSpace_Free_def
      LargeObjectMapSpace_Free_def example_memory_tool_space_def Let_def emit_def)
  have b: "Begin (MemoryToolSpace example_memory_tool_space) < End (MemoryToolSpace example_memory_tool_space)"
    by (simp add: example_memory_tool_space_def)
  have 1: "large_objects example_memory_tool_space 0x10000 =
     Some \<lparr>mem_map_BaseSize = 12288, is_zygote = False\<rparr>"
    by (simp add: example_memory_tool_space_def)
  have 2: "fst (FreeList 64 4096 7 [0x11000] (MemoryToolSpace example_memory_tool_space)) = Inr 12288"
    "space_events (snd (FreeList 64 4096 7 [0x11000] (MemoryToolSpace example_memory_tool_space))) =
     [GcRecordFreeCall 7 0x10000, Munmap 0x10000 12288, NielInstRecordFree 7 12288 1]"
    by (simp_all add: FreeList_def m del: Free.simps)
  have 3: "fst (Sweep (\<lambda>live mark sweep_begin sweep_end. [[0x11000]]) 64 4096 7 False
          (MemoryToolSpace example_memory_tool_space)) = Inr (1, 12288)"
    "space_events (snd (Sweep (\<lambda>live mark sweep_begin sweep_end. [[0x11000]]) 64 4096 7 False
          (MemoryToolSpace example_memory_tool_space))) =
     [BitmapClear 0x11000, GcRecordFreeCall 7 0x10000, Munmap 0x10000 12288,
      NielInstRecordFree 7 12288 1]"
    using b by (simp_all add: Sweep_def SweepCallback_def FreeList_def Let_def c mc
        del: Free.simps clear_live_bits.simps)
  have 4: "space_events (snd (FreeList 64 4096 7 [0x11000] (MapSpace example_map_space))) =
     [GcRecordFreeCall 7 0x11000, Munmap 0x11000 4096, NielInstRecordFree 7 4096 1]"
    by (simp add: FreeList_def p del: Free.simps)
  have 5: "space_events (snd (FreeList 64 4096 7 [0x10000] (ListSpace example_list_space))) =
     [GcRecordFreeCall 7 0x10000, Madvise 0x10000 8192, MarkedFree 0x10000 8192,
      NielInstRecordFree 7 8192 1]"
    using l by (cases "Free 64 4096 7 0x10000 (ListSpace example_list_space)")
      (auto simp add: FreeList_def simp del: Free.simps)
  have 6: "fst (Free 64 4096 7 0x11000 (MemoryToolSpace example_memory_tool_space)) = Inr 12288"
    "space_events (snd (Free 64 4096 7 0x11000 (MemoryToolSpace example_memory_tool_space))) =
     [GcRecordFreeCall 7 0x10000, Munmap 0x10000 12288, NielInstRecordFree 7 12288 1]"
    by (simp_all add: m del: Free.simps)
  show ?thesis
    unfolding 1 2 3 4 5 6 by simp
qed

section \<open>Properties of allocation and reference creation\<close>

lemma SetNoSwapFlag_sets: "no_swap_flag (objects (SetNoSwapFlag obj h) obj)"
  by (simp add: SetNoSwapFlag_def)

lemma SetNoSwapFlag_sticky:
  "no_swap_flag (objects h a) \<Longrightarrow> no_swap_flag (objects (SetNoSwapFlag obj h) a)"
  by (simp add: SetNoSwapFlag_def)

lemma SetNoSwapFlag_others:
  "a \<noteq> obj \<Longrightarrow> objects (SetNoSwapFlag obj h) a = objects h a"
  by (simp add: SetNoSwapFlag_def)

lemma AllocObjectWithAllocator_large:
  assumes "ShouldAllocLargeObject heap klass byte_count"
    and "AllocLargeObject heap klass byte_count h = Some (Some obj, h1)"
  shows "AllocObjectWithAllocator heap True klass byte_count allocator h =
           Some (Some obj, if IsZygote heap then SetNoSwapFlag obj h1 else h1)"
  using assms
  by (subst AllocObjectWithAllocator.simps) (simp add: AllocLargeObject_def)

lemma AllocObjectWithAllocator_large_failed:
  assumes "ShouldAllocLargeObject heap klass byte_count"
    and "AllocLargeObject heap klass byte_count h = Some (None, h1)"
  shows "AllocObjectWithAllocator heap True klass byte_count allocator h =
           AllocObjectWithAllocator heap False klass byte_count
             (GetUpdatedAllocator heap allocator) h1"
  using assms
  by (subst AllocObjectWithAllocator.simps) (simp add: AllocLargeObject_def)

lemma AllocObjectWithAllocator_proper:
  assumes "\<not> (kCheckLargeObject \<and> ShouldAllocLargeObject heap klass byte_count)"
    and "Allocate heap allocator klass byte_count h = (Allocated obj, h1)"
  shows "AllocObjectWithAllocator heap kCheckLargeObject klass byte_count allocator h =
           Some (Some obj, h1)"
  using assms
  by (subst AllocObjectWithAllocator.simps) auto

lemma AddGlobalRef_null: "AddGlobalRef Add 0 (h, vm) = (Inr None, h, vm)"
  by (simp add: AddGlobalRef_def)

lemma AddGlobalRef_object:
  "obj \<noteq> 0 \<Longrightarrow>
   AddGlobalRef Add obj (h, vm) =
     (case fst (Add (globals vm) obj) of None \<Rightarrow> Inl LogFatal | Some r \<Rightarrow> Inr (Some r),
      SetNoSwapFlag obj h, vm\<lparr>globals := snd (Add (globals vm) obj)\<rparr>)"
  by (auto simp add: AddGlobalRef_def Let_def split_def)

lemma AddWeakGlobalRef_null:
  "AddWeakGlobalRef Add kUseReadBarrier MayAccessWeakGlobals 0 (h, vm) = Some (Inr None, h, vm)"
  by (simp add: AddWeakGlobalRef_def)

lemma AddWeakGlobalRef_object:
  assumes "obj \<noteq> 0"
    and "AddWeakGlobalRef Add kUseReadBarrier MayAccessWeakGlobals obj (h, vm) = Some (r, h', vm')"
  shows "h' = SetNoSwapFlag obj h \<and>
         r = (case fst (Add (weak_globals vm) obj) of None \<Rightarrow> Inl LogFatal | Some x \<Rightarrow> Inr (Some x)) \<and>
         vm' = vm\<lparr>weak_globals := snd (Add (weak_globals vm) obj)\<rparr>"
  using assms
  by (auto simp add: AddWeakGlobalRef_def Let_def split_def split: bind_splits if_splits)

text \<open>The wait returns once access is given.\<close>

lemma Wait_returns:
  "kUseReadBarrier \<or> MayAccessWeakGlobals (n + k) \<Longrightarrow>
   \<exists>m. WaitForWeakGlobalsAccess kUseReadBarrier MayAccessWeakGlobals n = Some m"
proof (induction k arbitrary: n)
  case 0
  then show ?case by (subst WaitForWeakGlobalsAccess.simps) auto
next
  case (Suc k)
  from Suc.prems have "kUseReadBarrier \<or> MayAccessWeakGlobals (Suc n + k)" by simp
  from Suc.IH [OF this] obtain m where
    "WaitForWeakGlobalsAccess kUseReadBarrier MayAccessWeakGlobals (Suc n) = Some m" ..
  then show ?case by (subst WaitForWeakGlobalsAccess.simps) auto
qed

lemma AddWeakGlobalRef_returns:
  assumes "kUseReadBarrier \<or> (\<exists>k. MayAccessWeakGlobals k)"
  shows "\<exists>res. AddWeakGlobalRef Add kUseReadBarrier MayAccessWeakGlobals obj (h, vm) = Some res"
proof -
  from assms obtain k where "kUseReadBarrier \<or> MayAccessWeakGlobals (0 + k)" by auto
  from Wait_returns [of kUseReadBarrier MayAccessWeakGlobals 0 k, OF this] obtain m where
    "WaitForWeakGlobalsAccess kUseReadBarrier MayAccessWeakGlobals 0 = Some m" ..
  then show ?thesis by (simp add: AddWeakGlobalRef_def Let_def split_def)
qed

text \<open>
  C6. The no-swap flag is set before the object or the reference is handed out in these
  cases. (a) In AllocObjectWithAllocator, when the large-object branch is taken and
  AllocLargeObject gives an object, the object is returned with SetNoSwapFlag applied
  exactly when the runtime is the zygote; an object that comes from the allocation proper
  is returned as it is. (b) AddGlobalRef and AddWeakGlobalRef of an object other than
  \<^verbatim>\<open>nullptr\<close> set the flag of the object before the table is asked for the reference,
  so that every result, the reference included, comes with the flag set; for
  \<^verbatim>\<open>nullptr\<close> they return \<^verbatim>\<open>nullptr\<close> and change nothing. AddWeakGlobalRef returns
  once access to the weak globals is given.
\<close>

theorem no_swap_flag_set_before_hand_out:
  "(ShouldAllocLargeObject heap klass byte_count \<and>
      AllocLargeObject heap klass byte_count h = Some (Some ob, h1) \<longrightarrow>
      AllocObjectWithAllocator heap True klass byte_count allocator h =
        Some (Some ob, if IsZygote heap then SetNoSwapFlag ob h1 else h1) \<and>
      (IsZygote heap \<longrightarrow> no_swap_flag (objects (SetNoSwapFlag ob h1) ob))) \<and>
   (\<not> (kCheckLargeObject \<and> ShouldAllocLargeObject heap klass byte_count) \<and>
      Allocate heap allocator klass byte_count h = (Allocated ob, h1) \<longrightarrow>
      AllocObjectWithAllocator heap kCheckLargeObject klass byte_count allocator h =
        Some (Some ob, h1)) \<and>
   (obj \<noteq> 0 \<longrightarrow>
      (\<exists>r vm'. AddGlobalRef Add obj (h, vm) = (r, SetNoSwapFlag obj h, vm')) \<and>
      no_swap_flag (objects (SetNoSwapFlag obj h) obj)) \<and>
   AddGlobalRef Add 0 (h, vm) = (Inr None, h, vm) \<and>
   (obj \<noteq> 0 \<and>
      AddWeakGlobalRef Add kUseReadBarrier MayAccessWeakGlobals obj (h, vm) = Some (r, h', vm') \<longrightarrow>
      h' = SetNoSwapFlag obj h \<and> no_swap_flag (objects h' obj)) \<and>
   (kUseReadBarrier \<or> (\<exists>k. MayAccessWeakGlobals k) \<longrightarrow>
      (\<exists>res. AddWeakGlobalRef Add kUseReadBarrier MayAccessWeakGlobals obj (h, vm) = Some res)) \<and>
   AddWeakGlobalRef Add kUseReadBarrier MayAccessWeakGlobals 0 (h, vm) = Some (Inr None, h, vm)"
proof -
  have A: "ShouldAllocLargeObject heap klass byte_count \<and>
      AllocLargeObject heap klass byte_count h = Some (Some ob, h1) \<longrightarrow>
      AllocObjectWithAllocator heap True klass byte_count allocator h =
        Some (Some ob, if IsZygote heap then SetNoSwapFlag ob h1 else h1) \<and>
      (IsZygote heap \<longrightarrow> no_swap_flag (objects (SetNoSwapFlag ob h1) ob))"
    using AllocObjectWithAllocator_large [of heap klass byte_count h ob h1 allocator]
      SetNoSwapFlag_sets [of ob h1] by blast
  have B: "\<not> (kCheckLargeObject \<and> ShouldAllocLargeObject heap klass byte_count) \<and>
      Allocate heap allocator klass byte_count h = (Allocated ob, h1) \<longrightarrow>
      AllocObjectWithAllocator heap kCheckLargeObject klass byte_count allocator h =
        Some (Some ob, h1)"
    using AllocObjectWithAllocator_proper [of kCheckLargeObject heap klass byte_count allocator h ob h1]
    by blast
  have C: "obj \<noteq> 0 \<longrightarrow>
      (\<exists>r vm'. AddGlobalRef Add obj (h, vm) = (r, SetNoSwapFlag obj h, vm')) \<and>
      no_swap_flag (objects (SetNoSwapFlag obj h) obj)"
    using AddGlobalRef_object [of obj Add h vm] SetNoSwapFlag_sets [of obj h] by auto
  have D: "obj \<noteq> 0 \<and>
      AddWeakGlobalRef Add kUseReadBarrier MayAccessWeakGlobals obj (h, vm) = Some (r, h', vm') \<longrightarrow>
      h' = SetNoSwapFlag obj h \<and> no_swap_flag (objects h' obj)"
    using AddWeakGlobalRef_object [of obj Add kUseReadBarrier MayAccessWeakGlobals h vm r h' vm']
      SetNoSwapFlag_sets [of obj h] by auto
  have E: "kUseReadBarrier \<or> (\<exists>k. MayAccessWeakGlobals k) \<longrightarrow>
      (\<exists>res. AddWeakGlobalRef Add kUseReadBarrier MayAccessWeakGlobals obj (h, vm) = Some res)"
    using AddWeakGlobalRef_returns [of kUseReadBarrier MayAccessWeakGlobals Add obj h vm] by blast
  from A B C D E AddGlobalRef_null [of Add h vm]
    AddWeakGlobalRef_null [of Add kUseReadBarrier MayAccessWeakGlobals h vm]
  show ?thesis by blast
qed

lemma zygote_example_facts:
  "ShouldAllocLargeObject zygote_heap array_class 16384"
  "IsZygote zygote_heap"
  "Allocate zygote_heap kAllocatorTypeLOS array_class 16384 example_heap =
     (Allocated 0x7000, example_heap)"
  "AllocLargeObject zygote_heap array_class 16384 example_heap = Some (Some 0x7000, example_heap)"
  "\<not> no_swap_flag (objects example_heap 0x7000)"
proof -
  show s: "ShouldAllocLargeObject zygote_heap array_class 16384"
    by (simp add: ShouldAllocLargeObject_def zygote_heap_def array_class_def)
  show "IsZygote zygote_heap" by (simp add: zygote_heap_def)
  show a: "Allocate zygote_heap kAllocatorTypeLOS array_class 16384 example_heap =
     (Allocated 0x7000, example_heap)"
    by (simp add: zygote_heap_def)
  show "AllocLargeObject zygote_heap array_class 16384 example_heap =
      Some (Some 0x7000, example_heap)"
    unfolding AllocLargeObject_def
    by (rule AllocObjectWithAllocator_proper [OF _ a]) simp
  show "\<not> no_swap_flag (objects example_heap 0x7000)"
    by (simp add: example_heap_def blank_object_def)
qed

lemma weak_example_facts:
  "AddWeakGlobalRef list_table_Add False (\<lambda>n. 2 \<le> n) 0x7000 (example_heap, empty_vm) =
     Some (Inr (Some 0), SetNoSwapFlag 0x7000 example_heap, empty_vm\<lparr>weak_globals := [0x7000]\<rparr>)"
proof -
  have "WaitForWeakGlobalsAccess False (\<lambda>n. 2 \<le> n) 2 = Some 2"
    by (subst WaitForWeakGlobalsAccess.simps) simp
  then have "WaitForWeakGlobalsAccess False (\<lambda>n. 2 \<le> n) (Suc 0) = Some 2"
    by (subst WaitForWeakGlobalsAccess.simps) (simp add: numeral_2_eq_2)
  then have "WaitForWeakGlobalsAccess False (\<lambda>n. 2 \<le> n) 0 = Some 2"
    by (subst WaitForWeakGlobalsAccess.simps) simp
  then show ?thesis
    by (simp add: AddWeakGlobalRef_def list_table_Add_def empty_vm_def)
qed

text \<open>In the zygote a 16 KiB primitive array is a large object: it is returned with the
  flag set, which it did not have; a global and a weak global reference to it.\<close>

theorem no_swap_flag_set_before_hand_out_witness:
  "ShouldAllocLargeObject zygote_heap array_class 16384 \<and> IsZygote zygote_heap \<and>
   AllocLargeObject zygote_heap array_class 16384 example_heap = Some (Some 0x7000, example_heap) \<and>
   \<not> no_swap_flag (objects example_heap 0x7000) \<and>
   AllocObjectWithAllocator zygote_heap True array_class 16384 kAllocatorTypeRosAlloc example_heap =
     Some (Some 0x7000, SetNoSwapFlag 0x7000 example_heap) \<and>
   no_swap_flag (objects (SetNoSwapFlag 0x7000 example_heap) 0x7000) \<and>
   Allocate zygote_heap kAllocatorTypeLOS array_class 16384 example_heap =
     (Allocated 0x7000, example_heap) \<and>
   AllocObjectWithAllocator zygote_heap False array_class 16384 kAllocatorTypeLOS example_heap =
     Some (Some 0x7000, example_heap) \<and>
   (0x7000 :: 32 word) \<noteq> 0 \<and>
   AddGlobalRef list_table_Add 0x7000 (example_heap, empty_vm) =
     (Inr (Some 0), SetNoSwapFlag 0x7000 example_heap, empty_vm\<lparr>globals := [0x7000]\<rparr>) \<and>
   AddWeakGlobalRef list_table_Add False (\<lambda>n. 2 \<le> n) 0x7000 (example_heap, empty_vm) =
     Some (Inr (Some 0), SetNoSwapFlag 0x7000 example_heap, empty_vm\<lparr>weak_globals := [0x7000]\<rparr>) \<and>
   (\<exists>k. (\<lambda>n. (2 :: nat) \<le> n) k)"
proof -
  note T1 = no_swap_flag_set_before_hand_out [where heap = zygote_heap and klass = array_class
      and byte_count = 16384 and h = example_heap and ob = "0x7000" and ?h1.0 = example_heap
      and allocator = kAllocatorTypeRosAlloc and kCheckLargeObject = False
      and obj = "0x7000" and Add = list_table_Add and vm = empty_vm
      and kUseReadBarrier = False and MayAccessWeakGlobals = "\<lambda>n. 2 \<le> n"
      and r = "Inr (Some 0)" and h' = "SetNoSwapFlag 0x7000 example_heap"
      and vm' = "empty_vm\<lparr>weak_globals := [0x7000]\<rparr>"]
  note T2 = no_swap_flag_set_before_hand_out [where heap = zygote_heap and klass = array_class
      and byte_count = 16384 and h = example_heap and ob = "0x7000" and ?h1.0 = example_heap
      and allocator = kAllocatorTypeLOS and kCheckLargeObject = False
      and obj = "0x7000" and Add = list_table_Add and vm = empty_vm
      and kUseReadBarrier = False and MayAccessWeakGlobals = "\<lambda>n. 2 \<le> n"
      and r = "Inr (Some 0)" and h' = "SetNoSwapFlag 0x7000 example_heap"
      and vm' = "empty_vm\<lparr>weak_globals := [0x7000]\<rparr>"]
  have g: "AddGlobalRef list_table_Add 0x7000 (example_heap, empty_vm) =
     (Inr (Some 0), SetNoSwapFlag 0x7000 example_heap, empty_vm\<lparr>globals := [0x7000]\<rparr>)"
    by (simp add: AddGlobalRef_def list_table_Add_def empty_vm_def)
  have k: "\<exists>k. (\<lambda>n. (2 :: nat) \<le> n) k" by (rule exI [of _ 2]) simp
  from T1 T2 zygote_example_facts weak_example_facts g k show ?thesis by simp
qed

end
